(* ===== verification/Prelude.thy ===== *)
theory Prelude
  imports Main "HOL-Library.AList" "HOL-Library.Sublist" "HOL-Library.Word"
begin

text \<open>
  Shared vocabulary of the development: Go strings (byte strings, here \<open>string\<close>), the
  functions of the package \<open>strings\<close> that the sources call, Go maps, error values and
  results, and the \<open>named_theorems\<close> collections.

  A Go map is an association list with distinct keys.  The order of the list is the order in
  which a \<open>range\<close> loop visits the entries; Go leaves that order open, and the theorems
  quantify over all lists, hence over all orders.
\<close>

section \<open>Collections\<close>

named_theorems gomap_simps \<open>lookup after update and delete\<close>
named_theorems string_simps \<open>laws of the string functions\<close>
named_theorems err_simps \<open>texts and classes of errors\<close>

section \<open>Results\<close>

text \<open>An operation that returns \<open>(T, error)\<close> is a sum: \<open>Inl\<close> holds the error.\<close>

abbreviation is_ok :: "'e + 'a \<Rightarrow> bool" where
  "is_ok r \<equiv> \<not> isl r"

definition check_that :: "bool \<Rightarrow> 'e \<Rightarrow> 'e + unit" where
  "check_that b e = (if b then Inr () else Inl e)"

definition and_then :: "'e + unit \<Rightarrow> 'e + 'b \<Rightarrow> 'e + 'b" where
  "and_then r s = (case r of Inl e \<Rightarrow> Inl e | Inr _ \<Rightarrow> s)"

lemma check_that_ok [simp]: "check_that b e = Inr u \<longleftrightarrow> b"
  by (simp add: check_that_def)

lemma check_that_err [simp]: "check_that b e = Inl x \<longleftrightarrow> \<not> b \<and> x = e"
  by (auto simp: check_that_def)

lemma and_then_ok [simp]: "and_then r s = Inr y \<longleftrightarrow> r = Inr () \<and> s = Inr y"
  by (auto simp: and_then_def split: sum.splits)

lemma and_then_simps [simp]:
  "and_then (Inr u) s = s"
  "and_then (Inl e) s = Inl e"
  by (simp_all add: and_then_def)

text \<open>The first error of a loop \<open>for _, x := range xs { if err := f(x) ... return err }\<close>.\<close>

fun first_err :: "('a \<Rightarrow> 'e + unit) \<Rightarrow> 'a list \<Rightarrow> 'e + unit" where
  "first_err f [] = Inr ()"
| "first_err f (x # xs) = (case f x of Inl e \<Rightarrow> Inl e | Inr _ \<Rightarrow> first_err f xs)"

lemma first_err_ok: "first_err f xs = Inr u \<longleftrightarrow> (\<forall>x\<in>set xs. f x = Inr ())"
  by (induction xs) (auto split: sum.splits)

section \<open>Go maps\<close>

type_synonym ('k, 'v) gomap = "('k \<times> 'v) list"

definition mget :: "('k, 'v) gomap \<Rightarrow> 'k \<Rightarrow> 'v option" where
  "mget m k = map_of m k"

definition mhas :: "('k, 'v) gomap \<Rightarrow> 'k \<Rightarrow> bool" where
  "mhas m k = (map_of m k \<noteq> None)"

definition mput :: "'k \<Rightarrow> 'v \<Rightarrow> ('k, 'v) gomap \<Rightarrow> ('k, 'v) gomap" where
  "mput k v m = AList.update k v m"

definition mdel :: "'k \<Rightarrow> ('k, 'v) gomap \<Rightarrow> ('k, 'v) gomap" where
  "mdel k m = AList.delete k m"

definition mkeys :: "('k, 'v) gomap \<Rightarrow> 'k list" where
  "mkeys m = map fst m"

definition wf_map :: "('k, 'v) gomap \<Rightarrow> bool" where
  "wf_map m = distinct (map fst m)"

lemma mget_Nil [simp, gomap_simps]: "mget [] k = None"
  by (simp add: mget_def)

lemma mget_Cons: "mget ((k', v) # m) k = (if k = k' then Some v else mget m k)"
  by (simp add: mget_def)

lemma mhas_iff [gomap_simps]: "mhas m k \<longleftrightarrow> mget m k \<noteq> None"
  by (simp add: mhas_def mget_def)

lemma mget_mput [simp, gomap_simps]:
  "mget (mput k v m) k' = (if k' = k then Some v else mget m k')"
  by (simp add: mget_def mput_def update_conv')

lemma mget_mdel [simp, gomap_simps]:
  "mget (mdel k m) k' = (if k' = k then None else mget m k')"
  by (simp add: mget_def mdel_def delete_conv')

lemma wf_map_Nil [simp]: "wf_map []"
  by (simp add: wf_map_def)

lemma wf_map_mput [simp]: "wf_map m \<Longrightarrow> wf_map (mput k v m)"
  by (simp add: wf_map_def mput_def distinct_update)

lemma wf_map_mdel [simp]: "wf_map m \<Longrightarrow> wf_map (mdel k m)"
  by (simp add: wf_map_def mdel_def distinct_delete)

lemma mget_None_iff: "mget m k = None \<longleftrightarrow> k \<notin> set (mkeys m)"
  by (simp add: mget_def mkeys_def map_of_eq_None_iff)

lemma set_mkeys_mput [simp]: "set (mkeys (mput k v m)) = insert k (set (mkeys m))"
  by (simp add: mkeys_def mput_def dom_update)

lemma set_mkeys_mdel [simp]: "set (mkeys (mdel k m)) = set (mkeys m) - {k}"
  by (simp add: mkeys_def mdel_def delete_keys)

lemma mget_Some_mem: "mget m k = Some v \<Longrightarrow> (k, v) \<in> set m"
  by (simp add: mget_def map_of_SomeD)

lemma mget_mem: "wf_map m \<Longrightarrow> (k, v) \<in> set m \<Longrightarrow> mget m k = Some v"
  by (simp add: wf_map_def mget_def)

text \<open>Writing every entry of one map into another: \<open>for k, v := range xs { m[k] = v }\<close>.\<close>

definition mput_all :: "('k \<times> 'v) list \<Rightarrow> ('k, 'v) gomap \<Rightarrow> ('k, 'v) gomap" where
  "mput_all kvs m = fold (\<lambda>(k, v). mput k v) kvs m"

lemma mput_all_simps [simp]:
  "mput_all [] m = m"
  "mput_all ((k, v) # kvs) m = mput_all kvs (mput k v m)"
  by (simp_all add: mput_all_def)

lemma wf_map_mput_all [simp]: "wf_map m \<Longrightarrow> wf_map (mput_all kvs m)"
  by (induction kvs arbitrary: m) auto

lemma mget_mput_all:
  "wf_map kvs \<Longrightarrow>
   mget (mput_all kvs m) k = (case mget kvs k of Some v \<Rightarrow> Some v | None \<Rightarrow> mget m k)"
proof (induction kvs arbitrary: m)
  case (Cons kv kvs)
  obtain k' v' where [simp]: "kv = (k', v')" by (cases kv)
  from Cons.prems have "wf_map kvs" "mget kvs k' = None"
    by (auto simp: wf_map_def mget_None_iff mkeys_def)
  then show ?case
    using Cons.IH[of "mput k' v' m"] by (auto simp: mget_Cons split: option.splits)
qed simp

section \<open>Strings\<close>

type_synonym str = string

definition has_prefix :: "str \<Rightarrow> str \<Rightarrow> bool" where
  "has_prefix s p = prefix p s"

definition str_contains :: "str \<Rightarrow> str \<Rightarrow> bool" where
  "str_contains s p = sublist p s"

definition trim_prefix :: "str \<Rightarrow> str \<Rightarrow> str" where
  "trim_prefix s p = (if prefix p s then drop (length p) s else s)"

definition trim_suffix :: "str \<Rightarrow> str \<Rightarrow> str" where
  "trim_suffix s p = (if suffix p s then take (length s - length p) s else s)"

lemma has_prefix_append [simp, string_simps]: "has_prefix (p @ s) p"
  by (simp add: has_prefix_def)

lemma trim_prefix_append [simp, string_simps]: "trim_prefix (p @ s) p = s"
  by (simp add: trim_prefix_def)

lemma trim_suffix_append [simp, string_simps]: "trim_suffix (s @ p) p = s"
  by (simp add: trim_suffix_def suffix_def)

lemma has_prefixD: "has_prefix s p \<Longrightarrow> \<exists>r. s = p @ r"
  by (auto simp: has_prefix_def prefix_def)

text \<open>\<open>strings.Split\<close> with a one byte separator, and \<open>strings.Join\<close>.\<close>

fun split_on :: "char \<Rightarrow> str \<Rightarrow> str list" where
  "split_on c [] = [[]]"
| "split_on c (x # xs) =
     (if x = c then [] # split_on c xs
      else (case split_on c xs of [] \<Rightarrow> [[x]] | y # ys \<Rightarrow> (x # y) # ys))"

fun join_with :: "str \<Rightarrow> str list \<Rightarrow> str" where
  "join_with sep [] = []"
| "join_with sep [x] = x"
| "join_with sep (x # y # ys) = x @ sep @ join_with sep (y # ys)"

lemma split_on_not_Nil [simp]: "split_on c s \<noteq> []"
  by (cases s) (auto split: list.splits)

lemma split_on_no_sep: "c \<notin> set x \<Longrightarrow> split_on c x = [x]"
  by (induction x) auto

lemma split_on_append:
  "c \<notin> set x \<Longrightarrow> split_on c (x @ c # s) = x # split_on c s"
  by (induction x) auto

lemma split_on_join [string_simps]:
  assumes "xs \<noteq> []" and "\<forall>x\<in>set xs. c \<notin> set x"
  shows "split_on c (join_with [c] xs) = xs"
  using assms
proof (induction xs rule: induct_list012)
  case (2 x)
  then show ?case by (simp add: split_on_no_sep)
next
  case (3 x y zs)
  then show ?case by (simp add: split_on_append)
qed simp

lemma split_on_parts: "x \<in> set (split_on c s) \<Longrightarrow> c \<notin> set x"
  by (induction s arbitrary: x) (auto split: if_splits list.splits)

lemma join_split_on [string_simps]: "join_with [c] (split_on c s) = s"
proof (induction s)
  case (Cons x s)
  obtain y ys where y: "split_on c s = y # ys"
    using split_on_not_Nil[of c s] by (cases "split_on c s") auto
  with Cons.IH show ?case by (cases ys) auto
qed simp

text \<open>\<open>strings.Trim(s, cutset)\<close>: bytes of the cutset off both ends.\<close>

definition trim_chars :: "str \<Rightarrow> str \<Rightarrow> str" where
  "trim_chars s cs = rev (dropWhile (\<lambda>c. c \<in> set cs) (rev (dropWhile (\<lambda>c. c \<in> set cs) s)))"

text \<open>
  \<open>strings.TrimSpace\<close> cuts Unicode white space: the six ASCII bytes and the UTF-8 encodings
  of U+0085, U+00A0, U+1680, U+2000 to U+200A, U+2028, U+2029, U+202F, U+205F and U+3000.
\<close>

definition space_runes :: "str list" where
  "space_runes =
     map (\<lambda>b. [char_of (b::nat)]) [9, 10, 11, 12, 13, 32] @
     map (map (\<lambda>b::nat. char_of b))
       ([[0xC2, 0x85], [0xC2, 0xA0], [0xE1, 0x9A, 0x80]] @
        map (\<lambda>b. [0xE2, 0x80, b]) [0x80, 0x81, 0x82, 0x83, 0x84, 0x85, 0x86, 0x87, 0x88, 0x89,
          0x8A, 0xA8, 0xA9, 0xAF] @
        [[0xE2, 0x81, 0x9F], [0xE3, 0x80, 0x80]])"

fun drop_first_of :: "str list \<Rightarrow> str \<Rightarrow> str option" where
  "drop_first_of [] s = None"
| "drop_first_of (r # rs) s =
     (if r \<noteq> [] \<and> prefix r s then Some (drop (length r) s) else drop_first_of rs s)"

lemma drop_first_of_shorter: "drop_first_of rs s = Some t \<Longrightarrow> length t < length s"
  by (induction rs) (auto split: if_splits simp: prefix_def)

function trim_left_of :: "str list \<Rightarrow> str \<Rightarrow> str" where
  "trim_left_of rs s = (case drop_first_of rs s of None \<Rightarrow> s | Some t \<Rightarrow> trim_left_of rs t)"
  by pat_completeness auto
termination
  by (relation "measure (\<lambda>(rs, s). length s)") (auto dest: drop_first_of_shorter)

declare trim_left_of.simps [simp del]

definition trim_space :: "str \<Rightarrow> str" where
  "trim_space s = rev (trim_left_of (map rev space_runes) (rev (trim_left_of space_runes s)))"

text \<open>A string whose first and last bytes are printable ASCII is not changed.\<close>

definition graphic :: "char \<Rightarrow> bool" where
  "graphic c = (32 < (of_char c :: nat) \<and> (of_char c :: nat) < 127)"

lemma drop_first_of_None: "\<forall>r\<in>set rs. r = [] \<or> \<not> prefix r s \<Longrightarrow> drop_first_of rs s = None"
  by (induction rs) auto

lemma space_runes_hd: "r \<in> set space_runes \<Longrightarrow> r \<noteq> [] \<and> \<not> graphic (hd r)"
  by (auto simp: space_runes_def graphic_def of_char_of)

lemma space_runes_last: "r \<in> set space_runes \<Longrightarrow> r \<noteq> [] \<and> \<not> graphic (last r)"
  by (auto simp: space_runes_def graphic_def of_char_of)

lemma trim_left_graphic:
  assumes "\<forall>r\<in>set rs. r \<noteq> [] \<and> \<not> graphic (hd r)" and "s = [] \<or> graphic (hd s)"
  shows "trim_left_of rs s = s"
proof -
  have "\<not> prefix r s" if "r \<in> set rs" for r
    using assms that by (cases r; cases s) auto
  then have "drop_first_of rs s = None"
    by (intro drop_first_of_None) auto
  then show ?thesis by (subst trim_left_of.simps) simp
qed

lemma trim_space_graphic [string_simps]:
  assumes "s = [] \<or> (graphic (hd s) \<and> graphic (last s))"
  shows "trim_space s = s"
proof -
  have 1: "trim_left_of space_runes s = s"
    using assms space_runes_hd by (intro trim_left_graphic) auto
  have "\<forall>r\<in>set (map rev space_runes). r \<noteq> [] \<and> \<not> graphic (hd r)"
    using space_runes_last by (auto simp: hd_rev)
  then have "trim_left_of (map rev space_runes) (rev s) = rev s"
    using assms by (intro trim_left_graphic) (auto simp: hd_rev)
  then show ?thesis by (simp add: trim_space_def 1)
qed

lemma trim_space_all_graphic: "\<forall>c\<in>set s. graphic c \<Longrightarrow> trim_space s = s"
  by (cases "s = []") (auto intro: trim_space_graphic)

text \<open>
  \<open>strings.ToLower\<close>.  Letters outside ASCII become letters outside ASCII but for two:
  U+0130 becomes \<open>i\<close> and U+212A becomes \<open>k\<close>.  The model keeps the other non-ASCII bytes
  as they are: the sources compare the result with ASCII patterns only.
\<close>

definition lower_char :: "char \<Rightarrow> char" where
  "lower_char c = (let n = of_char c :: nat in
     if 65 \<le> n \<and> n \<le> 90 then char_of (n + 32) else c)"

function to_lower :: "str \<Rightarrow> str" where
  "to_lower s =
     (if s = [] then []
      else if prefix [char_of (0xC4::nat), char_of (0xB0::nat)] s
        then CHR ''i'' # to_lower (drop 2 s)
      else if prefix [char_of (0xE2::nat), char_of (0x84::nat), char_of (0xAA::nat)] s
        then CHR ''k'' # to_lower (drop 3 s)
      else lower_char (hd s) # to_lower (tl s))"
  by pat_completeness auto
termination
  by (relation "measure length") (auto simp: prefix_def)

declare to_lower.simps [simp del]

lemma to_lower_Nil [simp]: "to_lower [] = []"
  by (simp add: to_lower.simps)

lemma to_lower_ascii:
  assumes "(of_char c :: nat) < 128"
  shows "to_lower (c # s) = lower_char c # to_lower s"
proof -
  have "c \<noteq> char_of (0xC4::nat)" "c \<noteq> char_of (0xE2::nat)"
    using assms by (auto simp: of_char_of)
  then show ?thesis by (subst to_lower.simps) simp
qed

text \<open>Decimal numbers, as \<open>%d\<close> prints them.\<close>

function show_digits :: "int \<Rightarrow> str" where
  "show_digits n = (if n < 10 then [char_of (48 + n)]
                    else show_digits (n div 10) @ [char_of (48 + n mod 10)])"
  by pat_completeness auto
termination
  by (relation "measure nat") auto

declare show_digits.simps [simp del]

definition show_int :: "int \<Rightarrow> str" where
  "show_int i = (if i < 0 then ''-'' @ show_digits (- i) else show_digits i)"

definition show_nat :: "nat \<Rightarrow> str" where
  "show_nat n = show_int (int n)"

text \<open>\<open>fmt.Sprintf("%v", keys)\<close> of a \<open>[]string\<close>.\<close>

definition show_strs :: "str list \<Rightarrow> str" where
  "show_strs xs = ''['' @ join_with '' '' xs @ '']''"

section \<open>Errors\<close>

text \<open>
  \<open>Errorf\<close> is an error made by \<open>fmt.Errorf\<close> without \<open>%w\<close>; \<open>Wrapf p e\<close> is
  \<open>fmt.Errorf("p%w", e)\<close>: in all the sources \<open>%w\<close> ends the format.  \<open>ApiError\<close> is a
  \<open>StatusError\<close> of the API machinery with its reason, \<open>NetError\<close> a \<open>net.Error\<close> with its
  \<open>Timeout()\<close>.
\<close>

datatype api_reason = NotFound | Conflict | ServerTimeout | Timeout | ServiceUnavailable
  | InternalError | TooManyRequests | BadRequest | Invalid | Forbidden | Unauthorized
  | OtherReason

datatype goerr = Errorf str | Wrapf str goerr | ApiError api_reason str | NetError bool str

fun err_text :: "goerr \<Rightarrow> str" where
  "err_text (Errorf s) = s"
| "err_text (Wrapf p e) = p @ err_text e"
| "err_text (ApiError r s) = s"
| "err_text (NetError t s) = s"

text \<open>\<open>apierrors.ReasonForError\<close> unwraps (\<open>errors.As\<close>).\<close>

fun err_reason :: "goerr \<Rightarrow> api_reason option" where
  "err_reason (Errorf s) = None"
| "err_reason (Wrapf p e) = err_reason e"
| "err_reason (ApiError r s) = Some r"
| "err_reason (NetError t s) = None"

definition is_reason :: "api_reason \<Rightarrow> goerr \<Rightarrow> bool" where
  "is_reason r e = (err_reason e = Some r)"

lemma is_reason_simps [simp, err_simps]:
  "is_reason r (Errorf s) = False"
  "is_reason r (Wrapf p e) = is_reason r e"
  "is_reason r (ApiError r' s) = (r = r')"
  "is_reason r (NetError t s) = False"
  by (auto simp: is_reason_def)

section \<open>Panics\<close>

text \<open>A call that can dereference a nil pointer returns, or panics with a message.\<close>

datatype 'a may_panic = Ret 'a | Panic str

definition nil_deref :: str where
  "nil_deref = ''runtime error: invalid memory address or nil pointer dereference''"

definition deref :: "'a option \<Rightarrow> ('a \<Rightarrow> 'b may_panic) \<Rightarrow> 'b may_panic" where
  "deref p f = (case p of None \<Rightarrow> Panic nil_deref | Some x \<Rightarrow> f x)"

lemma deref_simps [simp]: "deref None f = Panic nil_deref" "deref (Some x) f = f x"
  by (simp_all add: deref_def)

lemma deref_Ret [simp]: "deref p f = Ret y \<longleftrightarrow> (\<exists>x. p = Some x \<and> f x = Ret y)"
  by (cases p) auto

section \<open>Time\<close>

text \<open>
  A \<open>time.Time\<close> is its nanoseconds since the Unix epoch, a \<open>time.Duration\<close> its
  nanoseconds.  Years are far from the bounds of \<open>int64\<close>, so both are \<open>int\<close>.
\<close>

type_synonym gotime = int
type_synonym duration = int

definition time_second :: duration where "time_second = 1000000000"
definition time_millisecond :: duration where "time_millisecond = 1000000"
definition time_minute :: duration where "time_minute = 60 * time_second"
definition time_hour :: duration where "time_hour = 60 * time_minute"

lemmas time_consts = time_second_def time_millisecond_def time_minute_def time_hour_def

end
