(* ===== verification/Rule_Types.thy ===== *)
theory Rule_Types
  imports Prelude
begin

text \<open>
  The custom resource of \<open>api/v1/annotationschedulerule_types.go\<close>, with the parts of
  \<open>metav1\<close> that the sources read: object metadata, label selectors and conditions.
  Pointers to times are options; \<open>int32\<close> and \<open>int64\<close> fields are words.
\<close>

type_synonym int32 = "32 word"
type_synonym int64 = "64 word"

section \<open>Specification\<close>

record schedule_config =
  sc_Type :: str
  sc_StartTime :: "gotime option"
  sc_EndTime :: "gotime option"
  sc_CronExpression :: str
  sc_Action :: str

record annotation_operation =
  op_Key :: str
  op_Value :: str
  op_Template :: bool
  op_Action :: str
  op_Priority :: int32

record annotation_group =
  grp_Name :: str
  grp_Operations :: "annotation_operation list"
  grp_Atomic :: bool

text \<open>
  A label selector: equality requirements, and expressions of a key, an operator and values.
  Turning it into a \<open>labels.Selector\<close> is library code (a parameter where it is used).
\<close>

record label_selector =
  MatchLabels :: "(str, str) gomap"
  MatchExpressions :: "(str \<times> str \<times> str list) list"

record rule_spec =
  spec_Schedule :: schedule_config
  spec_Selector :: label_selector
  spec_Annotations :: "(str, str) gomap"
  spec_AnnotationGroups :: "annotation_group list"
  spec_TargetResources :: "str list"
  spec_TemplateVariables :: "(str, str) gomap"
  spec_ConflictResolution :: str

section \<open>Status\<close>

datatype cond_status = ConditionTrue | ConditionFalse | ConditionUnknown

record condition =
  cond_Type :: str
  cond_Status :: cond_status
  cond_Reason :: str
  cond_Message :: str
  cond_LastTransitionTime :: gotime

record rule_status =
  st_LastExecutionTime :: "gotime option"
  st_NextExecutionTime :: "gotime option"
  st_Phase :: str
  st_Conditions :: "condition list"
  st_AffectedResources :: int32
  st_ExecutionCount :: int64
  st_SuccessfulExecutions :: int64
  st_FailedExecutions :: int64
  st_LastError :: str
  st_LastErrorTime :: "gotime option"

section \<open>The rule\<close>

record rule =
  rule_Name :: str
  rule_Namespace :: str
  rule_DeletionTimestamp :: "gotime option"
  rule_Finalizers :: "str list"
  rule_Spec :: rule_spec
  rule_Status :: rule_status

text \<open>\<open>types.NamespacedName.String()\<close>.\<close>

type_synonym nsname = "str \<times> str"

definition nsname_string :: "nsname \<Rightarrow> str" where
  "nsname_string n = fst n @ ''/'' @ snd n"

definition getRuleID :: "rule \<Rightarrow> str" where
  "getRuleID r = nsname_string (rule_Namespace r, rule_Name r)"

text \<open>Names and namespaces of Kubernetes objects hold no slash, so an ID names one rule.\<close>

lemma nsname_string_inject:
  assumes "CHR ''/'' \<notin> set (fst a)" and "CHR ''/'' \<notin> set (fst b)"
  shows "nsname_string a = nsname_string b \<longleftrightarrow> a = b"
  using assms
  by (cases a; cases b)
     (metis append_Cons append_Nil fst_conv nsname_string_def snd_conv split_on_append list.inject
        join_split_on)

end
