(* ===== verification/Go_Time.thy ===== *)
theory Go_Time
  imports Prelude
begin

text \<open>
  What the sources use of the package \<open>time\<close>: the civil date of an instant and the layouts
  RFC 3339, date, time of day and \<open>Time.String\<close>, in the zone UTC (the container's local
  zone), for the years 0 to 9999.
\<close>

section \<open>Civil dates\<close>

record civil =
  cv_year :: int
  cv_month :: int
  cv_day :: int

text \<open>Days are counted from 1 March of the year 0 in eras of 400 years (146097 days).\<close>

definition year_of_era :: "int \<Rightarrow> int" where
  "year_of_era doe = (doe - doe div 1460 + doe div 36524 - doe div 146096) div 365"

definition civil_of_days :: "int \<Rightarrow> civil" where
  "civil_of_days days =
     (let z = days + 719468; era = z div 146097; doe = z mod 146097;
          yoe = year_of_era doe;
          doy = doe - (365 * yoe + yoe div 4 - yoe div 100);
          mp = (5 * doy + 2) div 153;
          d = doy - (153 * mp + 2) div 5 + 1;
          m = (if mp < 10 then mp + 3 else mp - 9)
      in \<lparr>cv_year = yoe + era * 400 + (if m \<le> 2 then 1 else 0), cv_month = m, cv_day = d\<rparr>)"

definition days_of_civil :: "civil \<Rightarrow> int" where
  "days_of_civil c =
     (let y = cv_year c - (if cv_month c \<le> 2 then 1 else 0);
          era = y div 400; yoe = y mod 400;
          mp = (if cv_month c > 2 then cv_month c - 3 else cv_month c + 9);
          doy = (153 * mp + 2) div 5 + cv_day c - 1;
          doe = 365 * yoe + yoe div 4 - yoe div 100 + doy
      in era * 146097 + doe - 719468)"

section \<open>Layouts\<close>

definition pad :: "nat \<Rightarrow> int \<Rightarrow> str" where
  "pad n i = (let s = show_int i in replicate (n - length s) (CHR ''0'') @ s)"

definition format_date :: "gotime \<Rightarrow> str" where
  "format_date t = (let c = civil_of_days (t div (86400 * time_second))
     in pad 4 (cv_year c) @ ''-'' @ pad 2 (cv_month c) @ ''-'' @ pad 2 (cv_day c))"

definition format_clock :: "gotime \<Rightarrow> str" where
  "format_clock t = (let s = t div time_second mod 86400
     in pad 2 (s div 3600) @ '':'' @ pad 2 (s div 60 mod 60) @ '':'' @ pad 2 (s mod 60))"

definition format_RFC3339 :: "gotime \<Rightarrow> str" where
  "format_RFC3339 t = format_date t @ ''T'' @ format_clock t @ ''Z''"

definition format_fraction :: "gotime \<Rightarrow> str" where
  "format_fraction t = (let ns = t mod time_second in
     if ns = 0 then []
     else ''.'' @ rev (dropWhile (\<lambda>c. c = CHR ''0'') (rev (pad 9 ns))))"

definition show_time :: "gotime \<Rightarrow> str" where
  "show_time t = format_date t @ '' '' @ format_clock t @ format_fraction t @ '' +0000 UTC''"

definition time_unix :: "gotime \<Rightarrow> int" where
  "time_unix t = t div time_second"

text \<open>
  The API server keeps times with a resolution of one second, so an instant written to a
  status field is read back with its fraction cut off.
\<close>

definition truncate_second :: "gotime \<Rightarrow> gotime" where
  "truncate_second t = t div time_second * time_second"

lemma truncate_second_idem [simp]: "truncate_second (truncate_second t) = truncate_second t"
  by (simp add: truncate_second_def time_second_def)

lemma format_RFC3339_example: "format_RFC3339 1739584800000000000 = ''2025-02-15T02:00:00Z''"
  by code_simp

lemma show_time_example:
  "show_time (1739584800500000000 + time_minute) = ''2025-02-15 02:01:00.5 +0000 UTC''"
  by code_simp

end
