(* ===== verification/Schedule_Parser.thy ===== *)
theory Schedule_Parser
  imports Rule_Types Go_Time
begin

text \<open>
  \<open>internal/scheduler/parser.go\<close>: validation of a schedule, its next execution, its phase
  and the action an execution takes.

  The cron library (\<open>robfig/cron\<close>) is not part of the sources.  It is the parameter
  \<open>cron\<close>: \<open>Parse\<close> of an expression is an error or the \<open>Next\<close> of the schedule.  Every
  reading of \<open>time.Now()\<close> is an argument \<open>now\<close>.
\<close>

section \<open>Validation\<close>

type_synonym cron_parser = "str \<Rightarrow> goerr + (gotime \<Rightarrow> gotime)"

definition ScheduleTypeDateTime :: str where "ScheduleTypeDateTime = ''datetime''"
definition ScheduleTypeCron :: str where "ScheduleTypeCron = ''cron''"
definition PhaseActive :: str where "PhaseActive = ''active''"

lemmas schedule_consts = ScheduleTypeDateTime_def ScheduleTypeCron_def PhaseActive_def

definition is_set :: "'a option \<Rightarrow> bool" where
  "is_set p = (p \<noteq> None)"

lemma is_set_simps [simp]: "is_set None = False" "is_set (Some x) = True"
  by (simp_all add: is_set_def)

definition validateDateTimeSchedule :: "schedule_config \<Rightarrow> goerr + unit" where
  "validateDateTimeSchedule s =
     (case sc_StartTime s of
        None \<Rightarrow> Inl (Errorf ''startTime is required for datetime schedule type'')
      | Some startTime \<Rightarrow>
          and_then (case sc_EndTime s of
             None \<Rightarrow> Inr ()
           | Some endTime \<Rightarrow> check_that (endTime > startTime)
               (Errorf (''endTime ('' @ show_time endTime @ '') must be after startTime ('' @
                        show_time startTime @ '')'')))
         (and_then (check_that (sc_CronExpression s = [])
               (Errorf ''cronExpression should not be set for datetime schedule type''))
             (check_that (sc_Action s = [])
               (Errorf ''action should not be set for datetime schedule type''))))"

definition validateCronSchedule :: "cron_parser \<Rightarrow> schedule_config \<Rightarrow> goerr + unit" where
  "validateCronSchedule cron s =
     and_then (check_that (sc_CronExpression s \<noteq> [])
        (Errorf ''cronExpression is required for cron schedule type''))
    (and_then (check_that (sc_Action s \<noteq> []) (Errorf ''action is required for cron schedule type''))
    (and_then (check_that (\<not> (sc_Action s \<noteq> ''apply'' \<and> sc_Action s \<noteq> ''remove''))
        (Errorf (''action must be '' @ [CHR 0x27] @ ''apply'' @ [CHR 0x27] @ '' or '' @ [CHR 0x27] @
           ''remove'' @ [CHR 0x27] @ '', got: '' @ sc_Action s)))
    (and_then (case cron (sc_CronExpression s) of
          Inl e \<Rightarrow> Inl (Wrapf (''invalid cron expression '' @ [CHR 0x27] @ sc_CronExpression s @
                     [CHR 0x27] @ '': '') e)
        | Inr _ \<Rightarrow> Inr ())
    (and_then (check_that (\<not> is_set (sc_StartTime s))
        (Errorf ''startTime should not be set for cron schedule type''))
      (check_that (\<not> is_set (sc_EndTime s))
        (Errorf ''endTime should not be set for cron schedule type''))))))"

definition invalid_type_error :: "str \<Rightarrow> goerr" where
  "invalid_type_error t = Errorf (''invalid schedule type: '' @ t @ '', must be '' @ [CHR 0x27] @
     ''datetime'' @ [CHR 0x27] @ '' or '' @ [CHR 0x27] @ ''cron'' @ [CHR 0x27])"

definition ValidateSchedule :: "cron_parser \<Rightarrow> schedule_config \<Rightarrow> goerr + unit" where
  "ValidateSchedule cron s =
     (if sc_Type s = ScheduleTypeDateTime then validateDateTimeSchedule s
      else if sc_Type s = ScheduleTypeCron then validateCronSchedule cron s
      else Inl (invalid_type_error (sc_Type s)))"

definition validateDateTimeScheduleForCreation ::
  "gotime \<Rightarrow> schedule_config \<Rightarrow> (goerr + unit) may_panic" where
  "validateDateTimeScheduleForCreation now s =
     (case validateDateTimeSchedule s of
        Inl e \<Rightarrow> Ret (Inl e)
      | Inr _ \<Rightarrow> deref (sc_StartTime s) (\<lambda>startTime.
          Ret (check_that (\<not> startTime < now - time_minute)
                 (Errorf (''startTime cannot be in the past: '' @ show_time startTime)))))"

definition ValidateScheduleForCreation ::
  "cron_parser \<Rightarrow> gotime \<Rightarrow> schedule_config \<Rightarrow> (goerr + unit) may_panic" where
  "ValidateScheduleForCreation cron now s =
     (if sc_Type s = ScheduleTypeDateTime then validateDateTimeScheduleForCreation now s
      else if sc_Type s = ScheduleTypeCron then Ret (validateCronSchedule cron s)
      else Ret (Inl (invalid_type_error (sc_Type s))))"

section \<open>The next execution\<close>

definition calculateDateTimeNextExecution ::
  "gotime \<Rightarrow> schedule_config \<Rightarrow> gotime option \<Rightarrow> gotime option may_panic" where
  "calculateDateTimeNextExecution now s lastExecution =
     deref (sc_StartTime s) (\<lambda>startTime.
       if lastExecution = None \<and> startTime > now then Ret (Some startTime)
       else case sc_EndTime s of
         None \<Rightarrow> Ret None
       | Some endTime \<Rightarrow>
           if lastExecution = Some startTime \<and> endTime > now then Ret (Some endTime)
           else Ret None)"

definition calculateCronNextExecution ::
  "cron_parser \<Rightarrow> gotime \<Rightarrow> schedule_config \<Rightarrow> gotime option \<Rightarrow> goerr + gotime option" where
  "calculateCronNextExecution cron now s lastExecution =
     (case cron (sc_CronExpression s) of
        Inl e \<Rightarrow> Inl (Wrapf ''failed to parse cron expression: '' e)
      | Inr cronNext \<Rightarrow>
          let baseTime = (case lastExecution of Some t \<Rightarrow> t | None \<Rightarrow> now)
          in Inr (Some (cronNext baseTime)))"

definition unsupported_type_error :: "str \<Rightarrow> goerr" where
  "unsupported_type_error t = Errorf (''unsupported schedule type: '' @ t)"

definition CalculateNextExecution ::
  "cron_parser \<Rightarrow> gotime \<Rightarrow> schedule_config \<Rightarrow> gotime option \<Rightarrow> (goerr + gotime option) may_panic"
  where
  "CalculateNextExecution cron now s lastExecution =
     (case ValidateSchedule cron s of
        Inl e \<Rightarrow> Ret (Inl (Wrapf ''invalid schedule: '' e))
      | Inr _ \<Rightarrow>
          if sc_Type s = ScheduleTypeDateTime
          then (case calculateDateTimeNextExecution now s lastExecution of
                  Panic m \<Rightarrow> Panic m | Ret t \<Rightarrow> Ret (Inr t))
          else if sc_Type s = ScheduleTypeCron
          then Ret (calculateCronNextExecution cron now s lastExecution)
          else Ret (Inl (unsupported_type_error (sc_Type s))))"

section \<open>Phases\<close>

definition getDateTimePhase :: "schedule_config \<Rightarrow> gotime \<Rightarrow> str may_panic" where
  "getDateTimePhase s now =
     deref (sc_StartTime s) (\<lambda>startTime. Ret
       (if startTime > now then ''pending''
        else case sc_EndTime s of
          Some endTime \<Rightarrow>
            if endTime < now then ''completed''
            else if startTime < now \<and> endTime > now then PhaseActive
            else PhaseActive
        | None \<Rightarrow> if startTime < now then ''completed'' else PhaseActive))"

definition getCronPhase :: str where
  "getCronPhase = PhaseActive"

definition GetSchedulePhase ::
  "cron_parser \<Rightarrow> gotime \<Rightarrow> schedule_config \<Rightarrow> (str \<times> goerr option) may_panic" where
  "GetSchedulePhase cron now s =
     (case ValidateSchedule cron s of
        Inl e \<Rightarrow> Ret (''failed'', Some e)
      | Inr _ \<Rightarrow>
          if sc_Type s = ScheduleTypeDateTime
          then (case getDateTimePhase s now of Panic m \<Rightarrow> Panic m | Ret p \<Rightarrow> Ret (p, None))
          else if sc_Type s = ScheduleTypeCron then Ret (getCronPhase, None)
          else Ret (''failed'', Some (unsupported_type_error (sc_Type s))))"

text \<open>\<open>IsTimeToExecute\<close> reads the clock twice, in the calculation and after it.\<close>

definition IsTimeToExecute ::
  "cron_parser \<Rightarrow> gotime \<Rightarrow> gotime \<Rightarrow> schedule_config \<Rightarrow> gotime option \<Rightarrow> (goerr + bool) may_panic"
  where
  "IsTimeToExecute cron now1 now2 s lastExecution =
     (case CalculateNextExecution cron now1 s lastExecution of
        Panic m \<Rightarrow> Panic m
      | Ret (Inl e) \<Rightarrow> Ret (Inl e)
      | Ret (Inr None) \<Rightarrow> Ret (Inr False)
      | Ret (Inr (Some t)) \<Rightarrow> Ret (Inr (t < now2 + time_minute)))"

section \<open>Actions\<close>

definition getDateTimeAction ::
  "schedule_config \<Rightarrow> gotime option \<Rightarrow> (goerr + str) may_panic" where
  "getDateTimeAction s lastExecution =
     deref (sc_StartTime s) (\<lambda>startTime. Ret
       (case lastExecution of
          None \<Rightarrow> Inr ''apply''
        | Some t \<Rightarrow>
            if is_set (sc_EndTime s) \<and> t = startTime then Inr ''remove''
            else Inl (Errorf ''no action needed at this time'')))"

definition GetExecutionAction ::
  "schedule_config \<Rightarrow> gotime option \<Rightarrow> (goerr + str) may_panic" where
  "GetExecutionAction s lastExecution =
     (if sc_Type s = ScheduleTypeDateTime then getDateTimeAction s lastExecution
      else if sc_Type s = ScheduleTypeCron then Ret (Inr (sc_Action s))
      else Ret (Inl (unsupported_type_error (sc_Type s))))"

section \<open>Lemmas\<close>

text \<open>The schedules that validation accepts, as two shapes.\<close>

definition datetime_schedule :: "gotime \<Rightarrow> gotime option \<Rightarrow> schedule_config" where
  "datetime_schedule t e = \<lparr>sc_Type = ''datetime'', sc_StartTime = Some t, sc_EndTime = e,
     sc_CronExpression = [], sc_Action = []\<rparr>"

definition cron_schedule :: "str \<Rightarrow> str \<Rightarrow> schedule_config" where
  "cron_schedule x a = \<lparr>sc_Type = ''cron'', sc_StartTime = None, sc_EndTime = None,
     sc_CronExpression = x, sc_Action = a\<rparr>"

lemma schedule_shape_sel [simp]:
  "sc_Type (datetime_schedule t e) = ''datetime''" "sc_StartTime (datetime_schedule t e) = Some t"
  "sc_EndTime (datetime_schedule t e) = e" "sc_CronExpression (datetime_schedule t e) = []"
  "sc_Action (datetime_schedule t e) = []"
  "sc_Type (cron_schedule x a) = ''cron''" "sc_StartTime (cron_schedule x a) = None"
  "sc_EndTime (cron_schedule x a) = None" "sc_CronExpression (cron_schedule x a) = x"
  "sc_Action (cron_schedule x a) = a"
  by (simp_all add: datetime_schedule_def cron_schedule_def)

definition after_start :: "gotime \<Rightarrow> gotime option \<Rightarrow> bool" where
  "after_start t e = (case e of None \<Rightarrow> True | Some u \<Rightarrow> t < u)"

lemma validateDateTimeSchedule_ok:
  "validateDateTimeSchedule s = Inr () \<longleftrightarrow>
     (\<exists>t. sc_StartTime s = Some t \<and> after_start t (sc_EndTime s) \<and>
        sc_CronExpression s = [] \<and> sc_Action s = [])"
  by (auto simp: validateDateTimeSchedule_def after_start_def split: option.splits)

lemma validateCronSchedule_ok:
  "validateCronSchedule cron s = Inr () \<longleftrightarrow>
     sc_CronExpression s \<noteq> [] \<and> sc_Action s \<in> {''apply'', ''remove''} \<and>
     is_ok (cron (sc_CronExpression s)) \<and> sc_StartTime s = None \<and> sc_EndTime s = None"
  by (auto simp: validateCronSchedule_def is_set_def split: sum.splits)

lemma ValidateSchedule_cases:
  assumes "ValidateSchedule cron s = Inr ()"
  obtains (datetime) t e where "s = datetime_schedule t e" "after_start t e"
  | (cron) x a n where "s = cron_schedule x a" "x \<noteq> []" "a = ''apply'' \<or> a = ''remove''"
      "cron x = Inr n"
proof (cases "sc_Type s = ''datetime''")
  case True
  then obtain t where "sc_StartTime s = Some t" "after_start t (sc_EndTime s)"
    "sc_CronExpression s = []" "sc_Action s = []"
    using assms by (auto simp: ValidateSchedule_def validateDateTimeSchedule_ok schedule_consts)
  with True have "s = datetime_schedule t (sc_EndTime s)"
    by (cases s) (simp add: datetime_schedule_def)
  with \<open>after_start t (sc_EndTime s)\<close> show thesis by (rule datetime[rotated]) 
next
  case False
  then have "sc_Type s = ''cron''" "validateCronSchedule cron s = Inr ()"
    using assms by (auto simp: ValidateSchedule_def schedule_consts split: if_splits)
  moreover from this obtain n where "cron (sc_CronExpression s) = Inr n"
    by (cases "cron (sc_CronExpression s)") (auto simp: validateCronSchedule_ok)
  moreover have "s = cron_schedule (sc_CronExpression s) (sc_Action s)"
    using calculation by (cases s) (auto simp: validateCronSchedule_ok cron_schedule_def)
  ultimately show thesis
    using cron[of "sc_CronExpression s" "sc_Action s" n] by (auto simp: validateCronSchedule_ok)
qed

lemma ValidateSchedule_datetime [simp]:
  "ValidateSchedule cron (datetime_schedule t e) = Inr () \<longleftrightarrow> after_start t e"
  by (simp add: ValidateSchedule_def validateDateTimeSchedule_ok schedule_consts)

lemma ValidateSchedule_cron [simp]:
  "ValidateSchedule cron (cron_schedule x a) = Inr () \<longleftrightarrow>
     x \<noteq> [] \<and> (a = ''apply'' \<or> a = ''remove'') \<and> is_ok (cron x)"
  by (auto simp: ValidateSchedule_def validateCronSchedule_ok schedule_consts)

lemma ValidateSchedule_shapes:
  "after_start t e \<Longrightarrow> ValidateSchedule cron (datetime_schedule t e) = Inr ()"
  "x \<noteq> [] \<Longrightarrow> a = ''apply'' \<or> a = ''remove'' \<Longrightarrow> cron x = Inr n \<Longrightarrow>
     ValidateSchedule cron (cron_schedule x a) = Inr ()"
  by simp_all

lemma GetSchedulePhase_datetime:
  "after_start t e \<Longrightarrow> GetSchedulePhase cron now (datetime_schedule t e) = Ret
     (if now < t then ''pending''
      else case e of Some u \<Rightarrow> if u < now then ''completed'' else ''active''
         | None \<Rightarrow> if t < now then ''completed'' else ''active'', None)"
  by (simp add: GetSchedulePhase_def ValidateSchedule_shapes getDateTimePhase_def schedule_consts
      split: option.splits)

lemma GetSchedulePhase_cron:
  "x \<noteq> [] \<Longrightarrow> a = ''apply'' \<or> a = ''remove'' \<Longrightarrow> cron x = Inr n \<Longrightarrow>
   GetSchedulePhase cron now (cron_schedule x a) = Ret (''active'', None)"
  by (simp add: GetSchedulePhase_def ValidateSchedule_shapes getCronPhase_def schedule_consts)

lemma calculateDateTime_shape:
  "calculateDateTimeNextExecution now (datetime_schedule t e) l = Ret
     (if l = None \<and> now < t then Some t
      else case e of None \<Rightarrow> None | Some u \<Rightarrow> if l = Some t \<and> now < u then Some u else None)"
  by (auto simp: calculateDateTimeNextExecution_def split: option.splits)

lemma CalculateNextExecution_datetime:
  assumes "after_start t e"
  shows "CalculateNextExecution cron now (datetime_schedule t e) l = Ret (Inr
     (if l = None \<and> now < t then Some t
      else case e of None \<Rightarrow> None | Some u \<Rightarrow> if l = Some t \<and> now < u then Some u else None))"
  using assms ValidateSchedule_datetime[of cron t e]
  by (simp add: CalculateNextExecution_def calculateDateTime_shape schedule_consts
      del: ValidateSchedule_datetime)

lemma CalculateNextExecution_cron:
  assumes "x \<noteq> []" and "a = ''apply'' \<or> a = ''remove''" and "cron x = Inr n"
  shows "CalculateNextExecution cron now (cron_schedule x a) l = Ret (Inr
     (Some (n (case l of Some t \<Rightarrow> t | None \<Rightarrow> now))))"
  using assms ValidateSchedule_cron[of cron x a]
  by (simp add: CalculateNextExecution_def calculateCronNextExecution_def schedule_consts
      del: ValidateSchedule_cron)

lemma ValidateSchedule_ok_iff:
  "ValidateSchedule cron s = Inr () \<longleftrightarrow>
     (\<exists>t e. s = datetime_schedule t e \<and> after_start t e) \<or>
     (\<exists>x a. s = cron_schedule x a \<and> x \<noteq> [] \<and> (a = ''apply'' \<or> a = ''remove'') \<and> is_ok (cron x))"
proof
  assume "ValidateSchedule cron s = Inr ()"
  then show "(\<exists>t e. s = datetime_schedule t e \<and> after_start t e) \<or>
     (\<exists>x a. s = cron_schedule x a \<and> x \<noteq> [] \<and> (a = ''apply'' \<or> a = ''remove'') \<and> is_ok (cron x))"
  proof (cases rule: ValidateSchedule_cases)
    case (cron x a n)
    then have "is_ok (cron x)" by simp
    with cron show ?thesis by blast
  qed blast
qed auto

text \<open>What an accepted schedule yields; the basis of the lemmas on the scheduler.\<close>

lemma CalculateNextExecution_cases:
  obtains (invalid) e where "ValidateSchedule cron s = Inl e"
      "CalculateNextExecution cron now s l = Ret (Inl (Wrapf ''invalid schedule: '' e))"
  | (none) "ValidateSchedule cron s = Inr ()" "CalculateNextExecution cron now s l = Ret (Inr None)"
  | (some) t a where "ValidateSchedule cron s = Inr ()"
      "CalculateNextExecution cron now s l = Ret (Inr (Some t))"
      "GetExecutionAction s l = Ret (Inr a)" "a = ''apply'' \<or> a = ''remove''"
proof (cases "ValidateSchedule cron s")
  case (Inl e)
  then show thesis by (intro invalid[of e]) (simp_all add: CalculateNextExecution_def)
next
  case (Inr u)
  then have ok: "ValidateSchedule cron s = Inr ()" by simp
  then show thesis
  proof (cases rule: ValidateSchedule_cases)
    case (datetime t e)
    let ?n = "if l = None \<and> now < t then Some t
      else case e of None \<Rightarrow> None | Some u \<Rightarrow> if l = Some t \<and> now < u then Some u else None"
    have c: "CalculateNextExecution cron now s l = Ret (Inr ?n)"
      using datetime by (simp add: CalculateNextExecution_datetime)
    show thesis
    proof (cases ?n)
      case None
      then show thesis using c ok none by simp
    next
      case (Some u)
      then have "\<exists>a. GetExecutionAction s l = Ret (Inr a) \<and> (a = ''apply'' \<or> a = ''remove'')"
        using datetime(1)
        by (auto simp: GetExecutionAction_def getDateTimeAction_def schedule_consts
            split: option.splits if_splits)
      then obtain a where "GetExecutionAction s l = Ret (Inr a)" "a = ''apply'' \<or> a = ''remove''"
        by blast
      moreover have "CalculateNextExecution cron now s l = Ret (Inr (Some u))"
        unfolding c Some ..
      ultimately show thesis using ok some by blast
    qed
  next
    case (cron x a n)
    then have "CalculateNextExecution cron now s l = Ret (Inr (Some (n (case l of Some t \<Rightarrow> t | None \<Rightarrow> now))))"
      "GetExecutionAction s l = Ret (Inr a)"
      by (simp_all add: CalculateNextExecution_cron GetExecutionAction_def schedule_consts)
    then show thesis using ok cron(3) some by blast
  qed
qed

section \<open>Properties\<close>

text \<open>
  C23: a schedule is accepted exactly if it is a datetime schedule with a start time, no cron
  fields and an end (if any) after the start, or a cron schedule with an expression the cron
  library parses, an action apply or remove, and no times.
\<close>

theorem accepted_schedules:
  "is_ok (ValidateSchedule cron s) \<longleftrightarrow>
     (\<exists>t e. s = datetime_schedule t e \<and> after_start t e) \<or>
     (\<exists>x a. s = cron_schedule x a \<and> x \<noteq> [] \<and> a \<in> {''apply'', ''remove''} \<and> is_ok (cron x))"
  using ValidateSchedule_ok_iff[of cron s] by (cases "ValidateSchedule cron s") auto


definition every_minute :: cron_parser where
  "every_minute x = Inr (\<lambda>t. t + time_minute)"




text \<open>
  The documented behaviour of \<open>Next\<close> of the cron library: the first activation strictly
  after its argument.
\<close>

definition cron_next_law :: "(gotime \<Rightarrow> bool) \<Rightarrow> (gotime \<Rightarrow> gotime) \<Rightarrow> bool" where
  "cron_next_law fires n \<longleftrightarrow>
     (\<forall>t. t < n t \<and> fires (n t) \<and> (\<forall>u. t < u \<and> u < n t \<longrightarrow> \<not> fires u))"

lemma cron_next_law_same:
  assumes "cron_next_law fires n" and "b \<le> t" and "t < n b"
  shows "n t = n b"
proof (rule ccontr)
  assume "n t \<noteq> n b"
  then consider "n t < n b" | "n b < n t" by linarith
  then show False
    using assms unfolding cron_next_law_def by cases (metis order_le_less_trans, metis)
qed

text \<open>
  C38: a cron schedule's next execution lies after the last one, but an execution recorded
  before the activation it served (the scheduler runs tasks up to one minute early) is followed
  by that same activation again, with the same action.
\<close>

theorem cron_early_execution_repeats:
  assumes "ValidateSchedule cron s = Inr ()" and "sc_Type s = ''cron''"
    and "cron (sc_CronExpression s) = Inr n" and "cron_next_law fires n"
    and "CalculateNextExecution cron now s (Some b) = Ret (Inr (Some e))"
  shows "b < e \<and> fires e \<and>
    (\<forall>t. b \<le> t \<and> t < e \<longrightarrow>
       CalculateNextExecution cron now' s (Some t) = Ret (Inr (Some e)) \<and>
       GetExecutionAction s (Some t) = GetExecutionAction s (Some b))"
  using assms(1)
proof (cases rule: ValidateSchedule_cases)
  case (cron x a m)
  then have "m = n" using assms(3) by simp
  with cron have c: "CalculateNextExecution cron i s (Some t) = Ret (Inr (Some (n t)))" for i t
    by (simp add: CalculateNextExecution_cron)
  then have e: "n b = e" using assms(5) by simp
  have act: "GetExecutionAction s l = Ret (Inr a)" for l
    using cron(1) by (simp add: GetExecutionAction_def schedule_consts)
  have "b < n b" "fires (n b)"
    using assms(4) by (simp_all add: cron_next_law_def)
  moreover have "n t = e" if "b \<le> t" "t < e" for t
    using cron_next_law_same[OF assms(4), of b t] that e by simp
  ultimately show ?thesis unfolding c act e by simp
qed (use assms(2) in simp)

definition every_ten :: "gotime \<Rightarrow> gotime" where
  "every_ten t = (t div 10 + 1) * 10"

lemma every_ten_law: "cron_next_law (\<lambda>t. t mod 10 = 0) every_ten"
  unfolding cron_next_law_def every_ten_def by (auto; presburger)

theorem cron_early_execution_repeats_witness:
  "CalculateNextExecution (\<lambda>_. Inr every_ten) 0 (cron_schedule ''x'' ''apply'') (Some 29) =
     Ret (Inr (Some 30))"
proof -
  have "CalculateNextExecution (\<lambda>_. Inr every_ten) 0 (cron_schedule ''x'' ''apply'') (Some 21) =
      Ret (Inr (Some 30))"
    by (simp add: CalculateNextExecution_cron every_ten_def)
  then show ?thesis
    using cron_early_execution_repeats[of "\<lambda>_. Inr every_ten" "cron_schedule ''x'' ''apply''"
        every_ten "\<lambda>t. t mod 10 = 0" 0 21 30 0] every_ten_law
    by simp
qed

end
