(* ===== verification/Time_Scheduler.thy ===== *)
theory Time_Scheduler
  imports Schedule_Parser
begin

text \<open>
  \<open>internal/scheduler/scheduler.go\<close>: the table of scheduled tasks and the goroutines that
  run them.  The operations are functions on the record \<open>time_scheduler\<close>.  The relation
  \<open>sched_step\<close> interleaves them: a client that schedules and unschedules rules, the scheduler
  loop, the workers and a call of \<open>Stop\<close>.  The mutex \<open>s.mu\<close> is held across a step by
  \<open>Stop\<close> alone; every other critical section is one step that needs the mutex free.
\<close>

section \<open>State\<close>

record scheduled_task =
  task_RuleID :: str
  task_RuleName :: str
  task_RuleNamespace :: str
  task_Action :: str
  task_ExecuteAt :: gotime
  task_Annotations :: "(str, str) gomap"
  task_AnnotationGroups :: "annotation_group list"
  task_Selector :: label_selector
  task_TargetResources :: "str list"
  task_TemplateVariables :: "(str, str) gomap"
  task_ConflictResolution :: str

record time_scheduler =
  ts_tasks :: "(str, scheduled_task) gomap"
  ts_taskQueue :: "scheduled_task list"
  ts_stopClosed :: bool
  ts_doneClosed :: bool
  ts_started :: bool
  ts_tickInterval :: duration
  ts_maxConcurrency :: nat
  ts_semaphore :: nat

definition queue_capacity :: nat where "queue_capacity = 1000"
definition semaphore_capacity :: nat where "semaphore_capacity = 10"

definition NewTimeScheduler :: time_scheduler where
  "NewTimeScheduler = \<lparr>ts_tasks = [], ts_taskQueue = [], ts_stopClosed = False,
     ts_doneClosed = False, ts_started = False, ts_tickInterval = 30 * time_second,
     ts_maxConcurrency = 10, ts_semaphore = 0\<rparr>"

section \<open>Operations on the task table\<close>

definition mk_task :: "rule \<Rightarrow> str \<Rightarrow> gotime \<Rightarrow> scheduled_task" where
  "mk_task rule action nextExecution = \<lparr>
     task_RuleID = getRuleID rule, task_RuleName = rule_Name rule,
     task_RuleNamespace = rule_Namespace rule, task_Action = action,
     task_ExecuteAt = nextExecution,
     task_Annotations = spec_Annotations (rule_Spec rule),
     task_AnnotationGroups = spec_AnnotationGroups (rule_Spec rule),
     task_Selector = spec_Selector (rule_Spec rule),
     task_TargetResources = spec_TargetResources (rule_Spec rule),
     task_TemplateVariables = spec_TemplateVariables (rule_Spec rule),
     task_ConflictResolution = spec_ConflictResolution (rule_Spec rule)\<rparr>"

definition ScheduleRule ::
  "cron_parser \<Rightarrow> gotime \<Rightarrow> rule \<Rightarrow> time_scheduler \<Rightarrow> (goerr + unit) may_panic \<times> time_scheduler"
  where
  "ScheduleRule cron now rule s =
     (let ruleID = getRuleID rule;
          schedule = spec_Schedule (rule_Spec rule);
          lastExecution = st_LastExecutionTime (rule_Status rule)
      in case ValidateSchedule cron schedule of
        Inl e \<Rightarrow> (Ret (Inl (Wrapf (''invalid schedule for rule '' @ ruleID @ '': '') e)), s)
      | Inr _ \<Rightarrow>
        (case CalculateNextExecution cron now schedule lastExecution of
          Panic m \<Rightarrow> (Panic m, s)
        | Ret (Inl e) \<Rightarrow>
            (Ret (Inl (Wrapf (''failed to calculate next execution for rule '' @ ruleID @ '': '') e)), s)
        | Ret (Inr None) \<Rightarrow> (Ret (Inr ()), s\<lparr>ts_tasks := mdel ruleID (ts_tasks s)\<rparr>)
        | Ret (Inr (Some nextExecution)) \<Rightarrow>
            (case GetExecutionAction schedule lastExecution of
              Panic m \<Rightarrow> (Panic m, s)
            | Ret (Inl e) \<Rightarrow>
                (Ret (Inl (Wrapf (''failed to determine action for rule '' @ ruleID @ '': '') e)), s)
            | Ret (Inr action) \<Rightarrow>
                (Ret (Inr ()),
                 s\<lparr>ts_tasks := mput ruleID (mk_task rule action nextExecution) (ts_tasks s)\<rparr>))))"

definition UnscheduleRule :: "str \<Rightarrow> time_scheduler \<Rightarrow> (goerr + unit) \<times> time_scheduler" where
  "UnscheduleRule ruleID s = (Inr (), s\<lparr>ts_tasks := mdel ruleID (ts_tasks s)\<rparr>)"

definition GetNextExecutionTime :: "time_scheduler \<Rightarrow> str \<Rightarrow> goerr + gotime option" where
  "GetNextExecutionTime s ruleID =
     (case mget (ts_tasks s) ruleID of
        None \<Rightarrow> Inl (Errorf (''rule '' @ ruleID @ '' not found in scheduler''))
      | Some task \<Rightarrow> Inr (Some (task_ExecuteAt task)))"

definition GetScheduledTaskCount :: "time_scheduler \<Rightarrow> nat" where
  "GetScheduledTaskCount s = length (ts_tasks s)"

section \<open>Starting, ticking, executing\<close>

text \<open>\<open>Start\<close> marks the scheduler as started; the goroutines it spawns are in \<open>sched_sys\<close>.\<close>

definition Start :: "time_scheduler \<Rightarrow> (goerr + unit) \<times> time_scheduler" where
  "Start s = (if ts_started s then (Inl (Errorf ''scheduler is already started''), s)
              else (Inr (), s\<lparr>ts_started := True\<rparr>))"

text \<open>The tasks within one minute of their time, in the order the map is visited.\<close>

definition ready_tasks :: "gotime \<Rightarrow> time_scheduler \<Rightarrow> scheduled_task list" where
  "ready_tasks now s =
     filter (\<lambda>task. task_ExecuteAt task < now + time_minute) (map snd (ts_tasks s))"

text \<open>The \<open>select\<close> with a default: a full queue drops the task.\<close>

definition queue_task :: "scheduled_task \<Rightarrow> time_scheduler \<Rightarrow> time_scheduler" where
  "queue_task task s =
     (if length (ts_taskQueue s) < queue_capacity
      then s\<lparr>ts_taskQueue := ts_taskQueue s @ [task]\<rparr> else s)"

definition checkAndQueueTasks :: "gotime \<Rightarrow> time_scheduler \<Rightarrow> time_scheduler" where
  "checkAndQueueTasks now s = fold queue_task (ready_tasks now s) s"

text \<open>
  \<open>executeTaskWithSemaphore\<close>: the semaphore is taken, the executor runs on the world
  \<open>'w\<close>, then the task of the rule is deleted whatever the outcome, and the semaphore is given
  back.  The two halves around the executor are steps of their own in \<open>sched_step\<close>.
\<close>

definition acquire_semaphore :: "time_scheduler \<Rightarrow> time_scheduler" where
  "acquire_semaphore s = s\<lparr>ts_semaphore := ts_semaphore s + 1\<rparr>"

definition finish_task :: "scheduled_task \<Rightarrow> time_scheduler \<Rightarrow> time_scheduler" where
  "finish_task task s = s\<lparr>ts_tasks := mdel (task_RuleID task) (ts_tasks s),
     ts_semaphore := ts_semaphore s - 1\<rparr>"

definition executeTaskWithSemaphore ::
  "(scheduled_task \<Rightarrow> 'w \<Rightarrow> (goerr + unit) \<times> 'w) \<Rightarrow> scheduled_task \<Rightarrow>
   time_scheduler \<times> 'w \<Rightarrow> time_scheduler \<times> 'w" where
  "executeTaskWithSemaphore ExecuteTask task sw =
     (let s1 = acquire_semaphore (fst sw); (_, w1) = ExecuteTask task (snd sw)
      in (finish_task task s1, w1))"

section \<open>The goroutines\<close>

datatype loop_pc = LoopSelect | LoopTick | LoopQueue "scheduled_task list" | LoopDone

datatype worker_pc = WorkerSelect | WorkerAcquire scheduled_task | WorkerExec scheduled_task
  | WorkerDelete scheduled_task | WorkerStopped

datatype stop_pc = NoStop | StopWaiting | Stopped

record sched_sys =
  sys_sched :: time_scheduler
  sys_loop :: loop_pc
  sys_workers :: "nat \<Rightarrow> worker_pc"
  sys_stop :: stop_pc
  sys_ctxDone :: bool

definition told_to_stop :: "sched_sys \<Rightarrow> bool" where
  "told_to_stop y = (sys_ctxDone y \<or> ts_stopClosed (sys_sched y))"

definition mutex_free :: "sched_sys \<Rightarrow> bool" where
  "mutex_free y = (sys_stop y \<noteq> StopWaiting)"

text \<open>The system after \<open>NewTimeScheduler\<close> and \<open>Start\<close>.\<close>

definition started_sys :: sched_sys where
  "started_sys = \<lparr>sys_sched = snd (Start NewTimeScheduler), sys_loop = LoopSelect,
     sys_workers = (\<lambda>_. WorkerSelect), sys_stop = NoStop,
     sys_ctxDone = False\<rparr>"

abbreviation upd_sched :: "(time_scheduler \<Rightarrow> time_scheduler) \<Rightarrow> sched_sys \<Rightarrow> sched_sys" where
  "upd_sched f y \<equiv> y\<lparr>sys_sched := f (sys_sched y)\<rparr>"

abbreviation set_worker :: "nat \<Rightarrow> worker_pc \<Rightarrow> sched_sys \<Rightarrow> sched_sys" where
  "set_worker i p y \<equiv> y\<lparr>sys_workers := (sys_workers y)(i := p)\<rparr>"

text \<open>
  What the goroutines of the scheduler do by themselves: the loop, the workers up to the call of
  the executor and after its return, the end of the context, and \<open>Stop\<close>.
\<close>

inductive routine_step :: "sched_sys \<Rightarrow> sched_sys \<Rightarrow> bool" where
  loop_stop: "sys_loop y = LoopSelect \<Longrightarrow> told_to_stop y \<Longrightarrow>
    routine_step y (upd_sched (\<lambda>s. s\<lparr>ts_doneClosed := True\<rparr>) (y\<lparr>sys_loop := LoopDone\<rparr>))"
| loop_tick: "sys_loop y = LoopSelect \<Longrightarrow> routine_step y (y\<lparr>sys_loop := LoopTick\<rparr>)"
| loop_collect: "sys_loop y = LoopTick \<Longrightarrow> mutex_free y \<Longrightarrow>
    routine_step y (y\<lparr>sys_loop := LoopQueue (ready_tasks now (sys_sched y))\<rparr>)"
| loop_queue: "sys_loop y = LoopQueue (t # ts) \<Longrightarrow>
    routine_step y (upd_sched (queue_task t) (y\<lparr>sys_loop := LoopQueue ts\<rparr>))"
| loop_next: "sys_loop y = LoopQueue [] \<Longrightarrow> routine_step y (y\<lparr>sys_loop := LoopSelect\<rparr>)"
| worker_take: "i < ts_maxConcurrency (sys_sched y) \<Longrightarrow> sys_workers y i = WorkerSelect \<Longrightarrow>
    ts_taskQueue (sys_sched y) = t # q \<Longrightarrow>
    routine_step y (set_worker i (WorkerAcquire t) (upd_sched (\<lambda>s. s\<lparr>ts_taskQueue := q\<rparr>) y))"
| worker_stop: "i < ts_maxConcurrency (sys_sched y) \<Longrightarrow> sys_workers y i = WorkerSelect \<Longrightarrow>
    told_to_stop y \<Longrightarrow> routine_step y (set_worker i WorkerStopped y)"
| worker_acquire: "sys_workers y i = WorkerAcquire t \<Longrightarrow>
    ts_semaphore (sys_sched y) < semaphore_capacity \<Longrightarrow>
    routine_step y (set_worker i (WorkerExec t) (upd_sched acquire_semaphore y))"
| worker_give_up: "sys_workers y i = WorkerAcquire t \<Longrightarrow> told_to_stop y \<Longrightarrow>
    routine_step y (set_worker i WorkerSelect y)"
| worker_delete: "sys_workers y i = WorkerDelete t \<Longrightarrow> mutex_free y \<Longrightarrow>
    routine_step y (set_worker i WorkerSelect (upd_sched (finish_task t) y))"
| cancel_context: "routine_step y (y\<lparr>sys_ctxDone := True\<rparr>)"
| stop_close: "sys_stop y = NoStop \<Longrightarrow> ts_started (sys_sched y) \<Longrightarrow>
    routine_step y (upd_sched (\<lambda>s. s\<lparr>ts_stopClosed := True\<rparr>) (y\<lparr>sys_stop := StopWaiting\<rparr>))"
| stop_return: "sys_stop y = StopWaiting \<Longrightarrow> ts_doneClosed (sys_sched y) \<Longrightarrow>
    routine_step y (upd_sched (\<lambda>s. s\<lparr>ts_started := False\<rparr>) (y\<lparr>sys_stop := Stopped\<rparr>))"

text \<open>The steps of the system: also those of its clients, and the executions, here without effect.\<close>

inductive sched_step :: "cron_parser \<Rightarrow> sched_sys \<Rightarrow> sched_sys \<Rightarrow> bool" for cron where
  client_schedule: "mutex_free y \<Longrightarrow>
    sched_step cron y (upd_sched (\<lambda>s. snd (ScheduleRule cron now rule s)) y)"
| client_unschedule: "mutex_free y \<Longrightarrow>
    sched_step cron y (upd_sched (\<lambda>s. snd (UnscheduleRule ruleID s)) y)"
| worker_executed: "sys_workers y i = WorkerExec t \<Longrightarrow>
    sched_step cron y (set_worker i (WorkerDelete t) y)"
| goroutine: "routine_step y z \<Longrightarrow> sched_step cron y z"

inductive sched_reach :: "cron_parser \<Rightarrow> sched_sys \<Rightarrow> sched_sys \<Rightarrow> bool" for cron where
  reach_refl: "sched_reach cron y y"
| reach_step: "sched_reach cron x y \<Longrightarrow> sched_step cron y z \<Longrightarrow> sched_reach cron x z"

section \<open>Lemmas on the operations\<close>

lemma task_RuleID_mk_task [simp]:
  "task_RuleID (mk_task rule a t) = getRuleID rule" "task_Action (mk_task rule a t) = a"
  "task_ExecuteAt (mk_task rule a t) = t"
  by (simp_all add: mk_task_def)

lemma ScheduleRule_cases:
  obtains (invalid) e where
      "ValidateSchedule cron (spec_Schedule (rule_Spec rule)) = Inl e"
      "ScheduleRule cron now rule s =
        (Ret (Inl (Wrapf (''invalid schedule for rule '' @ getRuleID rule @ '': '') e)), s)"
  | (none) "ValidateSchedule cron (spec_Schedule (rule_Spec rule)) = Inr ()"
      "CalculateNextExecution cron now (spec_Schedule (rule_Spec rule))
         (st_LastExecutionTime (rule_Status rule)) = Ret (Inr None)"
      "ScheduleRule cron now rule s =
        (Ret (Inr ()), s\<lparr>ts_tasks := mdel (getRuleID rule) (ts_tasks s)\<rparr>)"
  | (some) t a where "ValidateSchedule cron (spec_Schedule (rule_Spec rule)) = Inr ()"
      "CalculateNextExecution cron now (spec_Schedule (rule_Spec rule))
         (st_LastExecutionTime (rule_Status rule)) = Ret (Inr (Some t))"
      "a = ''apply'' \<or> a = ''remove''"
      "ScheduleRule cron now rule s =
        (Ret (Inr ()), s\<lparr>ts_tasks := mput (getRuleID rule) (mk_task rule a t) (ts_tasks s)\<rparr>)"
proof (cases rule: CalculateNextExecution_cases[of cron "spec_Schedule (rule_Spec rule)" now
      "st_LastExecutionTime (rule_Status rule)"])
  case (invalid e)
  then show thesis by (intro that(1)[of e]) (simp_all add: ScheduleRule_def)
next
  case none
  then show thesis by (intro that(2)) (simp_all add: ScheduleRule_def)
next
  case (some t a)
  then show thesis by (intro that(3)[of t a]) (simp_all add: ScheduleRule_def)
qed

lemma queue_task_queue:
  "ts_taskQueue (queue_task t s) =
     (if length (ts_taskQueue s) < queue_capacity then ts_taskQueue s @ [t] else ts_taskQueue s)"
  "ts_tasks (queue_task t s) = ts_tasks s" "ts_semaphore (queue_task t s) = ts_semaphore s"
  "ts_maxConcurrency (queue_task t s) = ts_maxConcurrency s"
  "ts_doneClosed (queue_task t s) = ts_doneClosed s"
  "ts_stopClosed (queue_task t s) = ts_stopClosed s" "ts_started (queue_task t s) = ts_started s"
  by (simp_all add: queue_task_def)

lemma fold_queue_task:
  assumes "length (ts_taskQueue s) \<le> queue_capacity"
  shows "ts_taskQueue (fold queue_task ts s) = take queue_capacity (ts_taskQueue s @ ts) \<and>
     ts_tasks (fold queue_task ts s) = ts_tasks s"
  using assms
proof (induction ts arbitrary: s)
  case (Cons t ts)
  have "length (ts_taskQueue (queue_task t s)) \<le> queue_capacity"
    using Cons.prems by (simp add: queue_task_queue)
  from Cons.IH[OF this] Cons.prems show ?case
    by (auto simp: queue_task_queue take_Cons')
qed simp

section \<open>The interface to the controller\<close>

locale rule_scheduler =
  fixes schedule :: "'rule \<Rightarrow> 's \<Rightarrow> ('e + unit) may_panic \<times> 's"
    and unschedule :: "'id \<Rightarrow> 's \<Rightarrow> ('e + unit) \<times> 's"
    and next_time :: "'s \<Rightarrow> 'id \<Rightarrow> 'e + 't option"
    and id_of :: "'rule \<Rightarrow> 'id"
  assumes schedule_returns: "\<exists>r. fst (schedule x s) = Ret r"
    and schedule_failed: "fst (schedule x s) = Ret (Inl e) \<Longrightarrow> snd (schedule x s) = s"
    and schedule_frame: "i \<noteq> id_of x \<Longrightarrow> next_time (snd (schedule x s)) i = next_time s i"
    and unschedule_ok: "fst (unschedule i s) = Inr ()"
    and unschedule_gone: "isl (next_time (snd (unschedule i s)) i)"
    and unschedule_frame: "j \<noteq> i \<Longrightarrow> next_time (snd (unschedule i s)) j = next_time s j"
    and next_time_some: "next_time s i \<noteq> Inr None"
begin

lemma unscheduled_stays_gone:
  assumes "\<forall>x\<in>set xs. id_of x \<noteq> i"
  shows "isl (next_time (fold (\<lambda>x s. snd (schedule x s)) xs (snd (unschedule i s))) i)"
proof -
  have "next_time (fold (\<lambda>x s. snd (schedule x s)) xs u) i = next_time u i" for u
    using assms by (induction xs arbitrary: u) (auto simp: schedule_frame)
  then show ?thesis by (simp add: unschedule_gone)
qed

end

interpretation ts: rule_scheduler "ScheduleRule cron now" UnscheduleRule GetNextExecutionTime
    getRuleID for cron now
proof unfold_locales
  fix x s i e
  show "\<exists>r. fst (ScheduleRule cron now x s) = Ret r"
    by (cases rule: ScheduleRule_cases[of cron x now s]) auto
  show "fst (ScheduleRule cron now x s) = Ret (Inl e) \<Longrightarrow> snd (ScheduleRule cron now x s) = s"
    by (cases rule: ScheduleRule_cases[of cron x now s]) auto
  show "i \<noteq> getRuleID x \<Longrightarrow>
      GetNextExecutionTime (snd (ScheduleRule cron now x s)) i = GetNextExecutionTime s i"
    by (cases rule: ScheduleRule_cases[of cron x now s]) (auto simp: GetNextExecutionTime_def)
qed (auto simp: UnscheduleRule_def GetNextExecutionTime_def split: option.splits)

section \<open>Invariant of the goroutines\<close>

definition good_task :: "scheduled_task \<Rightarrow> bool" where
  "good_task t \<longleftrightarrow> (task_Action t = ''apply'' \<or> task_Action t = ''remove'') \<and>
     task_RuleID t = nsname_string (task_RuleNamespace t, task_RuleName t)"

lemma good_mk_task: "a = ''apply'' \<or> a = ''remove'' \<Longrightarrow> good_task (mk_task rule a t)"
  by (auto simp: good_task_def mk_task_def getRuleID_def)

definition table_inv :: "time_scheduler \<Rightarrow> bool" where
  "table_inv s \<longleftrightarrow> wf_map (ts_tasks s) \<and>
     (\<forall>k t. mget (ts_tasks s) k = Some t \<longrightarrow> task_RuleID t = k \<and> good_task t) \<and>
     length (ts_taskQueue s) \<le> queue_capacity \<and> (\<forall>t\<in>set (ts_taskQueue s). good_task t) \<and>
     ts_maxConcurrency s = 10"

fun loop_tasks :: "loop_pc \<Rightarrow> scheduled_task list" where
  "loop_tasks (LoopQueue ts) = ts"
| "loop_tasks _ = []"

fun worker_task :: "worker_pc \<Rightarrow> scheduled_task option" where
  "worker_task (WorkerAcquire t) = Some t"
| "worker_task (WorkerExec t) = Some t"
| "worker_task (WorkerDelete t) = Some t"
| "worker_task _ = None"

fun holds_semaphore :: "worker_pc \<Rightarrow> bool" where
  "holds_semaphore (WorkerExec t) = True"
| "holds_semaphore (WorkerDelete t) = True"
| "holds_semaphore _ = False"

definition busy :: "(nat \<Rightarrow> worker_pc) \<Rightarrow> nat set" where
  "busy w = {i. holds_semaphore (w i)}"

lemma busy_upd:
  "busy (w(i := p)) = (if holds_semaphore p then insert i (busy w) else busy w - {i})"
  by (auto simp: busy_def)

definition sched_inv :: "sched_sys \<Rightarrow> bool" where
  "sched_inv y \<longleftrightarrow> table_inv (sys_sched y) \<and>
     (\<forall>t\<in>set (loop_tasks (sys_loop y)). good_task t) \<and>
     (\<forall>i t. worker_task (sys_workers y i) = Some t \<longrightarrow> good_task t) \<and>
     (\<forall>i. 10 \<le> i \<longrightarrow> sys_workers y i = WorkerSelect) \<and>
     ts_semaphore (sys_sched y) = card (busy (sys_workers y)) \<and>
     ts_semaphore (sys_sched y) \<le> semaphore_capacity \<and>
     (ts_doneClosed (sys_sched y) \<longleftrightarrow> sys_loop y = LoopDone) \<and>
     (sys_stop y \<noteq> NoStop \<longrightarrow> ts_stopClosed (sys_sched y))"

lemma table_inv_ScheduleRule:
  "table_inv s \<Longrightarrow> table_inv (snd (ScheduleRule cron now rule s))"
  by (cases rule: ScheduleRule_cases[of cron rule now s])
     (auto simp: table_inv_def good_mk_task split: if_splits)

lemma ScheduleRule_frame:
  "ts_semaphore (snd (ScheduleRule cron now rule s)) = ts_semaphore s"
  "ts_doneClosed (snd (ScheduleRule cron now rule s)) = ts_doneClosed s"
  "ts_stopClosed (snd (ScheduleRule cron now rule s)) = ts_stopClosed s"
  "ts_started (snd (ScheduleRule cron now rule s)) = ts_started s"
  "ts_taskQueue (snd (ScheduleRule cron now rule s)) = ts_taskQueue s"
  by (cases rule: ScheduleRule_cases[of cron rule now s]; simp)+

lemma table_inv_ready:
  "table_inv s \<Longrightarrow> t \<in> set (ready_tasks now s) \<Longrightarrow> good_task t"
  by (auto simp: table_inv_def ready_tasks_def dest: mget_mem)

lemma table_inv_queue: "table_inv s \<Longrightarrow> good_task t \<Longrightarrow> table_inv (queue_task t s)"
  by (auto simp: table_inv_def queue_task_queue)

lemma finite_busy: "\<forall>i. 10 \<le> i \<longrightarrow> w i = WorkerSelect \<Longrightarrow> finite (busy w)"
  by (rule finite_subset[of _ "{..<10}"]) (auto simp: busy_def not_less[symmetric] intro: ccontr)

lemma table_inv_simple:
  "table_inv s \<Longrightarrow> table_inv (s\<lparr>ts_stopClosed := b\<rparr>)"
  "table_inv s \<Longrightarrow> table_inv (s\<lparr>ts_doneClosed := b\<rparr>)"
  "table_inv s \<Longrightarrow> table_inv (s\<lparr>ts_started := b\<rparr>)"
  "table_inv s \<Longrightarrow> table_inv (acquire_semaphore s)"
  "table_inv s \<Longrightarrow> table_inv (finish_task t s)"
  "table_inv s \<Longrightarrow> table_inv (snd (UnscheduleRule i s))"
  "table_inv s \<Longrightarrow> ts_taskQueue s = u # q \<Longrightarrow> table_inv (s\<lparr>ts_taskQueue := q\<rparr>)"
  "table_inv s \<Longrightarrow> ts_taskQueue s = u # q \<Longrightarrow> good_task u"
  by (simp_all add: table_inv_def acquire_semaphore_def finish_task_def UnscheduleRule_def)

lemma sched_inv_start: "sched_inv started_sys"
  by (simp add: sched_inv_def started_sys_def Start_def NewTimeScheduler_def table_inv_def
      busy_def)

text \<open>The tasks that are anywhere in the scheduler.  Its goroutines add none.\<close>

definition all_tasks :: "sched_sys \<Rightarrow> scheduled_task set" where
  "all_tasks y = snd ` set (ts_tasks (sys_sched y)) \<union> set (ts_taskQueue (sys_sched y)) \<union>
     set (loop_tasks (sys_loop y)) \<union> {t. \<exists>i. worker_task (sys_workers y i) = Some t}"

lemma all_tasks_parts:
  "t \<in> set (ts_taskQueue (sys_sched y)) \<Longrightarrow> t \<in> all_tasks y"
  "t \<in> set (loop_tasks (sys_loop y)) \<Longrightarrow> t \<in> all_tasks y"
  "worker_task (sys_workers y i) = Some t \<Longrightarrow> t \<in> all_tasks y"
  "(k, t) \<in> set (ts_tasks (sys_sched y)) \<Longrightarrow> t \<in> all_tasks y"
  by (force simp: all_tasks_def)+

lemma routine_step_tasks: "routine_step y z \<Longrightarrow> all_tasks z \<subseteq> all_tasks y"
proof (induction rule: routine_step.induct)
  case (loop_queue y t ts)
  then show ?case by (auto simp: all_tasks_def queue_task_def)
next
  case (worker_acquire y i t)
  then have "worker_task (sys_workers y i) = Some t" by simp
  then show ?case by (auto simp: all_tasks_def acquire_semaphore_def split: if_splits)
next
  case (worker_delete y i t)
  have "snd ` set (mdel (task_RuleID t) (ts_tasks (sys_sched y))) \<subseteq> snd ` set (ts_tasks (sys_sched y))"
    by (intro image_mono) (auto simp: mdel_def AList.delete_eq)
  then show ?case by (auto simp: all_tasks_def finish_task_def split: if_splits)
qed (auto simp: all_tasks_def ready_tasks_def split: if_splits)

text \<open>Moving a worker: what the invariant needs of the new program counter.\<close>

lemma sched_inv_worker:
  assumes "sched_inv y" and "i < 10" and "\<And>t. worker_task p = Some t \<Longrightarrow> good_task t"
    and "table_inv s'" and "ts_doneClosed s' = ts_doneClosed (sys_sched y)"
    and "ts_stopClosed s' = ts_stopClosed (sys_sched y)"
    and "ts_semaphore s' = card (busy ((sys_workers y)(i := p)))"
    and "ts_semaphore s' \<le> semaphore_capacity"
  shows "sched_inv (set_worker i p (y\<lparr>sys_sched := s'\<rparr>))"
  using assms by (auto simp: sched_inv_def)

lemma sched_inv_worker_index:
  assumes "sched_inv y" and "sys_workers y i \<noteq> WorkerSelect"
  shows "i < 10"
  using assms by (auto simp: sched_inv_def not_le[symmetric])

lemma sched_inv_busy:
  assumes "sched_inv y"
  shows "finite (busy (sys_workers y))" "ts_semaphore (sys_sched y) = card (busy (sys_workers y))"
    "i \<in> busy (sys_workers y) \<longleftrightarrow> holds_semaphore (sys_workers y i)"
    "ts_semaphore (sys_sched y) \<le> semaphore_capacity" "table_inv (sys_sched y)"
    "worker_task (sys_workers y i) = Some t \<Longrightarrow> good_task t"
  using assms finite_busy[of "sys_workers y"] by (auto simp: sched_inv_def busy_def)

lemma semaphore_ops [simp]:
  "ts_semaphore (acquire_semaphore s) = ts_semaphore s + 1"
  "ts_doneClosed (acquire_semaphore s) = ts_doneClosed s"
  "ts_stopClosed (acquire_semaphore s) = ts_stopClosed s"
  "ts_semaphore (finish_task t s) = ts_semaphore s - 1"
  "ts_doneClosed (finish_task t s) = ts_doneClosed s"
  "ts_stopClosed (finish_task t s) = ts_stopClosed s"
  by (simp_all add: acquire_semaphore_def finish_task_def)

lemma routine_step_inv:
  assumes "routine_step y z" and "sched_inv y"
  shows "sched_inv z"
  using assms(1)
proof (cases rule: routine_step.cases)
  case loop_stop
  then show ?thesis using assms(2) by (simp add: sched_inv_def table_inv_simple)
next
  case loop_tick
  then show ?thesis using assms(2) by (simp add: sched_inv_def)
next
  case (loop_collect now)
  then show ?thesis using assms(2) by (auto simp: sched_inv_def intro: table_inv_ready)
next
  case (loop_queue t ts)
  then show ?thesis
    using assms(2) by (simp add: sched_inv_def table_inv_queue queue_task_queue(2-))
next
  case loop_next
  then show ?thesis using assms(2) by (simp add: sched_inv_def)
next
  case (worker_take i t q)
  have i: "i < 10" using worker_take assms(2) by (simp add: sched_inv_def table_inv_def)
  show ?thesis
    unfolding worker_take(1)
    using worker_take sched_inv_busy[OF assms(2)] table_inv_simple
    by (intro sched_inv_worker[OF assms(2) i]) (auto simp: busy_upd)
next
  case (worker_stop i)
  have i: "i < 10" using worker_stop assms(2) by (simp add: sched_inv_def table_inv_def)
  have "sched_inv (set_worker i WorkerStopped (y\<lparr>sys_sched := sys_sched y\<rparr>))"
    using worker_stop sched_inv_busy[OF assms(2)]
    by (intro sched_inv_worker[OF assms(2) i]) (auto simp: busy_upd)
  then show ?thesis by (simp add: worker_stop(1))
next
  case (worker_acquire i t)
  have "good_task t" using worker_acquire sched_inv_busy(6)[OF assms(2), of i t] by simp
  then show ?thesis
    unfolding worker_acquire(1)
    using worker_acquire sched_inv_busy[OF assms(2)] sched_inv_worker_index[OF assms(2), of i]
    by (intro sched_inv_worker[OF assms(2)]) (auto simp: busy_upd table_inv_simple)
next
  case (worker_give_up i t)
  have "sched_inv (set_worker i WorkerSelect (y\<lparr>sys_sched := sys_sched y\<rparr>))"
    using worker_give_up sched_inv_busy[OF assms(2)] sched_inv_worker_index[OF assms(2), of i]
    by (intro sched_inv_worker[OF assms(2)]) (auto simp: busy_upd)
  then show ?thesis by (simp add: worker_give_up(1))
next
  case (worker_delete i t)
  have "i \<in> busy (sys_workers y)"
    using worker_delete sched_inv_busy(3)[OF assms(2)] by simp
  then show ?thesis
    unfolding worker_delete(1)
    using worker_delete sched_inv_busy[OF assms(2)] sched_inv_worker_index[OF assms(2), of i]
    by (intro sched_inv_worker[OF assms(2)]) (auto simp: busy_upd table_inv_simple)
next
  case cancel_context
  then show ?thesis using assms(2) by (simp add: sched_inv_def)
next
  case stop_close
  then show ?thesis using assms(2) by (simp add: sched_inv_def table_inv_simple)
next
  case stop_return
  then show ?thesis using assms(2) by (simp add: sched_inv_def table_inv_simple)
qed

lemma sched_step_inv:
  assumes "sched_step cron y z" and "sched_inv y"
  shows "sched_inv z"
  using assms(1)
proof (cases rule: sched_step.cases)
  case (client_schedule now rule)
  then show ?thesis
    using assms(2) by (simp add: sched_inv_def table_inv_ScheduleRule ScheduleRule_frame)
next
  case (client_unschedule ruleID)
  then show ?thesis
    using assms(2) by (simp add: sched_inv_def table_inv_simple) (simp add: UnscheduleRule_def)
next
  case (worker_executed i t)
  have "i \<in> busy (sys_workers y)" "good_task t"
    using worker_executed sched_inv_busy(3)[OF assms(2)] sched_inv_busy(6)[OF assms(2), of i t]
    by simp_all
  then have "sched_inv (set_worker i (WorkerDelete t) (y\<lparr>sys_sched := sys_sched y\<rparr>))"
    using worker_executed sched_inv_busy[OF assms(2)] sched_inv_worker_index[OF assms(2), of i]
    by (intro sched_inv_worker[OF assms(2)]) (auto simp: busy_upd insert_absorb)
  then show ?thesis by (simp add: worker_executed(1))
next
  case goroutine
  then show ?thesis using assms(2) by (rule routine_step_inv)
qed

lemma sched_reach_inv: "sched_reach cron y z \<Longrightarrow> sched_inv y \<Longrightarrow> sched_inv z"
  by (induction rule: sched_reach.induct) (auto intro: sched_step_inv)

lemma reach_one: "sched_step cron y z \<Longrightarrow> sched_reach cron y z"
  by (blast intro: sched_reach.intros)

lemma reach_trans: "sched_reach cron y z \<Longrightarrow> sched_reach cron x y \<Longrightarrow> sched_reach cron x z"
  by (induction rule: sched_reach.induct) (auto intro: sched_reach.intros)

section \<open>Properties\<close>

text \<open>
  Scheduling a rule never panics; an invalid schedule is reported and leaves the table as
  it was; otherwise the entry of the rule becomes the computed next execution, or is removed if
  there is none; and the entries of all other rules are left alone.
\<close>

theorem schedule_rule_result:
  fixes rule cron now s
  defines "next \<equiv> CalculateNextExecution cron now (spec_Schedule (rule_Spec rule))
      (st_LastExecutionTime (rule_Status rule))"
    and "s' \<equiv> snd (ScheduleRule cron now rule s)"
  shows "(\<exists>r. fst (ScheduleRule cron now rule s) = Ret r \<and>
      (is_ok r \<longleftrightarrow> is_ok (ValidateSchedule cron (spec_Schedule (rule_Spec rule)))) \<and>
      (if is_ok r
       then \<exists>e. next = Ret (Inr e) \<and> map_option task_ExecuteAt (mget (ts_tasks s') (getRuleID rule)) = e
       else s' = s)) \<and>
    (\<forall>i. i = getRuleID rule \<or> GetNextExecutionTime s' i = GetNextExecutionTime s i)"
proof -
  have "GetNextExecutionTime s' i = GetNextExecutionTime s i" if "i \<noteq> getRuleID rule" for i
    unfolding s'_def using that by (rule ts.schedule_frame)
  moreover have "\<exists>r. fst (ScheduleRule cron now rule s) = Ret r \<and>
      (is_ok r \<longleftrightarrow> is_ok (ValidateSchedule cron (spec_Schedule (rule_Spec rule)))) \<and>
      (if is_ok r
       then \<exists>e. next = Ret (Inr e) \<and> map_option task_ExecuteAt (mget (ts_tasks s') (getRuleID rule)) = e
       else s' = s)"
    unfolding next_def s'_def by (cases rule: ScheduleRule_cases[of cron rule now s]) auto
  ultimately show ?thesis by blast
qed

text \<open>
  C8: in every reachable state of the scheduler's goroutines each table entry belongs to its
  rule and carries the action apply or remove, and so does every task in the queue, in the loop
  or in a worker; the queue holds at most 1000 tasks; at most 10 tasks are executed at a time,
  one for each taken slot of the semaphore.
\<close>

theorem scheduler_invariant:
  assumes "sched_reach cron started_sys y"
  shows "(\<forall>k t. mget (ts_tasks (sys_sched y)) k = Some t \<longrightarrow> task_RuleID t = k \<and> good_task t) \<and>
    (\<forall>t\<in>set (ts_taskQueue (sys_sched y)). good_task t) \<and>
    (\<forall>i t. worker_task (sys_workers y i) = Some t \<longrightarrow> good_task t) \<and>
    length (ts_taskQueue (sys_sched y)) \<le> 1000 \<and>
    card {i. holds_semaphore (sys_workers y i)} = ts_semaphore (sys_sched y) \<and>
    card {i. holds_semaphore (sys_workers y i)} \<le> 10"
  using sched_reach_inv[OF assms sched_inv_start]
  by (auto simp: sched_inv_def table_inv_def busy_def queue_capacity_def semaphore_capacity_def)

text \<open>The loop has chosen a tick, and \<open>Stop\<close> holds the mutex and waits for the loop.\<close>

definition stop_stuck :: "sched_sys \<Rightarrow> bool" where
  "stop_stuck y \<longleftrightarrow> sys_stop y = StopWaiting \<and> sys_loop y = LoopTick \<and>
     \<not> ts_doneClosed (sys_sched y)"

lemma stop_stuck_routine: "routine_step y z \<Longrightarrow> stop_stuck y \<Longrightarrow> stop_stuck z"
  by (induction rule: routine_step.induct)
     (auto simp: stop_stuck_def mutex_free_def queue_task_queue)

lemma stop_stuck_step: "sched_step cron y z \<Longrightarrow> stop_stuck y \<Longrightarrow> stop_stuck z"
  by (erule sched_step.cases) (auto dest: stop_stuck_routine simp: stop_stuck_def mutex_free_def)

lemma stop_stuck_reach: "sched_reach cron y z \<Longrightarrow> stop_stuck y \<Longrightarrow> stop_stuck z"
  by (induction rule: sched_reach.induct) (auto intro: stop_stuck_step)

text \<open>
  C31: \<open>Stop\<close> can deadlock.  It keeps the mutex while it waits for the loop to end, and the loop
  may be about to take the mutex for a tick: from that reachable state on, \<open>Stop\<close> is waiting in
  every state that can follow, and the mutex is never free again.
\<close>

theorem stop_can_deadlock:
  "\<exists>y. sched_reach cron started_sys y \<and>
     {z. sched_reach cron y z} \<subseteq> {z. sys_stop z = StopWaiting \<and> \<not> mutex_free z}"
proof -
  let ?y1 = "started_sys\<lparr>sys_loop := LoopTick\<rparr>"
  let ?y2 = "upd_sched (\<lambda>s. s\<lparr>ts_stopClosed := True\<rparr>) (?y1\<lparr>sys_stop := StopWaiting\<rparr>)"
  have "sched_step cron started_sys ?y1"
    by (rule goroutine[OF loop_tick]) (simp add: started_sys_def)
  moreover have "sched_step cron ?y1 ?y2"
    by (rule goroutine[OF stop_close]) (simp_all add: started_sys_def Start_def NewTimeScheduler_def)
  ultimately have "sched_reach cron started_sys ?y2"
    by (blast intro: sched_reach.intros)
  moreover have "stop_stuck ?y2"
    by (simp add: stop_stuck_def started_sys_def Start_def NewTimeScheduler_def)
  ultimately show ?thesis
    using stop_stuck_reach by (auto simp: stop_stuck_def mutex_free_def)
qed

text \<open>
  If the loop is waiting in its \<open>select\<close> when \<open>Stop\<close> is called, two steps of the loop and
  of \<open>Stop\<close> end both: \<open>Stop\<close> returns, the mutex is free and the scheduler is marked stopped.
\<close>

theorem stop_returns_from_select:
  assumes "sched_reach cron started_sys y" and "sys_stop y = NoStop"
    and "ts_started (sys_sched y)" and "sys_loop y = LoopSelect"
  shows "\<exists>z. sched_reach cron y z \<and> sys_stop z = Stopped \<and> mutex_free z \<and>
     \<not> ts_started (sys_sched z) \<and> sys_loop z = LoopDone"
proof -
  let ?y1 = "upd_sched (\<lambda>s. s\<lparr>ts_stopClosed := True\<rparr>) (y\<lparr>sys_stop := StopWaiting\<rparr>)"
  let ?y2 = "upd_sched (\<lambda>s. s\<lparr>ts_doneClosed := True\<rparr>) (?y1\<lparr>sys_loop := LoopDone\<rparr>)"
  let ?y3 = "upd_sched (\<lambda>s. s\<lparr>ts_started := False\<rparr>) (?y2\<lparr>sys_stop := Stopped\<rparr>)"
  have "sched_step cron y ?y1" using assms by (intro goroutine stop_close)
  moreover have "sched_step cron ?y1 ?y2"
    using assms by (intro goroutine loop_stop) (simp_all add: told_to_stop_def)
  moreover have "sched_step cron ?y2 ?y3" by (intro goroutine stop_return) simp_all
  ultimately have "sched_reach cron y ?y3" by (blast intro: sched_reach.intros)
  then show ?thesis by (intro exI[of _ ?y3]) (simp add: mutex_free_def)
qed

theorem stop_returns_from_select_witness:
  "\<exists>z. sched_reach (\<lambda>_. Inr every_ten) started_sys z \<and> sys_stop z = Stopped"
  using stop_returns_from_select[OF reach_refl[of "\<lambda>_. Inr every_ten" started_sys]]
  by (auto simp: started_sys_def Start_def NewTimeScheduler_def)

text \<open>
  C22: one check of the table queues exactly the tasks due within a minute, in the order the
  map is visited, as far as the queue has room, and leaves the table as it is: a task that is
  due stays due, so the next tick queues it once more unless a worker has finished it.
\<close>

theorem check_queues_ready_tasks:
  assumes "length (ts_taskQueue s) \<le> 1000"
  shows "ts_taskQueue (checkAndQueueTasks now s) = take 1000 (ts_taskQueue s @ ready_tasks now s) \<and>
    ready_tasks now (checkAndQueueTasks now s) = ready_tasks now s \<and>
    ts_taskQueue (checkAndQueueTasks now (checkAndQueueTasks now s)) =
      take 1000 (ts_taskQueue s @ ready_tasks now s @ ready_tasks now s) \<and>
    set (ready_tasks now s) =
      {t. \<exists>k. (k, t) \<in> set (ts_tasks s) \<and> task_ExecuteAt t < now + time_minute}"
proof -
  have q: "ts_taskQueue (checkAndQueueTasks now u) = take 1000 (ts_taskQueue u @ ready_tasks now u)"
      "ts_tasks (checkAndQueueTasks now u) = ts_tasks u"
    if "length (ts_taskQueue u) \<le> 1000" for u
    using fold_queue_task[of u "ready_tasks now u"] that
    by (simp_all add: checkAndQueueTasks_def queue_capacity_def)
  have r: "ready_tasks now (checkAndQueueTasks now s) = ready_tasks now s"
    using q(2)[OF assms] by (simp add: ready_tasks_def)
  have "length (ts_taskQueue (checkAndQueueTasks now s)) \<le> 1000"
    using q(1)[OF assms] by simp
  from q(1)[OF this] q(1)[OF assms] r
  have "ts_taskQueue (checkAndQueueTasks now (checkAndQueueTasks now s)) =
      take 1000 (ts_taskQueue s @ ready_tasks now s @ ready_tasks now s)"
    by (simp add: min_def)
  moreover have "set (ready_tasks now s) =
      {t. \<exists>k. (k, t) \<in> set (ts_tasks s) \<and> task_ExecuteAt t < now + time_minute}"
    by (force simp: ready_tasks_def)
  ultimately show ?thesis using q(1)[OF assms] r by blast
qed

text \<open>A rule of the namespace \<open>ns\<close> for the witnesses: it applies one annotation by cron.\<close>

definition sample_rule :: "gotime option \<Rightarrow> rule" where
  "sample_rule prev = \<lparr>rule_Name = ''r'', rule_Namespace = ''ns'', rule_DeletionTimestamp = None,
     rule_Finalizers = [],
     rule_Spec = \<lparr>spec_Schedule = cron_schedule ''x'' ''apply'',
       spec_Selector = \<lparr>MatchLabels = [], MatchExpressions = []\<rparr>,
       spec_Annotations = [(''scheduler.k8s.io/managed-a'', ''v'')], spec_AnnotationGroups = [],
       spec_TargetResources = [''pods''], spec_TemplateVariables = [],
       spec_ConflictResolution = []\<rparr>,
     rule_Status = \<lparr>st_LastExecutionTime = prev, st_NextExecutionTime = None, st_Phase = [],
       st_Conditions = [], st_AffectedResources = 0, st_ExecutionCount = 0,
       st_SuccessfulExecutions = 0, st_FailedExecutions = 0, st_LastError = [],
       st_LastErrorTime = None\<rparr>\<rparr>"

lemma sample_rule_sel [simp]:
  "getRuleID (sample_rule l) = ''ns/r''" "spec_Schedule (rule_Spec (sample_rule l)) = cron_schedule ''x'' ''apply''"
  "st_LastExecutionTime (rule_Status (sample_rule l)) = l"
  by (simp_all add: sample_rule_def getRuleID_def nsname_string_def)

lemma ScheduleRule_sample:
  "ScheduleRule (\<lambda>_. Inr every_ten) now (sample_rule l) s =
     (Ret (Inr ()), s\<lparr>ts_tasks := mput ''ns/r''
        (mk_task (sample_rule l) ''apply'' (every_ten (case l of None \<Rightarrow> now | Some t \<Rightarrow> t))) (ts_tasks s)\<rparr>)"
  by (simp add: ScheduleRule_def CalculateNextExecution_cron ValidateSchedule_shapes
      GetExecutionAction_def schedule_consts)

theorem check_queues_ready_tasks_witness:
  "length (ts_taskQueue (checkAndQueueTasks 0 (checkAndQueueTasks 0
     (snd (ScheduleRule (\<lambda>_. Inr every_ten) 0 (sample_rule None) NewTimeScheduler))))) = 2"
proof -
  let ?s = "snd (ScheduleRule (\<lambda>_. Inr every_ten) 0 (sample_rule None) NewTimeScheduler)"
  have "ts_taskQueue ?s = []" "length (ready_tasks 0 ?s) = 1"
    by (simp_all add: ScheduleRule_sample NewTimeScheduler_def ready_tasks_def mput_def
        every_ten_def time_consts)
  then show ?thesis using check_queues_ready_tasks[of ?s 0] by simp
qed


lemma newer_schedule_reachable:
  fixes c :: cron_parser
  defines "c \<equiv> \<lambda>_. Inr every_ten"
  shows "\<exists>y. sched_reach c started_sys y \<and> mutex_free y \<and>
     sys_workers y 0 = WorkerDelete (mk_task (sample_rule None) ''apply'' 10) \<and>
     mget (ts_tasks (sys_sched y)) ''ns/r'' = Some (mk_task (sample_rule (Some 15)) ''apply'' 20)"
proof -
  let ?t = "mk_task (sample_rule None) ''apply'' 10"
  let ?y1 = "upd_sched (\<lambda>s. snd (ScheduleRule c 0 (sample_rule None) s)) started_sys"
  let ?y2 = "?y1\<lparr>sys_loop := LoopTick\<rparr>"
  let ?y3 = "?y2\<lparr>sys_loop := LoopQueue (ready_tasks 0 (sys_sched ?y2))\<rparr>"
  let ?y4 = "upd_sched (queue_task ?t) (?y3\<lparr>sys_loop := LoopQueue []\<rparr>)"
  let ?y5 = "set_worker 0 (WorkerAcquire ?t) (upd_sched (\<lambda>s. s\<lparr>ts_taskQueue := []\<rparr>) ?y4)"
  let ?y6 = "set_worker 0 (WorkerExec ?t) (upd_sched acquire_semaphore ?y5)"
  let ?y7 = "set_worker 0 (WorkerDelete ?t) ?y6"
  let ?y8 = "upd_sched (\<lambda>s. snd (ScheduleRule c 0 (sample_rule (Some 15)) s)) ?y7"
  note defs = c_def ScheduleRule_sample started_sys_def Start_def NewTimeScheduler_def
    mutex_free_def ready_tasks_def mput_def every_ten_def time_consts queue_task_def
    queue_capacity_def semaphore_capacity_def acquire_semaphore_def
  have "sched_reach c started_sys ?y1"
    by (rule reach_step[OF reach_refl client_schedule]) (simp add: defs)
  then have "sched_reach c started_sys ?y2"
    by (rule reach_step[OF _ goroutine[OF loop_tick]]) (simp add: defs)
  then have "sched_reach c started_sys ?y3"
    by (rule reach_step[OF _ goroutine[OF loop_collect]]) (simp_all add: defs)
  then have "sched_reach c started_sys ?y4"
    by (rule reach_step[OF _ goroutine[OF loop_queue]]) (simp add: defs)
  then have "sched_reach c started_sys ?y5"
    by (rule reach_step[OF _ goroutine[OF worker_take]]) (simp_all add: defs)
  then have "sched_reach c started_sys ?y6"
    by (rule reach_step[OF _ goroutine[OF worker_acquire]]) (simp_all add: defs)
  then have "sched_reach c started_sys ?y7"
    by (rule reach_step[OF _ worker_executed]) simp
  then have "sched_reach c started_sys ?y8"
    by (rule reach_step[OF _ client_schedule]) (simp add: defs)
  moreover have "mutex_free ?y8"
    "sys_workers ?y8 0 = WorkerDelete ?t"
    "mget (ts_tasks (sys_sched ?y8)) ''ns/r'' = Some (mk_task (sample_rule (Some 15)) ''apply'' 20)"
    by (simp_all add: defs mget_Cons)
  ultimately show ?thesis by blast
qed

theorem scheduler_invariant_witness:
  "\<exists>y :: sched_sys. good_task (mk_task (sample_rule None) ''apply'' 10) \<and> card {i. holds_semaphore (sys_workers y i)} \<le> 10 \<and>
     sys_workers y 0 = WorkerDelete (mk_task (sample_rule None) ''apply'' 10)"
proof -
  obtain y where y: "sched_reach (\<lambda>_. Inr every_ten) started_sys y"
      "sys_workers y 0 = WorkerDelete (mk_task (sample_rule None) ''apply'' 10)"
    using newer_schedule_reachable by blast
  then have "worker_task (sys_workers y 0) = Some (mk_task (sample_rule None) ''apply'' 10)" by simp
  with scheduler_invariant[OF y(1)]
  have "good_task (mk_task (sample_rule None) ''apply'' 10)" "card {i. holds_semaphore (sys_workers y i)} \<le> 10"
    by blast+
  with y(2) show ?thesis by (intro exI[of _ y] conjI)
qed

text \<open>
  C33: a task may be executed twice at a time: a task that is due is queued at every tick until an
  execution of it has ended, so a second worker takes it while the first still executes it.
\<close>

theorem task_runs_twice_at_once:
  fixes c :: cron_parser
  defines "c \<equiv> \<lambda>_. Inr every_ten"
  shows "\<exists>y t. sched_reach c started_sys y \<and> sys_workers y 0 = WorkerExec t \<and> sys_workers y 1 = WorkerExec t \<and>
     ts_tasks (sys_sched y) = [(''ns/r'', t)]"
proof -
  let ?t = "mk_task (sample_rule None) ''apply'' 10"
  let ?tick = "\<lambda>y. upd_sched (queue_task ?t) (y\<lparr>sys_loop := LoopQueue []\<rparr>)"
  let ?run = "\<lambda>i y. set_worker i (WorkerExec ?t) (upd_sched acquire_semaphore
      (set_worker i (WorkerAcquire ?t) (upd_sched (\<lambda>s. s\<lparr>ts_taskQueue := []\<rparr>) y)))"
  let ?y1 = "upd_sched (\<lambda>s. snd (ScheduleRule c 0 (sample_rule None) s)) started_sys"
  note defs = c_def ScheduleRule_sample started_sys_def Start_def NewTimeScheduler_def
    mutex_free_def ready_tasks_def mput_def every_ten_def time_consts queue_task_def
    queue_capacity_def semaphore_capacity_def acquire_semaphore_def
  have tick: "sched_reach c y (?tick y)"
    if "sys_loop y = LoopSelect" "mutex_free y" "ts_tasks (sys_sched y) = [(''ns/r'', ?t)]" for y
  proof -
    let ?u = "y\<lparr>sys_loop := LoopTick\<rparr>"
    let ?v = "?u\<lparr>sys_loop := LoopQueue (ready_tasks 0 (sys_sched ?u))\<rparr>"
    have 1: "routine_step y ?u" by (rule loop_tick) (rule that(1))
    have 2: "routine_step ?u ?v" using that(2) by (intro loop_collect) (simp_all add: mutex_free_def)
    have 3: "routine_step ?v (upd_sched (queue_task ?t) (?v\<lparr>sys_loop := LoopQueue []\<rparr>))"
      using that(3) by (intro loop_queue) (simp add: ready_tasks_def time_consts)
    show ?thesis
      using reach_step[OF reach_step[OF reach_one[OF goroutine[OF 1]] goroutine[OF 2]] goroutine[OF 3]] by simp
  qed
  have run: "sched_reach c y (?run i y)"
    if "i < ts_maxConcurrency (sys_sched y)" "sys_workers y i = WorkerSelect" "ts_taskQueue (sys_sched y) = [?t]"
      "ts_semaphore (sys_sched y) < semaphore_capacity" for i y
  proof -
    let ?u = "set_worker i (WorkerAcquire ?t) (upd_sched (\<lambda>s. s\<lparr>ts_taskQueue := []\<rparr>) y)"
    have "routine_step y ?u" by (rule worker_take) (use that in simp_all)
    moreover have "routine_step ?u (?run i y)" by (rule worker_acquire) (use that(4) in simp_all)
    ultimately show ?thesis by (blast intro: reach_refl reach_step goroutine)
  qed
  let ?y2 = "?run 0 (?tick ?y1)"
  let ?y3 = "?y2\<lparr>sys_loop := LoopSelect\<rparr>"
  let ?y4 = "?run 1 (?tick ?y3)"
  have "sched_reach c started_sys ?y1"
    by (rule reach_step[OF reach_refl client_schedule]) (simp add: defs)
  moreover have "sched_reach c ?y1 (?tick ?y1)" by (rule tick) (simp_all add: defs)
  moreover have "sched_reach c (?tick ?y1) ?y2" by (rule run) (simp_all add: defs)
  moreover have "sched_reach c ?y2 ?y3" by (rule reach_one[OF goroutine[OF loop_next]]) (simp add: defs)
  moreover have "sched_reach c ?y3 (?tick ?y3)" by (rule tick) (simp_all add: defs)
  moreover have "sched_reach c (?tick ?y3) ?y4" by (rule run) (simp_all add: defs)
  ultimately have "sched_reach c started_sys ?y4" by (blast intro: reach_trans)
  moreover have "sys_workers ?y4 0 = WorkerExec ?t" "sys_workers ?y4 1 = WorkerExec ?t"
      "ts_tasks (sys_sched ?y4) = [(''ns/r'', ?t)]"
    by (simp_all add: defs)
  ultimately show ?thesis by blast
qed


end
