(* ===== verification/Error_Handler.thy ===== *)
theory Error_Handler
  imports Complex_Main Prelude
begin

text \<open>
  \<open>internal/errors/handler.go\<close>: categories of errors, the retry policy, the backoff delays
  and the two retry loops.  A loop runs an operation on a state \<open>'s\<close> of the world; the
  \<open>select\<close> between \<open>ctx.Done()\<close> and the timer is the parameter \<open>pause\<close>, which yields
  \<open>ctx.Err()\<close> if the context ends first.  Logging is left out.
\<close>

section \<open>Floating point\<close>

text \<open>
  A finite \<open>float64\<close> is its rational value.  \<open>fl\<close> rounds to the nearest value with a
  significand of 53 bits, ties to even.  The exponent is not bounded: the delays are cut at
  \<open>MaxDelay\<close> before an overflow to infinity could matter.
\<close>

definition pow2 :: "int \<Rightarrow> rat" where
  "pow2 e = (if 0 \<le> e then 2 ^ nat e else 1 / 2 ^ nat (- e))"

fun bit_length :: "nat \<Rightarrow> nat" where
  "bit_length n = (if n = 0 then 0 else Suc (bit_length (n div 2)))"

declare bit_length.simps [simp del]

definition float_exp :: "rat \<Rightarrow> int" where
  "float_exp x = (let (n, d) = quotient_of x;
       e = int (bit_length (nat n)) - int (bit_length (nat d)) - 53
     in if x / pow2 e < 2 ^ 53 then e else e + 1)"

definition round_even :: "rat \<Rightarrow> int" where
  "round_even x = (let n = \<lfloor>x\<rfloor>; r = x - of_int n in
     if r < 1 / 2 then n else if r > 1 / 2 then n + 1 else if even n then n else n + 1)"

definition fl :: "rat \<Rightarrow> rat" where
  "fl x = (if x = 0 then 0
     else let e = float_exp \<bar>x\<bar>; m = of_int (round_even (\<bar>x\<bar> / pow2 e)) * pow2 e
          in if x < 0 then - m else m)"

text \<open>\<open>math.Pow\<close> for a whole exponent: square and multiply, each product rounded.\<close>

fun pow_loop :: "nat \<Rightarrow> rat \<Rightarrow> rat \<Rightarrow> rat" where
  "pow_loop i x1 a1 = (if i = 0 then a1
     else pow_loop (i div 2) (fl (x1 * x1)) (if odd i then fl (a1 * x1) else a1))"

declare pow_loop.simps [simp del]

definition go_pow :: "rat \<Rightarrow> nat \<Rightarrow> rat" where
  "go_pow x y = pow_loop y x 1"

text \<open>The conversion to an integer type cuts toward zero.\<close>

definition trunc :: "rat \<Rightarrow> int" where
  "trunc x = (if x < 0 then - \<lfloor>- x\<rfloor> else \<lfloor>x\<rfloor>)"

definition float_tenth :: rat where
  "float_tenth = 3602879701896397 / 36028797018963968"

section \<open>Configuration\<close>

datatype error_category = ErrorCategoryTransient | ErrorCategoryPermanent
  | ErrorCategoryResourceNotFound | ErrorCategoryValidation | ErrorCategoryNetwork
  | ErrorCategoryRateLimit | ErrorCategoryConflict

record retry_config =
  MaxRetries :: int
  BaseDelay :: duration
  MaxDelay :: duration
  BackoffFactor :: rat
  Jitter :: bool
  RetryableErrors :: "error_category list"

definition DefaultRetryConfig :: retry_config where
  "DefaultRetryConfig = \<lparr>MaxRetries = 5, BaseDelay = 1 * time_second, MaxDelay = 30 * time_second,
     BackoffFactor = 2, Jitter = True,
     RetryableErrors = [ErrorCategoryTransient, ErrorCategoryNetwork, ErrorCategoryRateLimit,
       ErrorCategoryConflict]\<rparr>"

text \<open>\<open>NewErrorHandler\<close>: the handler is its configuration; a nil one is replaced.\<close>

definition NewErrorHandler :: "retry_config option \<Rightarrow> retry_config" where
  "NewErrorHandler config = (case config of None \<Rightarrow> DefaultRetryConfig | Some c \<Rightarrow> c)"

section \<open>Categories\<close>

definition networkPatterns :: "str list" where
  "networkPatterns = [''connection refused'', ''connection reset'', ''network is unreachable'',
     ''no route to host'', ''dns'', ''dial tcp'', ''i/o timeout'', ''temporary'']"

text \<open>The type assertion \<open>err.(net.Error)\<close> does not unwrap.\<close>

definition isNetworkError :: "goerr \<Rightarrow> bool" where
  "isNetworkError err = (case err of
     NetError timeout s \<Rightarrow> timeout
   | _ \<Rightarrow> let errorMsg = to_lower (err_text err)
          in list_ex (\<lambda>pattern. str_contains errorMsg pattern) networkPatterns)"

definition CategorizeError :: "goerr option \<Rightarrow> error_category" where
  "CategorizeError e = (case e of None \<Rightarrow> ErrorCategoryPermanent | Some err \<Rightarrow>
     if is_reason NotFound err then ErrorCategoryResourceNotFound
     else if is_reason Conflict err then ErrorCategoryConflict
     else if is_reason ServerTimeout err \<or> is_reason Timeout err then ErrorCategoryTransient
     else if is_reason ServiceUnavailable err \<or> is_reason InternalError err
       then ErrorCategoryTransient
     else if is_reason TooManyRequests err then ErrorCategoryRateLimit
     else if is_reason BadRequest err \<or> is_reason Invalid err then ErrorCategoryValidation
     else if is_reason Forbidden err \<or> is_reason Unauthorized err then ErrorCategoryPermanent
     else if isNetworkError err then ErrorCategoryNetwork
     else let errorMsg = to_lower (err_text err) in
       if str_contains errorMsg ''validation'' \<or> str_contains errorMsg ''invalid'' \<or>
          str_contains errorMsg ''malformed'' then ErrorCategoryValidation
       else if str_contains errorMsg ''connection refused'' \<or>
          str_contains errorMsg ''connection reset'' \<or> str_contains errorMsg ''timeout'' \<or>
          str_contains errorMsg ''temporary'' then ErrorCategoryTransient
       else ErrorCategoryPermanent)"

definition ShouldRetry :: "retry_config \<Rightarrow> goerr option \<Rightarrow> int \<Rightarrow> bool" where
  "ShouldRetry eh err attempt =
     (if attempt \<ge> MaxRetries eh then False
      else list_ex (\<lambda>retryableCategory. CategorizeError err = retryableCategory) (RetryableErrors eh))"

section \<open>Delays\<close>

text \<open>
  \<open>2*time.Now().UnixNano()%2 - 1\<close>: in Go the product is taken first, and both operators work
  on \<open>int64\<close>.
\<close>

definition jitter_factor :: "64 word \<Rightarrow> int" where
  "jitter_factor nanos = (let p = sint (2 * nanos) in sgn p * (\<bar>p\<bar> mod 2) - 1)"

definition CalculateDelay :: "64 word \<Rightarrow> retry_config \<Rightarrow> int \<Rightarrow> duration" where
  "CalculateDelay nanos eh attempt =
     (if attempt \<le> 0 then BaseDelay eh
      else let d = fl (fl (of_int (BaseDelay eh)) * go_pow (BackoffFactor eh) (nat (attempt - 1)));
               delay = (if d > fl (of_int (MaxDelay eh)) then fl (of_int (MaxDelay eh)) else d);
               dur = trunc delay
           in if Jitter eh
              then let jitter = trunc (fl (fl (fl (of_int dur) * float_tenth) *
                         of_int (jitter_factor nanos)));
                       total = dur + jitter
                   in if total < 0 then BaseDelay eh else total
              else dur)"

section \<open>Retry loops\<close>

type_synonym 's operation = "'s \<Rightarrow> (goerr + unit) \<times> 's"
type_synonym 's pause = "duration \<Rightarrow> 's \<Rightarrow> goerr option \<times> 's"

definition attempts_error :: "retry_config \<Rightarrow> str \<Rightarrow> goerr option \<Rightarrow> goerr" where
  "attempts_error eh operationName lastErr =
     (let p = ''operation '' @ operationName @ '' failed after '' @ show_int (MaxRetries eh + 1) @
              '' attempts: ''
      in case lastErr of None \<Rightarrow> Errorf (p @ ''%!w(<nil>)'') | Some e \<Rightarrow> Wrapf p e)"

text \<open>
  The body of both loops: they differ in the condition under which an attempt is repeated.
  \<open>nanos\<close> reads the clock.
\<close>

function retry_loop :: "retry_config \<Rightarrow> (goerr \<Rightarrow> int \<Rightarrow> bool) \<Rightarrow> 's operation \<Rightarrow> 's pause \<Rightarrow>
    ('s \<Rightarrow> 64 word) \<Rightarrow> str \<Rightarrow> int \<Rightarrow> goerr option \<Rightarrow> 's \<Rightarrow> (goerr + unit) \<times> 's" where
  "retry_loop eh again operation pause nanos operationName attempt lastErr s =
     (if \<not> attempt \<le> MaxRetries eh then (Inl (attempts_error eh operationName lastErr), s)
      else case operation s of
        (Inr _, s1) \<Rightarrow> (Inr (), s1)
      | (Inl err, s1) \<Rightarrow>
          if \<not> again err attempt then (Inl (attempts_error eh operationName (Some err)), s1)
          else if attempt = MaxRetries eh
            then (Inl (attempts_error eh operationName (Some err)), s1)
          else (case pause (CalculateDelay (nanos s1) eh (attempt + 1)) s1 of
                  (Some ctxErr, s2) \<Rightarrow> (Inl (Wrapf ''operation cancelled during retry: '' ctxErr), s2)
                | (None, s2) \<Rightarrow> retry_loop eh again operation pause nanos operationName
                                 (attempt + 1) (Some err) s2))"
  by pat_completeness auto
termination
  by (relation "measure (\<lambda>(eh, _, _, _, _, _, attempt, _, _). nat (MaxRetries eh + 1 - attempt))") auto

declare retry_loop.simps [simp del]

definition RetryWithBackoff :: "retry_config \<Rightarrow> 's operation \<Rightarrow> 's pause \<Rightarrow> ('s \<Rightarrow> 64 word) \<Rightarrow> str \<Rightarrow>
    's \<Rightarrow> (goerr + unit) \<times> 's" where
  "RetryWithBackoff eh operation pause nanos operationName s =
     retry_loop eh (\<lambda>err attempt. ShouldRetry eh (Some err) attempt) operation pause nanos
       operationName 0 None s"

definition RetryWithBackoffAndCondition :: "retry_config \<Rightarrow> 's operation \<Rightarrow> (goerr \<Rightarrow> int \<Rightarrow> bool) \<Rightarrow>
    's pause \<Rightarrow> ('s \<Rightarrow> 64 word) \<Rightarrow> str \<Rightarrow> 's \<Rightarrow> (goerr + unit) \<times> 's" where
  "RetryWithBackoffAndCondition eh operation shouldRetry pause nanos operationName s =
     retry_loop eh shouldRetry operation pause nanos operationName 0 None s"

text \<open>
  \<open>WaitForCondition\<close>: the polling loop is the library's
  (\<open>wait.PollUntilContextTimeout\<close>, the parameter \<open>poll\<close>); the closure it polls is ours.
\<close>

definition poll_condition :: "('s \<Rightarrow> (goerr + bool) \<times> 's) \<Rightarrow> 's \<Rightarrow> (goerr + bool) \<times> 's" where
  "poll_condition cond s = (case cond s of
     (Inl err, s') \<Rightarrow>
       (if CategorizeError (Some err) = ErrorCategoryTransient \<or>
           CategorizeError (Some err) = ErrorCategoryNetwork
        then (Inr False, s') else (Inl err, s'))
   | (Inr b, s') \<Rightarrow> (Inr b, s'))"

definition WaitForCondition ::
  "(duration \<Rightarrow> duration \<Rightarrow> bool \<Rightarrow> ('s \<Rightarrow> (goerr + bool) \<times> 's) \<Rightarrow> 's \<Rightarrow> (goerr + unit) \<times> 's) \<Rightarrow>
   retry_config \<Rightarrow> ('s \<Rightarrow> (goerr + bool) \<times> 's) \<Rightarrow> duration \<Rightarrow> 's \<Rightarrow> (goerr + unit) \<times> 's" where
  "WaitForCondition poll eh cond timeout s = poll (BaseDelay eh) timeout True (poll_condition cond) s"

section \<open>Texts\<close>

definition getNoRetryReason :: "retry_config \<Rightarrow> goerr option \<Rightarrow> int \<Rightarrow> str" where
  "getNoRetryReason eh err attempt =
     (if attempt \<ge> MaxRetries eh then ''maximum retry attempts reached''
      else case CategorizeError err of
        ErrorCategoryPermanent \<Rightarrow> ''permanent error''
      | ErrorCategoryValidation \<Rightarrow> ''validation error''
      | ErrorCategoryResourceNotFound \<Rightarrow> ''resource not found''
      | _ \<Rightarrow> ''error category not configured for retry'')"

fun categoryToString :: "error_category \<Rightarrow> str" where
  "categoryToString ErrorCategoryTransient = ''transient''"
| "categoryToString ErrorCategoryPermanent = ''permanent''"
| "categoryToString ErrorCategoryResourceNotFound = ''resource-not-found''"
| "categoryToString ErrorCategoryValidation = ''validation''"
| "categoryToString ErrorCategoryNetwork = ''network''"
| "categoryToString ErrorCategoryRateLimit = ''rate-limit''"
| "categoryToString ErrorCategoryConflict = ''conflict''"

text \<open>
  The summary is a Go map of dynamic values.  \<open>apiStatus\<close> is the type assertion to the
  library's \<open>APIStatus\<close> with the code and the reason of the status it holds.
\<close>

datatype summary_value = SumBool bool | SumStr str | SumInt int

definition GetErrorSummary :: "(goerr \<Rightarrow> (int \<times> str) option) \<Rightarrow> retry_config \<Rightarrow> goerr option \<Rightarrow>
    (str, summary_value) gomap" where
  "GetErrorSummary apiStatus eh e = (case e of
     None \<Rightarrow> [(''hasError'', SumBool False)]
   | Some err \<Rightarrow>
       [(''hasError'', SumBool True), (''error'', SumStr (err_text err)),
        (''category'', SumStr (categoryToString (CategorizeError (Some err)))),
        (''retryable'', SumBool (ShouldRetry eh (Some err) 0))] @
       (case apiStatus err of
          Some (code, reason) \<Rightarrow>
            if code \<noteq> 0 then [(''apiErrorCode'', SumInt code), (''apiErrorReason'', SumStr reason)] else []
        | None \<Rightarrow> []))"

section \<open>Rounding\<close>

lemma pow2_simps [simp]: "pow2 0 = 1" "0 < pow2 e" "pow2 e \<noteq> 0" "pow2 (int n) = 2 ^ n"
  by (auto simp: pow2_def)

lemma pow2_Suc: "pow2 (e + 1) = 2 * pow2 e"
proof (cases "0 \<le> e")
  case True
  then show ?thesis by (simp add: pow2_def nat_add_distrib)
next
  case False
  then obtain n where "e = - int (Suc n)" by (metis int_cases not_less zero_le_imp_eq_int negD)
  then show ?thesis by (cases n) (simp_all add: pow2_def nat_add_distrib)
qed

lemma pow2_add: "pow2 (a + b) = pow2 a * pow2 b"
proof -
  have "pow2 (a + int n) = pow2 a * 2 ^ n" for a n
  proof (induction n)
    case (Suc n)
    have "pow2 (a + int (Suc n)) = 2 * pow2 (a + int n)"
      using pow2_Suc[of "a + int n"] by (simp add: add.commute add.left_commute)
    then show ?case using Suc by simp
  qed simp
  note step = this
  show ?thesis
  proof (cases b)
    case (nonneg n) then show ?thesis by (simp add: step)
  next
    case (neg n)
    have "pow2 a = pow2 (a + b) * 2 ^ Suc n" "1 = pow2 b * 2 ^ Suc n"
      using step[of "a + b" "Suc n"] step[of b "Suc n"] neg by simp_all
    then show ?thesis
      by (metis (no_types, opaque_lifting) mult.assoc mult.commute mult.right_neutral)
  qed
qed

lemma pow2_mono: "a \<le> b \<Longrightarrow> pow2 a \<le> pow2 b"
proof -
  assume "a \<le> b"
  then obtain n where "b = a + int n" by (metis zle_iff_zadd)
  then show ?thesis by (simp add: pow2_add)
qed

lemma pow2_strict: "pow2 a < pow2 b \<longleftrightarrow> a < b"
proof
  assume "pow2 a < pow2 b" then show "a < b" using pow2_mono[of b a] by linarith
next
  assume "a < b"
  then have "pow2 (a + 1) \<le> pow2 b" by (intro pow2_mono) simp
  then show "pow2 a < pow2 b" using pow2_simps(2)[of a] by (simp only: pow2_Suc)
qed

lemma bit_length_bounds: "0 < n \<Longrightarrow> 2 ^ (bit_length n - 1) \<le> n \<and> n < 2 ^ bit_length n \<and> 0 < bit_length n"
proof (induction n rule: bit_length.induct)
  case (1 n)
  show ?case
  proof (cases "n div 2 = 0")
    case True
    then have "n = 1" using 1(2) by simp
    then show ?thesis by (simp add: bit_length.simps)
  next
    case False
    then have IH: "2 ^ (bit_length (n div 2) - 1) \<le> n div 2" "n div 2 < 2 ^ bit_length (n div 2)"
      "0 < bit_length (n div 2)" using 1 by auto
    obtain b where b: "bit_length (n div 2) = Suc b" using IH(3) gr0_conv_Suc by blast
    then have "bit_length n = Suc (Suc b)" using False by (subst bit_length.simps) auto
    then show ?thesis using IH b by auto
  qed
qed

lemma bit_length_int:
  assumes "0 < n"
  shows "pow2 (int (bit_length (nat n)) - 1) \<le> of_int n" "of_int n < pow2 (int (bit_length (nat n)))"
proof -
  have np: "0 < nat n" using assms by simp
  from bit_length_bounds[OF np] have b: "2 ^ (bit_length (nat n) - 1) \<le> nat n"
    "nat n < 2 ^ bit_length (nat n)" "0 < bit_length (nat n)" by blast+
  have n: "rat_of_nat (nat n) = of_int n" using assms by simp
  have "int (bit_length (nat n)) - 1 = int (bit_length (nat n) - 1)" using b(3) by linarith
  then have "pow2 (int (bit_length (nat n)) - 1) = of_nat (2 ^ (bit_length (nat n) - 1))"
    by (simp only: pow2_simps of_nat_power of_nat_numeral)
  also have "\<dots> \<le> of_nat (nat n)" using b(1) by (simp only: of_nat_le_iff)
  finally show "pow2 (int (bit_length (nat n)) - 1) \<le> of_int n" using n by simp
  have "rat_of_nat (nat n) < of_nat (2 ^ bit_length (nat n))"
    using b(2) by (simp only: of_nat_less_iff)
  then show "of_int n < pow2 (int (bit_length (nat n)))" using n by simp
qed

lemma float_exp_bounds:
  assumes "0 < x"
  shows "2 ^ 52 * pow2 (float_exp x) \<le> x" and "x < 2 ^ 53 * pow2 (float_exp x)"
proof -
  obtain n d where q: "quotient_of x = (n, d)" by fastforce
  have d: "0 < d" and x: "x = of_int n / of_int d"
    using q quotient_of_denom_pos quotient_of_div by auto
  have n: "0 < n" using assms d unfolding x by (simp add: zero_less_divide_iff)
  define a b where "a = int (bit_length (nat n))" and "b = int (bit_length (nat d))"
  note bn = bit_length_int[OF n, folded a_def] and bd = bit_length_int[OF d, folded b_def]
  have dp: "0 < rat_of_int d" using d by simp
  have hi: "x < 2 ^ 54 * pow2 (a - b - 53)"
  proof -
    have "x * of_int d < pow2 a" using bn dp by (simp add: x)
    moreover have "pow2 (a - b + 1) * pow2 (b - 1) = pow2 a" by (simp flip: pow2_add)
    moreover have "pow2 (a - b + 1) * pow2 (b - 1) \<le> pow2 (a - b + 1) * of_int d"
      using bd(1) by (intro mult_left_mono) (auto simp: less_imp_le)
    ultimately have "x * of_int d < pow2 (a - b + 1) * of_int d" by linarith
    then have "x < pow2 (a - b + 1)" using dp by simp
    moreover have "pow2 (a - b + 1) = pow2 (54 + (a - b - 53))" by (simp add: algebra_simps)
    moreover have "pow2 54 = 2 ^ 54" using pow2_simps(4)[of 54] by simp
    ultimately show ?thesis by (simp only: pow2_add)
  qed
  have lo: "2 ^ 52 * pow2 (a - b - 53) \<le> x"
  proof -
    have "pow2 (a - 1) \<le> x * of_int d" using bn dp by (simp add: x)
    moreover have "pow2 (a - b - 1) * pow2 b = pow2 (a - 1)" by (simp flip: pow2_add)
    moreover have "pow2 (a - b - 1) * of_int d \<le> pow2 (a - b - 1) * pow2 b"
      using bd(2) by (intro mult_left_mono) (auto simp: less_imp_le)
    ultimately have "pow2 (a - b - 1) * of_int d \<le> x * of_int d" by linarith
    then have "pow2 (a - b - 1) \<le> x" using dp by simp
    moreover have "pow2 (a - b - 1) = pow2 (52 + (a - b - 53))" by (simp add: algebra_simps)
    moreover have "pow2 52 = 2 ^ 52" using pow2_simps(4)[of 52] by simp
    ultimately show ?thesis by (simp only: pow2_add)
  qed
  have e: "float_exp x = (if x < 2 ^ 53 * pow2 (a - b - 53) then a - b - 53 else a - b - 53 + 1)"
    by (simp add: float_exp_def q Let_def a_def b_def divide_less_eq)
  have t: "2 ^ 52 * (2 * p) = 2 ^ 53 * p" "2 ^ 53 * (2 * p) = 2 ^ 54 * p" for p :: rat by simp_all
  show "2 ^ 52 * pow2 (float_exp x) \<le> x" "x < 2 ^ 53 * pow2 (float_exp x)"
    using lo hi by (auto simp only: e pow2_Suc t not_less split: if_splits)
qed

lemma float_exp_unique:
  assumes "0 < x" and "2 ^ 52 * pow2 e \<le> x" and "x < 2 ^ 53 * pow2 e"
  shows "float_exp x = e"
proof -
  have "a \<le> b" if "2 ^ 52 * pow2 a \<le> x" "x < 2 ^ 53 * pow2 b" for a b
  proof -
    have "2 ^ 52 * pow2 a < 2 ^ 53 * pow2 b" using that by (rule le_less_trans)
    also have "\<dots> = 2 ^ 52 * pow2 (b + 1)" by (simp add: pow2_Suc)
    finally have "pow2 a < pow2 (b + 1)" by simp
    then show ?thesis by (simp add: pow2_strict)
  qed
  then show ?thesis using float_exp_bounds[OF assms(1)] assms(2,3) by (meson antisym)
qed

lemma round_even_near:
  assumes "\<bar>x - of_int m\<bar> < 1 / 2" shows "round_even x = m"
proof -
  have "\<lfloor>x\<rfloor> = m \<or> \<lfloor>x\<rfloor> = m - 1" using assms by linarith
  then show ?thesis
  proof
    assume "\<lfloor>x\<rfloor> = m"
    moreover from this have "x - of_int m < 1 / 2" using assms by linarith
    ultimately show ?thesis by (simp add: round_even_def Let_def)
  next
    assume "\<lfloor>x\<rfloor> = m - 1"
    moreover have "1 / 2 < x - of_int (m - 1)"
      using assms by (simp only: abs_less_iff of_int_diff of_int_1) linarith
    moreover from this have "\<not> x - of_int (m - 1) < 1 / 2" by linarith
    ultimately show ?thesis by (simp only: round_even_def Let_def if_False if_True)
  qed
qed

lemma fl_compute:
  assumes "0 < x" and "2 ^ 52 * pow2 e \<le> x" and "x < 2 ^ 53 * pow2 e"
    and "\<bar>x / pow2 e - of_int m\<bar> < 1 / 2"
  shows "fl x = of_int m * pow2 e"
  using assms float_exp_unique[OF assms(1-3)] round_even_near[OF assms(4)]
  by (simp add: fl_def Let_def)

lemma fl_uminus: "fl (- x) = - fl x"
  by (simp add: fl_def Let_def)

lemma fl_exact_pos:
  assumes "0 < m" and "m < 2 ^ 53" shows "fl (of_int m * pow2 k) = of_int m * pow2 k"
proof -
  define x where "x = of_int m * pow2 k"
  have x: "0 < x" using assms by (simp add: x_def)
  define e where "e = float_exp x"
  note b = float_exp_bounds[OF x, folded e_def]
  have "of_int m < rat_of_int (2 ^ 53)" using assms(2) by (simp only: of_int_less_iff)
  then have "of_int m * pow2 k < rat_of_int (2 ^ 53) * pow2 k" by (rule mult_strict_right_mono) simp
  with b(1) have "2 ^ 52 * pow2 e < rat_of_int (2 ^ 53) * pow2 k"
    unfolding x_def by (rule le_less_trans)
  also have "rat_of_int (2 ^ 53) * pow2 k = 2 ^ 52 * pow2 (k + 1)" by (simp add: pow2_Suc)
  finally have "pow2 e < pow2 (k + 1)" by simp
  then have "e \<le> k" by (simp add: pow2_strict)
  then obtain j where j: "k = e + int j" by (metis zle_iff_zadd)
  have "x = of_int (m * 2 ^ j) * pow2 e" by (simp add: x_def j pow2_add)
  then have "fl x = of_int (m * 2 ^ j) * pow2 e"
    using x b by (intro fl_compute) simp_all
  then show ?thesis by (simp add: x_def j pow2_add)
qed

lemma fl_exact: "\<bar>m\<bar> < 2 ^ 53 \<Longrightarrow> fl (of_int m * pow2 k) = of_int m * pow2 k"
  using fl_exact_pos[of m k] fl_exact_pos[of "- m" k] fl_uminus[of "of_int m * pow2 k"]
  by (cases m "0::int" rule: linorder_cases) (auto simp: fl_def)

lemma fl_int: "\<bar>m\<bar> < 2 ^ 53 \<Longrightarrow> fl (of_int m) = of_int m"
  using fl_exact[of m 0] by simp

lemma fl_power: "fl (2 ^ n) = 2 ^ n"
  using fl_exact[of 1 "int n"] by simp

lemma pow_loop_two: "pow_loop i (2 ^ a) (2 ^ b) = 2 ^ (a * i + b)"
proof (induction i arbitrary: a b rule: less_induct)
  case (less i)
  show ?case
  proof (cases "i = 0")
    case True then show ?thesis by (simp add: pow_loop.simps)
  next
    case False
    have "(2::rat) ^ a * 2 ^ a = 2 ^ (2 * a)" "(2::rat) ^ b * 2 ^ a = 2 ^ (a + b)"
      by (simp_all flip: power_add add: mult_2 add.commute)
    then have "pow_loop i (2 ^ a) (2 ^ b) =
        pow_loop (i div 2) (2 ^ (2 * a)) (2 ^ (if odd i then a + b else b))"
      using False by (subst pow_loop.simps) (simp add: fl_power)
    also have "\<dots> = 2 ^ (2 * a * (i div 2) + (if odd i then a + b else b))"
      by (rule less.IH) (use False in simp)
    also have "2 * a * (i div 2) + (if odd i then a + b else b) = a * i + b"
      by (cases "even i") (auto elim!: evenE oddE simp: algebra_simps)
    finally show ?thesis .
  qed
qed

lemma go_pow_two: "go_pow 2 n = 2 ^ n"
  using pow_loop_two[of n 1 0] by (simp add: go_pow_def)

section \<open>Facts on the policy\<close>

lemma jitter_factor_const: "jitter_factor nanos = - 1"
proof -
  have "even (sint (2 * nanos))" by transfer (simp add: even_signed_take_bit_iff)
  then have "\<bar>sint (2 * nanos)\<bar> mod 2 = 0" by (metis abs_dvd_iff even_iff_mod_2_eq_zero dvd_abs_iff)
  then show ?thesis by (simp add: jitter_factor_def Let_def)
qed

lemma fl_tenth:
  "fl (1000000000 * float_tenth) = 100000000" "fl (2000000000 * float_tenth) = 200000000"
  "fl (4000000000 * float_tenth) = 400000000" "fl (8000000000 * float_tenth) = 800000000"
  "fl (16000000000 * float_tenth) = 1600000000" "fl (30000000000 * float_tenth) = 3000000000"
  using fl_compute[of "1000000000 * float_tenth" "- 26" "100000000 * 2 ^ 26"]
    fl_compute[of "2000000000 * float_tenth" "- 25" "200000000 * 2 ^ 25"]
    fl_compute[of "4000000000 * float_tenth" "- 24" "400000000 * 2 ^ 24"]
    fl_compute[of "8000000000 * float_tenth" "- 23" "800000000 * 2 ^ 23"]
    fl_compute[of "16000000000 * float_tenth" "- 22" "1600000000 * 2 ^ 22"]
    fl_compute[of "30000000000 * float_tenth" "- 21" "3000000000 * 2 ^ 21"]
  by (simp_all add: pow2_def float_tenth_def)

lemma trunc_int [simp]: "trunc (of_int n) = n"
  by (simp add: trunc_def flip: of_int_minus)

lemma default_delay_of:
  assumes "d \<in> {1, 2, 4, 8, 16, 30}"
  shows "(let dur = trunc (of_int (d * 1000000000));
       jitter = trunc (fl (fl (fl (of_int dur) * float_tenth) * of_int (jitter_factor nanos)));
       total = dur + jitter in if total < 0 then b else total) = d * 900000000"
proof -
  have "fl (of_int (d * 1000000000)) = rat_of_int (d * 1000000000)" using assms by (intro fl_int) auto
  moreover have "fl (of_int (d * 1000000000) * float_tenth) = rat_of_int (d * 100000000)"
    using assms fl_tenth by auto
  moreover have "fl (- of_int (d * 100000000)) = - rat_of_int (d * 100000000)"
    using assms fl_int[of "- (d * 100000000)"] by auto
  moreover have "trunc (- rat_of_int (d * 100000000)) = - (d * 100000000)"
    using trunc_int[of "- (d * 100000000)"] by simp
  ultimately show ?thesis using assms
    by (simp only: Let_def jitter_factor_const trunc_int of_int_minus of_int_1 mult_minus_right
        mult_1_right) auto
qed

lemma default_uncut:
  "fl (fl (of_int (BaseDelay DefaultRetryConfig)) * go_pow (BackoffFactor DefaultRetryConfig) n) =
     1000000000 * 2 ^ n"
  using fl_exact[of 1000000000 "int n"] fl_int[of 1000000000]
  by (simp add: DefaultRetryConfig_def time_second_def go_pow_two)

lemma max_delay: "fl (of_int (MaxDelay DefaultRetryConfig)) = of_int (30 * 1000000000)"
  using fl_int[of 30000000000] by (simp add: DefaultRetryConfig_def time_second_def)

lemma default_delay_cases:
  assumes "0 < attempt"
  shows "CalculateDelay nanos DefaultRetryConfig attempt =
    (if attempt \<le> 5 then 2 ^ nat (attempt - 1) * 900000000 else 30 * 900000000)"
proof (cases "attempt \<le> 5")
  case True
  then have a: "attempt \<in> {1, 2, 3, 4, 5}" using assms by auto
  then have "1000000000 * 2 ^ nat (attempt - 1) = rat_of_int (2 ^ nat (attempt - 1) * 1000000000)"
    "\<not> 1000000000 * 2 ^ nat (attempt - 1) > rat_of_int (30 * 1000000000)"
    "(2::int) ^ nat (attempt - 1) \<in> {1, 2, 4, 8, 16, 30}" by auto
  moreover have "Jitter DefaultRetryConfig" by (simp add: DefaultRetryConfig_def)
  ultimately show ?thesis
    using default_delay_of[of "2 ^ nat (attempt - 1)" nanos] assms True
    by (simp only: CalculateDelay_def default_uncut max_delay Let_def if_True if_False not_le) simp
next
  case False
  have "(2::rat) ^ 5 \<le> 2 ^ nat (attempt - 1)" using False by (intro power_increasing) auto
  then have "1000000000 * 2 ^ nat (attempt - 1) > rat_of_int (30 * 1000000000)" by simp
  moreover have "Jitter DefaultRetryConfig" by (simp add: DefaultRetryConfig_def)
  ultimately show ?thesis
    using default_delay_of[of 30 nanos] assms False
    by (simp only: CalculateDelay_def default_uncut max_delay Let_def if_True if_False not_le) simp
qed

text \<open>The calls of the operation, written to a log beside the state.\<close>

definition logged :: "'s operation \<Rightarrow> ((goerr + unit) list \<times> 's) operation" where
  "logged operation = (\<lambda>(ls, s). case operation s of (r, s') \<Rightarrow> (r, (ls @ [r], s')))"

definition keep_log :: "'s pause \<Rightarrow> ('l \<times> 's) pause" where
  "keep_log pause = (\<lambda>d (ls, s). case pause d s of (c, s') \<Rightarrow> (c, (ls, s')))"

definition retry_outcome ::
  "retry_config \<Rightarrow> (goerr \<Rightarrow> int \<Rightarrow> bool) \<Rightarrow> str \<Rightarrow> (goerr + unit) list \<Rightarrow> goerr + unit \<Rightarrow> bool" where
  "retry_outcome eh again operationName ls r \<longleftrightarrow>
     ls \<noteq> [] \<and> int (length ls) \<le> MaxRetries eh + 1 \<and>
     (r = Inr () \<longleftrightarrow> last ls = Inr ()) \<and>
     (\<forall>e. last ls = Inl e \<longrightarrow>
        r = Inl (attempts_error eh operationName (Some e)) \<and>
          (\<not> again e (int (length ls) - 1) \<or> int (length ls) = MaxRetries eh + 1) \<or>
        again e (int (length ls) - 1) \<and>
          (\<exists>c. r = Inl (Wrapf ''operation cancelled during retry: '' c)))"

lemma retry_loop_log:
  assumes "attempt = int (length xs)" and "attempt \<le> MaxRetries eh"
    and "\<forall>i<length xs. \<exists>e. xs ! i = Inl e \<and> again e (int i)"
  shows "case retry_loop eh again (logged operation) (keep_log pause) (\<lambda>(ls, s). nanos s)
           operationName attempt lastErr (xs, s) of
         (r, (ls, s')) \<Rightarrow> retry_outcome eh again operationName ls r \<and>
           (\<forall>i<length ls - 1. \<exists>e. ls ! i = Inl e \<and> again e (int i)) \<and>
           retry_loop eh again operation pause nanos operationName attempt lastErr s = (r, s')"
  using assms
proof (induction "nat (MaxRetries eh - attempt)" arbitrary: attempt xs s lastErr rule: less_induct)
  case less
  obtain r1 s1 where op: "operation s = (r1, s1)" by fastforce
  have lop: "logged operation (xs, s) = (r1, (xs @ [r1], s1))" by (simp add: logged_def op)
  let ?d = "CalculateDelay (nanos s1) eh (attempt + 1)"
  obtain c s2 where pa: "pause ?d s1 = (c, s2)" by fastforce
  have lpa: "keep_log pause ?d (xs @ [r1], s1) = (c, (xs @ [r1], s2))" by (simp add: keep_log_def pa)
  have prev: "\<forall>i<length (xs @ [r1]) - 1. \<exists>e. (xs @ [r1]) ! i = Inl e \<and> again e (int i)"
    using less.prems by (auto simp: nth_append)
  show ?case
  proof (cases "\<exists>e. r1 = Inl e \<and> again e attempt \<and> attempt \<noteq> MaxRetries eh \<and> c = None")
    case True
    then obtain e where e: "r1 = Inl e" "again e attempt" "attempt \<noteq> MaxRetries eh" "c = None" by blast
    have "\<forall>i<length (xs @ [r1]). \<exists>e. (xs @ [r1]) ! i = Inl e \<and> again e (int i)"
      using less.prems e by (auto simp: nth_append less_Suc_eq)
    moreover have "attempt + 1 = int (length (xs @ [r1]))" "attempt + 1 \<le> MaxRetries eh"
      "nat (MaxRetries eh - (attempt + 1)) < nat (MaxRetries eh - attempt)"
      using less.prems e by auto
    ultimately show ?thesis
      using less.hyps[of "attempt + 1" "xs @ [r1]" "Some e" s2] less.prems(2) e op lop pa lpa
      by (subst (1 2) retry_loop.simps) simp
  next
    case False
    then show ?thesis
      using less.prems prev op lop pa lpa
      by (subst (1 2) retry_loop.simps) (cases r1; cases c; auto simp: retry_outcome_def)
  qed
qed

lemma category_of_reason:
  assumes "err_reason e = Some r" and "r \<noteq> OtherReason"
  shows "CategorizeError (Some e) = CategorizeError (Some (ApiError r []))"
  using assms by (cases r) (simp_all add: CategorizeError_def is_reason_def)

section \<open>Properties\<close>

text \<open>
  C25: a retry run makes at least one and at most \<open>MaxRetries + 1\<close> calls of the operation.
  Every call but the last failed with an error of a retryable category; the run succeeds
  exactly if its last call did; and a run that fails was cancelled while it waited, or ended
  with an error that is not to be retried, or used all its attempts.
\<close>

theorem retry_with_backoff_calls:
  assumes "0 \<le> MaxRetries eh"
  shows "case RetryWithBackoff eh (logged operation) (keep_log pause) (\<lambda>(ls, s). nanos s)
           operationName ([], s) of
         (r, (ls, s')) \<Rightarrow>
           retry_outcome eh (\<lambda>err. ShouldRetry eh (Some err)) operationName ls r \<and>
           (\<forall>i<length ls - 1. \<exists>e. ls ! i = Inl e \<and> ShouldRetry eh (Some e) (int i)) \<and>
           RetryWithBackoff eh operation pause nanos operationName s = (r, s')"
  unfolding RetryWithBackoff_def using assms by (intro retry_loop_log) auto

definition third_time_lucky :: "nat \<Rightarrow> (goerr + unit) \<times> nat" where
  "third_time_lucky n = (if n < 2 then Inl (ApiError Conflict ''object was modified'') else Inr (), Suc n)"

theorem retry_with_backoff_calls_witness:
  "RetryWithBackoff DefaultRetryConfig (logged third_time_lucky) (keep_log (\<lambda>d s. (None, s)))
     (\<lambda>(ls, s). 0) ''update'' ([], 0) =
   (Inr (), ([Inl (ApiError Conflict ''object was modified''),
      Inl (ApiError Conflict ''object was modified''), Inr ()], 3)) \<and>
   RetryWithBackoff DefaultRetryConfig third_time_lucky (\<lambda>d s. (None, s)) (\<lambda>s. 0) ''update'' 0 = (Inr (), 3)"
proof -
  have run: "RetryWithBackoff DefaultRetryConfig (logged third_time_lucky) (keep_log (\<lambda>d s. (None, s)))
     (\<lambda>(ls, s). 0) ''update'' ([], 0) =
   (Inr (), ([Inl (ApiError Conflict ''object was modified''),
      Inl (ApiError Conflict ''object was modified''), Inr ()], 3))"
    by (simp add: RetryWithBackoff_def retry_loop.simps logged_def third_time_lucky_def
        keep_log_def ShouldRetry_def CategorizeError_def DefaultRetryConfig_def)
  then show ?thesis
    using retry_with_backoff_calls[where eh = DefaultRetryConfig
        and operation = third_time_lucky and pause = "\<lambda>d s. (None, s)" and nanos = "\<lambda>s. 0"
        and operationName = "''update''" and s = 0]
    by (simp add: DefaultRetryConfig_def)
qed

text \<open>
  The jitter is no jitter.  Whatever the clock shows, the default delays are ten percent
  below the exponential ones: 0.9, 1.8, 3.6, 7.2 and 14.4 seconds for the attempts one to
  five, and 27 seconds (not the 30 of \<open>MaxDelay\<close>) from then on.
\<close>

theorem default_backoff_delays:
  "CalculateDelay nanos DefaultRetryConfig attempt =
     (if attempt \<le> 0 then time_second
      else if attempt \<le> 5 then 2 ^ nat (attempt - 1) * 900 * time_millisecond
      else 27 * time_second)"
  using default_delay_cases[of attempt nanos]
  by (cases "attempt \<le> 0")
     (simp_all add: CalculateDelay_def DefaultRetryConfig_def time_second_def time_millisecond_def)

text \<open>
  Wrapping an API error with \<open>%w\<close> does not change its category.  An error that is neither
  an API error nor a \<open>net.Error\<close> and whose text holds the letters \<open>dns\<close> in any case, as those
  of the key validator about DNS names and labels do, counts as a network error and is retried.
\<close>

theorem error_categories:
  "(err_reason e \<noteq> None \<and> err_reason e \<noteq> Some OtherReason \<longrightarrow>
    CategorizeError (Some (Wrapf p e)) = CategorizeError (Some e)) \<and>
   (err_reason e = None \<and> (\<nexists>t s. e = NetError t s) \<and> str_contains (to_lower (err_text e)) ''dns'' \<longrightarrow>
    CategorizeError (Some e) = ErrorCategoryNetwork \<and> ShouldRetry DefaultRetryConfig (Some e) 0)"
proof
  show "err_reason e \<noteq> None \<and> err_reason e \<noteq> Some OtherReason \<longrightarrow>
    CategorizeError (Some (Wrapf p e)) = CategorizeError (Some e)"
    using category_of_reason[of e] category_of_reason[of "Wrapf p e"] by auto
  have "isNetworkError e" if "\<nexists>t s. e = NetError t s" "str_contains (to_lower (err_text e)) ''dns''"
    using that by (cases e) (auto simp: isNetworkError_def networkPatterns_def Let_def)
  then show "err_reason e = None \<and> (\<nexists>t s. e = NetError t s) \<and>
      str_contains (to_lower (err_text e)) ''dns'' \<longrightarrow>
    CategorizeError (Some e) = ErrorCategoryNetwork \<and> ShouldRetry DefaultRetryConfig (Some e) 0"
    by (auto simp: CategorizeError_def is_reason_def ShouldRetry_def DefaultRetryConfig_def)
qed

lemma lower_dns: "to_lower ''DNS name contains invalid characters'' = ''dns name contains invalid characters''"
  by (simp add: to_lower_ascii lower_char_def) code_simp

theorem error_categories_witness:
  "CategorizeError (Some (Wrapf ''failed to get resource: '' (ApiError NotFound ''gone''))) =
     ErrorCategoryResourceNotFound \<and>
   ShouldRetry DefaultRetryConfig (Some (Errorf ''DNS name contains invalid characters'')) 0"
proof
  show "CategorizeError (Some (Wrapf ''failed to get resource: '' (ApiError NotFound ''gone''))) =
     ErrorCategoryResourceNotFound"
    using error_categories[of "ApiError NotFound ''gone''" "''failed to get resource: ''"]
    by (simp add: CategorizeError_def)
  show "ShouldRetry DefaultRetryConfig (Some (Errorf ''DNS name contains invalid characters'')) 0"
    using error_categories[of "Errorf ''DNS name contains invalid characters''"]
    by (simp add: lower_dns str_contains_def)
qed

end
