(* ===== verification/Go_Regex.thy ===== *)
theory Go_Regex
  imports Prelude
begin

text \<open>
  The regular expressions of the sources that are matched against a whole string (package
  \<open>regexp\<close>, patterns between \<open>^\<close> and \<open>$\<close>): syntax, language, and a matcher by
  derivatives that computes.  \<open>rx_match_lang\<close> says the matcher decides the language.
\<close>

datatype rx = Zero | Eps | Cls "char \<Rightarrow> bool" | Sq rx rx | Alt rx rx | Star rx

abbreviation Opt :: "rx \<Rightarrow> rx" where
  "Opt r \<equiv> Alt Eps r"

abbreviation Plus :: "rx \<Rightarrow> rx" where
  "Plus r \<equiv> Sq r (Star r)"

fun lang :: "rx \<Rightarrow> str set" where
  "lang Zero = {}"
| "lang Eps = {[]}"
| "lang (Cls P) = {[c] | c. P c}"
| "lang (Sq r s) = {u @ v | u v. u \<in> lang r \<and> v \<in> lang s}"
| "lang (Alt r s) = lang r \<union> lang s"
| "lang (Star r) = {concat ws | ws. set ws \<subseteq> lang r}"

fun nullable :: "rx \<Rightarrow> bool" where
  "nullable Zero = False"
| "nullable Eps = True"
| "nullable (Cls P) = False"
| "nullable (Sq r s) = (nullable r \<and> nullable s)"
| "nullable (Alt r s) = (nullable r \<or> nullable s)"
| "nullable (Star r) = True"

fun deriv :: "char \<Rightarrow> rx \<Rightarrow> rx" where
  "deriv c Zero = Zero"
| "deriv c Eps = Zero"
| "deriv c (Cls P) = (if P c then Eps else Zero)"
| "deriv c (Sq r s) =
     (if nullable r then Alt (Sq (deriv c r) s) (deriv c s) else Sq (deriv c r) s)"
| "deriv c (Alt r s) = Alt (deriv c r) (deriv c s)"
| "deriv c (Star r) = Sq (deriv c r) (Star r)"

text \<open>\<open>regexp.MustCompile("^r$").MatchString(s)\<close>.\<close>

fun rx_match :: "rx \<Rightarrow> str \<Rightarrow> bool" where
  "rx_match r [] = nullable r"
| "rx_match r (c # s) = rx_match (deriv c r) s"

lemma nullable_iff: "nullable r \<longleftrightarrow> [] \<in> lang r"
  by (induction r) (auto intro: exI[of _ "[]"])

lemma Cons_in_concat:
  assumes "c # s = concat ws"
  shows "\<exists>u vs. (c # u) \<in> set ws \<and> set vs \<subseteq> set ws \<and> s = u @ concat vs"
  using assms
proof (induction ws)
  case (Cons w ws)
  show ?case
  proof (cases w)
    case Nil
    with Cons.prems have "c # s = concat ws" by simp
    from Cons.IH[OF this] show ?thesis by auto
  next
    case (Cons d u)
    with Cons.prems show ?thesis by (intro exI[of _ u] exI[of _ ws]) auto
  qed
qed simp

lemma deriv_lang: "s \<in> lang (deriv c r) \<longleftrightarrow> c # s \<in> lang r"
proof (induction r arbitrary: s)
  case (Sq r1 r2)
  have "c # s \<in> lang (Sq r1 r2) \<longleftrightarrow>
      (\<exists>u v. s = u @ v \<and> c # u \<in> lang r1 \<and> v \<in> lang r2) \<or> ([] \<in> lang r1 \<and> c # s \<in> lang r2)"
    by (auto simp: Cons_eq_append_conv)
  then show ?case
    by (auto simp: Sq nullable_iff)
next
  case (Star r)
  show ?case
  proof
    assume "s \<in> lang (deriv c (Star r))"
    then obtain u ws where "c # u \<in> lang r" "set ws \<subseteq> lang r" "s = u @ concat ws"
      using Star by auto
    then show "c # s \<in> lang (Star r)"
      by (auto intro!: exI[of _ "(c # u) # ws"])
  next
    assume "c # s \<in> lang (Star r)"
    then show "s \<in> lang (deriv c (Star r))"
      using Star by (auto dest!: Cons_in_concat) blast
  qed
qed auto

lemma rx_match_lang: "rx_match r s \<longleftrightarrow> s \<in> lang r"
  by (induction s arbitrary: r) (auto simp: nullable_iff deriv_lang)

lemma rx_match_Zero [simp]: "rx_match Zero s = False"
  by (simp add: rx_match_lang)

lemma lang_Star_Cls: "lang (Star (Cls P)) = {s. \<forall>c\<in>set s. P c}"
proof -
  have "\<exists>ws. s = concat ws \<and> set ws \<subseteq> {[c] | c. P c}" if "\<forall>c\<in>set s. P c" for s
    using that by (intro exI[of _ "map (\<lambda>c. [c]) s"]) auto
  then show ?thesis by fastforce
qed

lemma lang_Sq_Cls_Cons: "c # t \<in> lang (Sq (Cls P) r) \<longleftrightarrow> P c \<and> t \<in> lang r"
  unfolding deriv_lang[symmetric] by simp

lemma lang_Sq_Cls_snoc: "s @ [z] \<in> lang (Sq r (Cls P)) \<longleftrightarrow> s \<in> lang r \<and> P z"
  by auto

text \<open>The shape \<open>[A]([B]*[A])?\<close> of the DNS patterns, for \<open>A\<close> inside \<open>B\<close>.\<close>

definition bracketed :: "(char \<Rightarrow> bool) \<Rightarrow> (char \<Rightarrow> bool) \<Rightarrow> rx" where
  "bracketed A B = Sq (Cls A) (Opt (Sq (Star (Cls B)) (Cls A)))"

lemma rx_match_bracketed:
  assumes "\<And>c. A c \<Longrightarrow> B c"
  shows "rx_match (bracketed A B) s \<longleftrightarrow>
     s \<noteq> [] \<and> A (hd s) \<and> A (last s) \<and> (\<forall>c\<in>set s. B c)"
proof (cases s)
  case (Cons a t)
  show ?thesis
  proof (cases t rule: rev_cases)
    case Nil
    then show ?thesis
      using Cons assms by (auto simp: rx_match_lang bracketed_def)
  next
    case (snoc m z)
    have "s \<in> lang (bracketed A B) \<longleftrightarrow> A a \<and> m @ [z] \<in> lang (Sq (Star (Cls B)) (Cls A))"
      using Cons snoc
      by (simp add: bracketed_def lang_Sq_Cls_Cons del: lang.simps)
         (simp add: lang.simps(2,5) del: lang.simps(1,3,4,6))
    also have "m @ [z] \<in> lang (Sq (Star (Cls B)) (Cls A)) \<longleftrightarrow> m \<in> lang (Star (Cls B)) \<and> A z"
      by (rule lang_Sq_Cls_snoc)
    finally show ?thesis
      using Cons snoc assms by (auto simp: rx_match_lang lang_Star_Cls simp del: lang.simps)
  qed
qed (auto simp: rx_match_lang bracketed_def)

text \<open>Character classes of the patterns.\<close>

definition in_range :: "nat \<Rightarrow> nat \<Rightarrow> char \<Rightarrow> bool" where
  "in_range lo hi c = (lo \<le> (of_char c :: nat) \<and> (of_char c :: nat) \<le> hi)"

definition lower_alnum :: "char \<Rightarrow> bool" where
  "lower_alnum c = (in_range 97 122 c \<or> in_range 48 57 c)"

definition alnum :: "char \<Rightarrow> bool" where
  "alnum c = (lower_alnum c \<or> in_range 65 90 c)"

end
