(* ===== verification/Security_Validator.thy ===== *)
theory Security_Validator
  imports Go_Regex
begin

text \<open>
  \<open>internal/security/validator.go\<close>: which annotation keys and values a rule may write.
\<close>

section \<open>The validator\<close>

record annotation_validator =
  AllowedPrefixes :: "str list"
  DeniedPrefixes :: "str list"
  RequiredPrefix :: str
  MaxKeyLength :: int
  MaxValueLength :: int

definition NewAnnotationValidator :: annotation_validator where
  "NewAnnotationValidator = \<lparr>
     AllowedPrefixes = [''app.kubernetes.io/'', ''scheduler.k8s.io/'', ''example.com/''],
     DeniedPrefixes = [''kubernetes.io/'', ''k8s.io/'', ''kubectl.kubernetes.io/'',
       ''node.kubernetes.io/'', ''volume.kubernetes.io/'', ''service.kubernetes.io/'',
       ''endpoints.kubernetes.io/'', ''endpointslice.kubernetes.io/'',
       ''networking.kubernetes.io/'', ''policy/'', ''security.kubernetes.io/'',
       ''admission.kubernetes.io/'', ''authorization.kubernetes.io/'',
       ''authentication.kubernetes.io/'', ''rbac.authorization.kubernetes.io/'',
       ''apiserver.kubernetes.io/'', ''controller.kubernetes.io/'',
       ''scheduler.kubernetes.io/'', ''kubelet.kubernetes.io/'',
       ''kube-proxy.kubernetes.io/'', ''cloud.kubernetes.io/'',
       ''cluster-autoscaler.kubernetes.io/'', ''node-restriction.kubernetes.io/''],
     RequiredPrefix = ''scheduler.k8s.io/managed-'',
     MaxKeyLength = 253,
     MaxValueLength = 65536 \<rparr>"

definition quoted :: "str \<Rightarrow> str" where
  "quoted s = [CHR 0x27] @ s @ [CHR 0x27]"

section \<open>DNS names\<close>

definition dnsNameRegex :: rx where
  "dnsNameRegex =
     bracketed lower_alnum (\<lambda>c. lower_alnum c \<or> c = CHR ''-'' \<or> c = CHR ''.'')"

definition dnsLabelRegex :: rx where
  "dnsLabelRegex = bracketed lower_alnum (\<lambda>c. lower_alnum c \<or> c = CHR ''-'')"

definition validateDNSName :: "str \<Rightarrow> goerr + unit" where
  "validateDNSName name =
     and_then (check_that (\<not> (length name = 0 \<or> length name > 253))
                 (Errorf ''DNS name must be 1-253 characters''))
    (and_then (check_that (rx_match dnsNameRegex name)
                 (Errorf ''DNS name contains invalid characters''))
              (check_that (\<not> str_contains name ''..'')
                 (Errorf ''DNS name cannot contain consecutive dots'')))"

definition validateDNSLabel :: "str \<Rightarrow> goerr + unit" where
  "validateDNSLabel label =
     and_then (check_that (\<not> (length label = 0 \<or> length label > 63))
                 (Errorf ''DNS label must be 1-63 characters''))
              (check_that (rx_match dnsLabelRegex label)
                 (Errorf ''DNS label contains invalid characters''))"

text \<open>\<open>strings.SplitN(key, "/", 2)\<close> cuts at the first slash.\<close>

definition split_n2 :: "char \<Rightarrow> str \<Rightarrow> str list" where
  "split_n2 c s = (case dropWhile (\<lambda>x. x \<noteq> c) s of
     [] \<Rightarrow> [s] | _ # rest \<Rightarrow> [takeWhile (\<lambda>x. x \<noteq> c) s, rest])"

definition wrap_err :: "str \<Rightarrow> goerr + unit \<Rightarrow> goerr + unit" where
  "wrap_err p r = (case r of Inl e \<Rightarrow> Inl (Wrapf p e) | Inr u \<Rightarrow> Inr u)"

lemma wrap_err_ok [simp]: "wrap_err p r = Inr u \<longleftrightarrow> r = Inr u"
  by (auto simp: wrap_err_def split: sum.splits)

lemma wrap_err_simps [simp]:
  "wrap_err p (Inl e) = Inl (Wrapf p e)" "wrap_err p (Inr u) = Inr u"
  by (simp_all add: wrap_err_def)

definition validateDNSSubdomain :: "str \<Rightarrow> goerr + unit" where
  "validateDNSSubdomain key =
     (let (pre, name) = (case split_n2 (CHR ''/'') key of
            [p, n] \<Rightarrow> (p, n) | [n] \<Rightarrow> ([], n) | _ \<Rightarrow> ([], []))
      in and_then
           (if pre \<noteq> [] then wrap_err (''invalid prefix '' @ quoted pre @ '': '') (validateDNSName pre)
            else Inr ())
           (wrap_err (''invalid name '' @ quoted name @ '': '') (validateDNSLabel name)))"

section \<open>Keys, values, maps of annotations\<close>

definition ValidateAnnotationKey :: "annotation_validator \<Rightarrow> str \<Rightarrow> goerr + unit" where
  "ValidateAnnotationKey av key =
     and_then (check_that (key \<noteq> []) (Errorf ''annotation key cannot be empty''))
    (and_then (check_that (\<not> int (length key) > MaxKeyLength av)
        (Errorf (''annotation key too long (max '' @ show_int (MaxKeyLength av) @
                 '' characters): '' @ key)))
    (and_then (first_err (\<lambda>deniedPrefix. check_that (\<not> has_prefix key deniedPrefix)
        (Errorf (''annotation key uses forbidden system prefix '' @ quoted deniedPrefix @
                 '': '' @ key))) (DeniedPrefixes av))
    (and_then (check_that
        (\<not> (RequiredPrefix av \<noteq> [] \<and> \<not> has_prefix key (RequiredPrefix av)))
        (Errorf (''annotation key must start with required prefix '' @
                 quoted (RequiredPrefix av) @ '': '' @ key)))
    (and_then (check_that
        (length (AllowedPrefixes av) > 0 \<longrightarrow>
           list_ex (\<lambda>allowedPrefix. has_prefix key allowedPrefix) (AllowedPrefixes av))
        (Errorf (''annotation key does not match any allowed prefix: '' @ key)))
    (wrap_err ''annotation key format invalid: '' (validateDNSSubdomain key))))))"

definition dangerousPatterns :: "str list" where
  "dangerousPatterns = [''<script'', ''javascript:'', ''data:text/html'', ''vbscript:'',
     ''onload='', ''onerror='', ''onclick='']"

definition control_char :: "char \<Rightarrow> bool" where
  "control_char c = (let n = of_char c :: nat in n < 32 \<and> n \<noteq> 9 \<and> n \<noteq> 10 \<and> n \<noteq> 13)"

definition validateValueContent :: "str \<Rightarrow> goerr + unit" where
  "validateValueContent value =
     and_then (first_err (\<lambda>pattern. check_that (\<not> str_contains (to_lower value) pattern)
        (Errorf (''value contains potentially dangerous pattern: '' @ pattern)))
        dangerousPatterns)
      (first_err (\<lambda>c. check_that (\<not> control_char c)
        (Errorf (''value contains control character (code '' @ show_nat (of_char c) @ '')'')))
        value)"

definition ValidateAnnotationValue :: "annotation_validator \<Rightarrow> str \<Rightarrow> goerr + unit" where
  "ValidateAnnotationValue av value =
     and_then (check_that (\<not> int (length value) > MaxValueLength av)
        (Errorf (''annotation value too long (max '' @ show_int (MaxValueLength av) @
                 '' characters)'')))
      (wrap_err ''annotation value contains forbidden content: '' (validateValueContent value))"

definition ValidateAnnotations ::
  "annotation_validator \<Rightarrow> (str, str) gomap \<Rightarrow> goerr + unit" where
  "ValidateAnnotations av annotations = first_err (\<lambda>(key, value).
     and_then
       (wrap_err (''invalid annotation key '' @ quoted key @ '': '') (ValidateAnnotationKey av key))
       (wrap_err (''invalid annotation value for key '' @ quoted key @ '': '')
         (ValidateAnnotationValue av value))) annotations"

definition IsSystemAnnotation :: "annotation_validator \<Rightarrow> str \<Rightarrow> bool" where
  "IsSystemAnnotation av key = list_ex (\<lambda>deniedPrefix. has_prefix key deniedPrefix) (DeniedPrefixes av)"

definition GetManagedAnnotationKey :: "annotation_validator \<Rightarrow> str \<Rightarrow> str" where
  "GetManagedAnnotationKey av userKey =
     (if RequiredPrefix av = [] then userKey
      else if has_prefix userKey (RequiredPrefix av) then userKey
      else RequiredPrefix av @ userKey)"

definition StripManagedPrefix :: "annotation_validator \<Rightarrow> str \<Rightarrow> str" where
  "StripManagedPrefix av managedKey =
     (if RequiredPrefix av = [] then managedKey
      else if has_prefix managedKey (RequiredPrefix av)
        then trim_prefix managedKey (RequiredPrefix av)
      else managedKey)"

section \<open>What the matchers accept\<close>

definition dns_label :: "str \<Rightarrow> bool" where
  "dns_label s \<longleftrightarrow> 1 \<le> length s \<and> length s \<le> 63 \<and> lower_alnum (hd s) \<and> lower_alnum (last s) \<and>
     (\<forall>c\<in>set s. lower_alnum c \<or> c = CHR ''-'')"

definition dns_name :: "str \<Rightarrow> bool" where
  "dns_name s \<longleftrightarrow> 1 \<le> length s \<and> length s \<le> 253 \<and> lower_alnum (hd s) \<and> lower_alnum (last s) \<and>
     (\<forall>c\<in>set s. lower_alnum c \<or> c = CHR ''-'' \<or> c = CHR ''.'') \<and> \<not> sublist ''..'' s"

lemma validateDNSLabel_ok: "validateDNSLabel s = Inr () \<longleftrightarrow> dns_label s"
  by (auto simp: validateDNSLabel_def dnsLabelRegex_def rx_match_bracketed dns_label_def
      Suc_le_eq)

lemma validateDNSName_ok: "validateDNSName s = Inr () \<longleftrightarrow> dns_name s"
  by (auto simp: validateDNSName_def dnsNameRegex_def rx_match_bracketed dns_name_def
      str_contains_def Suc_le_eq)

lemma split_n2_cases:
  "split_n2 c s = [s] \<and> c \<notin> set s \<or>
   (\<exists>p n. split_n2 c s = [p, n] \<and> s = p @ c # n \<and> c \<notin> set p)"
proof (cases "dropWhile (\<lambda>x. x \<noteq> c) s")
  case Nil
  then have "split_n2 c s = [s]" unfolding split_n2_def Nil by simp
  moreover have "c \<notin> set s" using Nil by (auto simp: dropWhile_eq_Nil_conv)
  ultimately show ?thesis by blast
next
  case (Cons d r)
  then have "d = c" by (metis (mono_tags) hd_dropWhile list.distinct(1) list.sel(1))
  moreover have "s = takeWhile (\<lambda>x. x \<noteq> c) s @ d # r"
    using Cons takeWhile_dropWhile_id by metis
  moreover have "c \<notin> set (takeWhile (\<lambda>x. x \<noteq> c) s)"
    by (auto dest: set_takeWhileD)
  ultimately show ?thesis using Cons by (auto simp: split_n2_def)
qed

lemma split_n2_slash: "c \<notin> set p \<Longrightarrow> split_n2 c (p @ c # n) = [p, n]"
  by (induction p) (auto simp: split_n2_def split: list.splits)

text \<open>A key is a DNS label, alone or after a (possibly empty) DNS name and a slash.\<close>

definition dns_key :: "str \<Rightarrow> bool" where
  "dns_key key \<longleftrightarrow> dns_label key \<or>
     (\<exists>p n. key = p @ ''/'' @ n \<and> CHR ''/'' \<notin> set p \<and> (p = [] \<or> dns_name p) \<and> dns_label n)"

lemma not_lower_alnum [simp]:
  "\<not> lower_alnum (CHR ''/'')" "\<not> lower_alnum (CHR ''-'')" "\<not> lower_alnum (CHR '' '')"
  "\<not> lower_alnum (CHR ''['')" "\<not> lower_alnum (CHR '']'')" "\<not> lower_alnum (CHR ''.'')"
  by (simp_all add: lower_alnum_def in_range_def)

lemma dns_label_no_slash: "dns_label s \<Longrightarrow> CHR ''/'' \<notin> set s"
  by (auto simp: dns_label_def)

lemma validateDNSSubdomain_ok: "validateDNSSubdomain key = Inr () \<longleftrightarrow> dns_key key"
proof -
  consider (one) "split_n2 (CHR ''/'') key = [key]" "CHR ''/'' \<notin> set key"
    | (two) p n where "split_n2 (CHR ''/'') key = [p, n]" "key = p @ CHR ''/'' # n"
        "CHR ''/'' \<notin> set p"
    using split_n2_cases[of "CHR ''/''" key] by blast
  then show ?thesis
  proof cases
    case one
    then show ?thesis
      by (auto simp: validateDNSSubdomain_def validateDNSLabel_ok dns_key_def)
  next
    case two
    have "dns_key key \<longleftrightarrow> (p = [] \<or> dns_name p) \<and> dns_label n"
    proof
      assume "dns_key key"
      moreover have "\<not> dns_label key" using two(2) dns_label_no_slash by fastforce
      ultimately obtain p' n' where "key = p' @ CHR ''/'' # n'" "CHR ''/'' \<notin> set p'"
        "p' = [] \<or> dns_name p'" "dns_label n'"
        by (auto simp: dns_key_def)
      moreover from this two have "[p, n] = [p', n']"
        using split_n2_slash by metis
      ultimately show "(p = [] \<or> dns_name p) \<and> dns_label n" by simp
    qed (use two in \<open>auto simp: dns_key_def\<close>)
    then show ?thesis
      using two by (auto simp: validateDNSSubdomain_def validateDNSLabel_ok validateDNSName_ok)
  qed
qed

lemma ValidateAnnotationKey_ok:
  "ValidateAnnotationKey av key = Inr () \<longleftrightarrow>
     key \<noteq> [] \<and> int (length key) \<le> MaxKeyLength av \<and> \<not> IsSystemAnnotation av key \<and>
     prefix (RequiredPrefix av) key \<and>
     (AllowedPrefixes av = [] \<or> (\<exists>p\<in>set (AllowedPrefixes av). prefix p key)) \<and>
     dns_key key"
  by (auto simp: ValidateAnnotationKey_def first_err_ok IsSystemAnnotation_def list_ex_iff
      has_prefix_def validateDNSSubdomain_ok)

text \<open>Every byte of an accepted key is one of \<open>a-z 0-9 - . /\<close>.\<close>

definition key_char :: "char \<Rightarrow> bool" where
  "key_char c = (lower_alnum c \<or> c = CHR ''-'' \<or> c = CHR ''.'' \<or> c = CHR ''/'')"

lemma key_char_graphic: "key_char c \<Longrightarrow> graphic c"
  by (auto simp: key_char_def lower_alnum_def in_range_def graphic_def)

lemma key_char_not [simp]:
  "\<not> key_char (CHR '' '')" "\<not> key_char (CHR ''['')" "\<not> key_char (CHR '']'')"
  by (simp_all add: key_char_def)

lemma dns_key_chars: "dns_key key \<Longrightarrow> key \<noteq> [] \<and> (\<forall>c\<in>set key. key_char c)"
  by (auto simp: dns_key_def dns_label_def dns_name_def key_char_def)

lemma ValidateAnnotationKey_chars:
  assumes "ValidateAnnotationKey av key = Inr ()"
  shows "key \<noteq> [] \<and> (\<forall>c\<in>set key. key_char c)"
  using assms by (auto simp: ValidateAnnotationKey_ok dest: dns_key_chars)

lemma ValidateAnnotations_ok:
  "ValidateAnnotations av m = Inr () \<longleftrightarrow>
     (\<forall>(k, v)\<in>set m. ValidateAnnotationKey av k = Inr () \<and> ValidateAnnotationValue av v = Inr ())"
  by (auto simp: ValidateAnnotations_def first_err_ok)

lemma ValidateAnnotationValue_ok:
  "ValidateAnnotationValue av v = Inr () \<longleftrightarrow>
     int (length v) \<le> MaxValueLength av \<and>
     (\<forall>p\<in>set dangerousPatterns. \<not> sublist p (to_lower v)) \<and> (\<forall>c\<in>set v. \<not> control_char c)"
  by (auto simp: ValidateAnnotationValue_def validateValueContent_def first_err_ok
      str_contains_def)

section \<open>Properties\<close>

text \<open>
  C21: the key check of the two DNS patterns, the length bounds and the split at the first slash
  accepts exactly the keys of the grammar: a DNS label, alone or after a slash that an empty
  string or a DNS name precedes.
\<close>

theorem subdomain_grammar: "is_ok (validateDNSSubdomain key) \<longleftrightarrow> dns_key key"
  using validateDNSSubdomain_ok[of key] by (cases "validateDNSSubdomain key") auto

lemma default_denied_none:
  "\<not> IsSystemAnnotation NewAnnotationValidator (''scheduler.k8s.io/managed-'' @ n)"
  by (simp add: IsSystemAnnotation_def NewAnnotationValidator_def has_prefix_def)

lemma managed_dns_key:
  "dns_key (''scheduler.k8s.io/managed-'' @ n) \<longleftrightarrow> dns_label (''managed-'' @ n)"
proof -
  have split: "split_n2 (CHR ''/'') (''scheduler.k8s.io/managed-'' @ n) =
      [''scheduler.k8s.io'', ''managed-'' @ n]"
    using split_n2_slash[of "CHR ''/''" "''scheduler.k8s.io''" "''managed-'' @ n"] by simp
  have "validateDNSName ''scheduler.k8s.io'' = Inr ()" by code_simp
  then show ?thesis
    unfolding validateDNSSubdomain_ok[symmetric] validateDNSLabel_ok[symmetric]
      validateDNSSubdomain_def split by simp
qed

text \<open>
  The default validator accepts exactly the keys \<open>scheduler.k8s.io/managed-\<close> followed by
  1 to 55 lower case letters, digits and hyphens that do not end with a hyphen.  The two other
  allowed prefixes of the default configuration admit no key.
\<close>

theorem default_key_policy:
  "is_ok (ValidateAnnotationKey NewAnnotationValidator key) \<longleftrightarrow>
     (\<exists>n. key = ''scheduler.k8s.io/managed-'' @ n \<and> n \<noteq> [] \<and> length n \<le> 55 \<and>
        lower_alnum (last n) \<and> list_all (\<lambda>c. lower_alnum c \<or> c = CHR ''-'') n)"
proof -
  have label: "dns_label (''managed-'' @ n) \<longleftrightarrow> n \<noteq> [] \<and> length n \<le> 55 \<and>
      lower_alnum (last n) \<and> list_all (\<lambda>c. lower_alnum c \<or> c = CHR ''-'') n" for n
    by (cases "n = []")
       (auto simp: dns_label_def list_all_iff lower_alnum_def in_range_def)
  have "ValidateAnnotationKey NewAnnotationValidator key = Inr () \<longleftrightarrow>
      (\<exists>n. key = ''scheduler.k8s.io/managed-'' @ n \<and> dns_label (''managed-'' @ n))"
  proof
    assume *: "ValidateAnnotationKey NewAnnotationValidator key = Inr ()"
    then obtain n where "key = ''scheduler.k8s.io/managed-'' @ n"
      by (auto simp: ValidateAnnotationKey_ok NewAnnotationValidator_def prefix_def)
    moreover from this * have "dns_label (''managed-'' @ n)"
      using managed_dns_key by (auto simp: ValidateAnnotationKey_ok)
    ultimately show "\<exists>n. key = ''scheduler.k8s.io/managed-'' @ n \<and> dns_label (''managed-'' @ n)"
      by blast
  next
    assume "\<exists>n. key = ''scheduler.k8s.io/managed-'' @ n \<and> dns_label (''managed-'' @ n)"
    then obtain n where n: "key = ''scheduler.k8s.io/managed-'' @ n" "dns_label (''managed-'' @ n)"
      by blast
    then have "length n \<le> 55" "dns_key key" "\<not> IsSystemAnnotation NewAnnotationValidator key"
      using managed_dns_key default_denied_none by (auto simp: dns_label_def)
    with n(1) show "ValidateAnnotationKey NewAnnotationValidator key = Inr ()"
      unfolding ValidateAnnotationKey_ok by (simp add: NewAnnotationValidator_def)
  qed
  then show ?thesis
    unfolding label by (cases "ValidateAnnotationKey NewAnnotationValidator key") auto
qed

text \<open>
  A map of annotations is accepted exactly if each of its keys and each of its values is,
  in whatever order the map is visited.
\<close>

theorem validate_annotations_iff:
  "is_ok (ValidateAnnotations av m) \<longleftrightarrow>
     list_all (\<lambda>(k, v). is_ok (ValidateAnnotationKey av k) \<and> is_ok (ValidateAnnotationValue av v)) m"
proof -
  have ok: "is_ok r \<longleftrightarrow> r = Inr ()" for r :: "goerr + unit" by (cases r) auto
  show ?thesis unfolding ok ValidateAnnotations_ok list_all_iff ..
qed

text \<open>
  Adding the managed prefix gives a key with that prefix, adding it twice changes nothing,
  and stripping gives back the part of the user's key after the prefix.
\<close>

theorem managed_key_roundtrip:
  "has_prefix (GetManagedAnnotationKey av k) (RequiredPrefix av) \<and>
   GetManagedAnnotationKey av (GetManagedAnnotationKey av k) = GetManagedAnnotationKey av k \<and>
   StripManagedPrefix av (GetManagedAnnotationKey av k) =
     (if has_prefix k (RequiredPrefix av) then trim_prefix k (RequiredPrefix av) else k)"
  by (auto simp: GetManagedAnnotationKey_def StripManagedPrefix_def has_prefix_def trim_prefix_def)

end
