(* ===== verification/Annotation_Tracking.thy ===== *)
theory Annotation_Tracking
  imports Security_Validator
begin

text \<open>
  The bookkeeping of \<open>internal/resource/manager.go\<close>: for each rule, a tracking annotation on
  the resource lists the keys the rule has written.  The list is printed with
  \<open>fmt.Sprintf("%v", keys)\<close> and read back with \<open>Trim\<close> and \<open>Split\<close>.
  \<open>tracked\<close> reads it as a set; the operations refine insertion, removal and membership.
\<close>

section \<open>The tracking annotation\<close>

definition trackingKey :: "str \<Rightarrow> str" where
  "trackingKey ruleID = ''scheduler.k8s.io/rule-'' @ ruleID @ ''-annotations''"

text \<open>\<open>strings.Trim(v, "[]")\<close>, then \<open>strings.Split(v, " ")\<close> unless nothing is left.\<close>

definition parseTracking :: "str \<Rightarrow> str list" where
  "parseTracking v = (let v' = trim_chars v ''[]'' in if v' \<noteq> [] then split_on (CHR '' '') v' else [])"

definition trackAnnotationApplication ::
  "(str, str) gomap \<Rightarrow> str \<Rightarrow> str \<Rightarrow> (str, str) gomap" where
  "trackAnnotationApplication annotations key ruleID =
     (let tk = trackingKey ruleID;
          appliedKeys = (case mget annotations tk of Some v \<Rightarrow> parseTracking v | None \<Rightarrow> []);
          found = list_ex (\<lambda>appliedKey. trim_space appliedKey = key) appliedKeys
      in if \<not> found then mput tk (show_strs (appliedKeys @ [key])) annotations
         else annotations)"

definition untrackAnnotationApplication ::
  "(str, str) gomap \<Rightarrow> str \<Rightarrow> str \<Rightarrow> (str, str) gomap" where
  "untrackAnnotationApplication annotations key ruleID =
     (let tk = trackingKey ruleID in
      case mget annotations tk of
        None \<Rightarrow> annotations
      | Some v \<Rightarrow>
          (let v' = trim_chars v ''[]'' in
           if v' = [] then annotations
           else let appliedKeys = split_on (CHR '' '') v';
                    remainingKeys = map trim_space
                      (filter (\<lambda>appliedKey. trim_space appliedKey \<noteq> key) appliedKeys)
                in if remainingKeys \<noteq> [] then mput tk (show_strs remainingKeys) annotations
                   else mdel tk annotations))"

definition wasAnnotationAppliedByRule :: "(str, str) gomap \<Rightarrow> str \<Rightarrow> str \<Rightarrow> bool" where
  "wasAnnotationAppliedByRule annotations key ruleID =
     (case mget annotations (trackingKey ruleID) of
        None \<Rightarrow> False
      | Some v \<Rightarrow> list_ex (\<lambda>appliedKey. trim_space appliedKey = key) (parseTracking v))"

definition GetAppliedAnnotations :: "(str, str) gomap option \<Rightarrow> str \<Rightarrow> str list" where
  "GetAppliedAnnotations annotations ruleID =
     (case annotations of
        None \<Rightarrow> []
      | Some m \<Rightarrow>
          (case mget m (trackingKey ruleID) of
             None \<Rightarrow> []
           | Some v \<Rightarrow> filter (\<lambda>k. k \<noteq> []) (map trim_space (parseTracking v))))"

section \<open>Reading back what was printed\<close>

definition clean_key :: "str \<Rightarrow> bool" where
  "clean_key k \<longleftrightarrow> k \<noteq> [] \<and> (\<forall>c\<in>set k. graphic c \<and> c \<noteq> CHR ''['' \<and> c \<noteq> CHR '']'')"

lemma graphic_space [simp]: "\<not> graphic (CHR '' '')"
  by (simp add: graphic_def)

lemma clean_key_trim [simp]: "clean_key k \<Longrightarrow> trim_space k = k"
  by (simp add: clean_key_def trim_space_all_graphic)

lemma valid_key_clean: "ValidateAnnotationKey av k = Inr () \<Longrightarrow> clean_key k"
  using ValidateAnnotationKey_chars[of av k] by (auto simp: clean_key_def key_char_graphic)

lemma clean_key_ends:
  assumes "clean_key k"
  shows "hd k \<noteq> CHR ''[''" "hd k \<noteq> CHR '']''" "last k \<noteq> CHR ''[''" "last k \<noteq> CHR '']''"
  using assms hd_in_set[of k] last_in_set[of k] by (auto simp: clean_key_def)

lemma hd_join_with: "ks \<noteq> [] \<Longrightarrow> hd ks \<noteq> [] \<Longrightarrow> hd (join_with sep ks) = hd (hd ks)"
  by (cases "(sep, ks)" rule: join_with.cases) auto

lemma last_join_with:
  "ks \<noteq> [] \<Longrightarrow> last ks \<noteq> [] \<Longrightarrow> join_with sep ks \<noteq> [] \<and> last (join_with sep ks) = last (last ks)"
  by (induction sep ks rule: join_with.induct) auto

lemma trim_chars_brackets:
  assumes "s \<noteq> []" and "hd s \<notin> set cs" and "last s \<notin> set cs" and "a \<in> set cs" and "b \<in> set cs"
  shows "trim_chars (a # s @ [b]) cs = s"
proof -
  have "dropWhile (\<lambda>c. c \<in> set cs) (a # s @ [b]) = s @ [b]"
    using assms by (cases s) auto
  moreover have "dropWhile (\<lambda>c. c \<in> set cs) (b # rev s) = rev s"
    using assms by (cases s rule: rev_cases) auto
  ultimately show ?thesis by (simp add: trim_chars_def)
qed

lemma parse_show [string_simps]:
  assumes "ks \<noteq> []" and "\<forall>k\<in>set ks. clean_key k"
  shows "parseTracking (show_strs ks) = ks"
proof -
  let ?j = "join_with '' '' ks"
  have h: "clean_key (hd ks)" "clean_key (last ks)" using assms by auto
  have j: "?j \<noteq> []" "hd ?j = hd (hd ks)" "last ?j = last (last ks)"
    using assms(1) h hd_join_with[of ks "'' ''"] last_join_with[of ks "'' ''"]
    by (simp_all add: clean_key_def)
  have e: "hd ?j \<notin> set ''[]''" "last ?j \<notin> set ''[]''"
    unfolding j(2,3) using h by (simp_all add: clean_key_ends)
  have "trim_chars (CHR ''['' # ?j @ [CHR '']'']) ''[]'' = ?j"
    by (rule trim_chars_brackets[OF j(1) e]) simp_all
  then have "trim_chars (show_strs ks) ''[]'' = ?j"
    by (simp only: show_strs_def append_Cons append_Nil)
  moreover have "\<forall>k\<in>set ks. CHR '' '' \<notin> set k"
    using assms(2) graphic_space unfolding clean_key_def by blast
  ultimately show ?thesis
    using assms(1) j(1) by (simp add: parseTracking_def split_on_join)
qed

section \<open>The abstract view\<close>

definition tracked :: "(str, str) gomap \<Rightarrow> str \<Rightarrow> str set" where
  "tracked m ruleID = (case mget m (trackingKey ruleID) of
     None \<Rightarrow> {} | Some v \<Rightarrow> trim_space ` set (parseTracking v))"

definition tracking_inv :: "(str, str) gomap \<Rightarrow> bool" where
  "tracking_inv m \<longleftrightarrow> (\<forall>r v. mget m (trackingKey r) = Some v \<longrightarrow>
     (\<exists>ks. ks \<noteq> [] \<and> (\<forall>k\<in>set ks. clean_key k) \<and> v = show_strs ks))"

lemma trackingKey_inject [simp]: "trackingKey r = trackingKey r' \<longleftrightarrow> r = r'"
  by (simp add: trackingKey_def)

lemma trackingKey_not_Nil [simp]: "trackingKey r \<noteq> []"
  by (simp add: trackingKey_def)

lemma wasAnnotationAppliedByRule_iff: "wasAnnotationAppliedByRule m k r \<longleftrightarrow> k \<in> tracked m r"
  by (auto simp: wasAnnotationAppliedByRule_def tracked_def list_ex_iff split: option.splits)

lemma tracking_inv_Some:
  assumes "tracking_inv m" and "mget m (trackingKey r) = Some v"
  obtains ks where "ks \<noteq> []" "\<forall>k\<in>set ks. clean_key k" "v = show_strs ks"
    "parseTracking v = ks" "trim_chars v ''[]'' \<noteq> []" "split_on (CHR '' '') (trim_chars v ''[]'') = ks"
    "tracked m r = set ks"
proof -
  obtain ks where ks: "ks \<noteq> []" "\<forall>k\<in>set ks. clean_key k" "v = show_strs ks"
    using assms unfolding tracking_inv_def by blast
  have p: "parseTracking v = ks" using ks by (simp add: parse_show)
  then have t: "trim_chars v ''[]'' \<noteq> []"
    using ks(1) by (auto simp: parseTracking_def Let_def split: if_splits)
  moreover from this p have "split_on (CHR '' '') (trim_chars v ''[]'') = ks"
    by (simp add: parseTracking_def Let_def)
  moreover have "tracked m r = set ks"
    using ks(2) assms(2) p by (auto simp: tracked_def image_iff)
  ultimately show thesis using that ks p by blast
qed

lemma tracked_mput_other [simp]:
  "k \<noteq> trackingKey r \<Longrightarrow> tracked (mput k v m) r = tracked m r"
  by (simp add: tracked_def)

lemma tracked_mdel_other [simp]:
  "k \<noteq> trackingKey r \<Longrightarrow> tracked (mdel k m) r = tracked m r"
  by (simp add: tracked_def)

lemma tracked_mput_show:
  "ks \<noteq> [] \<Longrightarrow> \<forall>k\<in>set ks. clean_key k \<Longrightarrow>
   tracked (mput (trackingKey r) (show_strs ks) m) r' = (if r' = r then set ks else tracked m r')"
  by (auto simp: tracked_def parse_show image_iff)

lemma tracked_mdel_key: "tracked (mdel (trackingKey r) m) r' = (if r' = r then {} else tracked m r')"
  by (simp add: tracked_def)

lemma tracking_inv_mput_show:
  "tracking_inv m \<Longrightarrow> ks \<noteq> [] \<Longrightarrow> \<forall>k\<in>set ks. clean_key k \<Longrightarrow>
   tracking_inv (mput (trackingKey r) (show_strs ks) m)"
  by (auto simp: tracking_inv_def)

lemma tracking_inv_mdel: "tracking_inv m \<Longrightarrow> tracking_inv (mdel k m)"
  by (auto simp: tracking_inv_def)

lemma tracking_inv_mput_other:
  "tracking_inv m \<Longrightarrow> \<forall>r. k \<noteq> trackingKey r \<Longrightarrow> tracking_inv (mput k v m)"
  by (auto simp: tracking_inv_def)

lemma tracking_inv_Nil [simp]: "tracking_inv []"
  by (simp add: tracking_inv_def)

lemma tracked_track:
  assumes "tracking_inv m" and "clean_key k"
  shows "tracked (trackAnnotationApplication m k r) r' =
     (if r' = r then insert k (tracked m r) else tracked m r')"
proof (cases "mget m (trackingKey r)")
  case None
  then show ?thesis
    using assms(2) tracked_mput_show[of "[k]" r m]
    by (simp add: trackAnnotationApplication_def tracked_def)
next
  case (Some v)
  obtain ks where ks: "ks \<noteq> []" "\<forall>k\<in>set ks. clean_key k" "parseTracking v = ks"
    "tracked m r = set ks"
    using tracking_inv_Some[OF assms(1) Some] by metis
  have "list_ex (\<lambda>a. trim_space a = k) ks \<longleftrightarrow> k \<in> set ks"
    using ks(2) by (auto simp: list_ex_iff)
  then show ?thesis
    using ks Some assms(2) tracked_mput_show[of "ks @ [k]" r m]
    by (auto simp: trackAnnotationApplication_def)
qed

lemma tracking_inv_track:
  assumes "tracking_inv m" and "clean_key k"
  shows "tracking_inv (trackAnnotationApplication m k r)"
proof (cases "mget m (trackingKey r)")
  case None
  then show ?thesis
    using assms tracking_inv_mput_show[of m "[k]" r] by (simp add: trackAnnotationApplication_def)
next
  case (Some v)
  obtain ks where "\<forall>k\<in>set ks. clean_key k" "parseTracking v = ks"
    using tracking_inv_Some[OF assms(1) Some] by metis
  then show ?thesis
    using Some assms tracking_inv_mput_show[of m "ks @ [k]" r]
    by (simp add: trackAnnotationApplication_def Let_def)
qed

lemma untrack_cases:
  assumes "tracking_inv m"
  obtains (same) "mget m (trackingKey r) = None" "untrackAnnotationApplication m k r = m"
      "tracked m r = {}"
  | (kept) ks where "ks \<noteq> []" "\<forall>k\<in>set ks. clean_key k" "set ks = tracked m r - {k}"
      "untrackAnnotationApplication m k r = mput (trackingKey r) (show_strs ks) m"
  | (gone) "tracked m r \<subseteq> {k}"
      "untrackAnnotationApplication m k r = mdel (trackingKey r) m"
proof (cases "mget m (trackingKey r)")
  case None
  then show thesis by (intro same) (auto simp: untrackAnnotationApplication_def tracked_def)
next
  case (Some v)
  obtain ks where ks: "\<forall>k\<in>set ks. clean_key k" "trim_chars v ''[]'' \<noteq> []"
    "split_on (CHR '' '') (trim_chars v ''[]'') = ks" "tracked m r = set ks"
    using tracking_inv_Some[OF assms Some] by metis
  let ?rest = "map trim_space (filter (\<lambda>a. trim_space a \<noteq> k) ks)"
  have rest: "set ?rest = set ks - {k}" "\<forall>k\<in>set ?rest. clean_key k"
    using ks(1) by auto
  have eq: "untrackAnnotationApplication m k r =
      (if ?rest \<noteq> [] then mput (trackingKey r) (show_strs ?rest) m else mdel (trackingKey r) m)"
    using Some ks(2,3) by (simp add: untrackAnnotationApplication_def Let_def)
  show thesis
  proof (cases "?rest = []")
    case True
    then have "set ks - {k} = {}" using rest(1) by (metis set_empty)
    then have "tracked m r \<subseteq> {k}" using ks(4) by blast
    moreover have "untrackAnnotationApplication m k r = mdel (trackingKey r) m"
      using eq True by (simp only: simp_thms if_False)
    ultimately show thesis by (rule gone)
  next
    case False
    show thesis
      by (rule kept[of ?rest]) (use False rest ks(4) eq in \<open>simp_all only: simp_thms if_True\<close>)
  qed
qed

lemma tracked_untrack:
  assumes "tracking_inv m"
  shows "tracked (untrackAnnotationApplication m k r) r' =
     (if r' = r then tracked m r - {k} else tracked m r')"
  by (cases rule: untrack_cases[OF assms, of r k])
     (simp_all add: tracked_mput_show tracked_mdel_key)

lemma tracking_inv_untrack:
  assumes "tracking_inv m"
  shows "tracking_inv (untrackAnnotationApplication m k r)"
  by (rule untrack_cases[OF assms, of r k])
     (simp_all add: assms tracking_inv_mput_show tracking_inv_mdel)

lemma mget_track_other:
  "k' \<noteq> trackingKey r \<Longrightarrow> mget (trackAnnotationApplication m k r) k' = mget m k'"
  by (simp add: trackAnnotationApplication_def Let_def)

lemma mget_untrack_other:
  "k' \<noteq> trackingKey r \<Longrightarrow> mget (untrackAnnotationApplication m k r) k' = mget m k'"
  by (simp add: untrackAnnotationApplication_def Let_def split: option.splits)

lemma wf_map_track [simp]: "wf_map m \<Longrightarrow> wf_map (trackAnnotationApplication m k r)"
  by (simp add: trackAnnotationApplication_def Let_def)

lemma wf_map_untrack [simp]: "wf_map m \<Longrightarrow> wf_map (untrackAnnotationApplication m k r)"
  by (simp add: untrackAnnotationApplication_def Let_def split: option.splits)

section \<open>The ledger interface\<close>

text \<open>
  What the resource manager relies on: a ledger of the keys each rule owns, with writes and
  deletes of ordinary entries (keys that are not reserved for the ledger) that leave it alone.
\<close>

locale key_ledger =
  fixes owned :: "'m \<Rightarrow> 'r \<Rightarrow> 'k set"
    and own :: "'m \<Rightarrow> 'k \<Rightarrow> 'r \<Rightarrow> 'm"
    and disown :: "'m \<Rightarrow> 'k \<Rightarrow> 'r \<Rightarrow> 'm"
    and put :: "'k \<Rightarrow> 'v \<Rightarrow> 'm \<Rightarrow> 'm"
    and del :: "'k \<Rightarrow> 'm \<Rightarrow> 'm"
    and sound :: "'m \<Rightarrow> bool"
    and good :: "'k \<Rightarrow> bool"
    and reserved :: "'k \<Rightarrow> bool"
  assumes owned_own: "sound m \<Longrightarrow> good k \<Longrightarrow>
      owned (own m k r) r' = (if r' = r then insert k (owned m r) else owned m r')"
    and owned_disown: "sound m \<Longrightarrow>
      owned (disown m k r) r' = (if r' = r then owned m r - {k} else owned m r')"
    and owned_put: "\<not> reserved k \<Longrightarrow> owned (put k v m) r = owned m r"
    and owned_del: "\<not> reserved k \<Longrightarrow> owned (del k m) r = owned m r"
    and sound_own: "sound m \<Longrightarrow> good k \<Longrightarrow> sound (own m k r)"
    and sound_disown: "sound m \<Longrightarrow> sound (disown m k r)"
    and sound_put: "sound m \<Longrightarrow> \<not> reserved k \<Longrightarrow> sound (put k v m)"
    and sound_del: "sound m \<Longrightarrow> sound (del k m)"
begin

lemma write_and_own:
  assumes "sound m" "good k" "\<not> reserved k"
  shows "sound (own (put k v m) k r)"
    and "owned (own (put k v m) k r) r' = (if r' = r then insert k (owned m r) else owned m r')"
  using assms by (simp_all add: sound_own sound_put owned_own owned_put)

lemma erase_and_disown:
  assumes "sound m" "\<not> reserved k"
  shows "sound (disown (del k m) k r)"
    and "owned (disown (del k m) k r) r' = (if r' = r then owned m r - {k} else owned m r')"
  using assms by (simp_all add: sound_disown sound_del owned_disown owned_del)

lemma sound_write_all:
  assumes "sound m" "\<forall>(k, v)\<in>set kvs. good k \<and> \<not> reserved k"
  shows "sound (fold (\<lambda>(k, v) m. own (put k v m) k r) kvs m)"
  using assms by (induction kvs arbitrary: m) (auto simp: sound_own sound_put)

lemma owned_write_all:
  assumes "sound m" "\<forall>(k, v)\<in>set kvs. good k \<and> \<not> reserved k"
  shows "owned (fold (\<lambda>(k, v) m. own (put k v m) k r) kvs m) r' =
     (if r' = r then fst ` set kvs \<union> owned m r else owned m r')"
  using assms
proof (induction kvs arbitrary: m)
  case (Cons kv kvs)
  obtain k v where [simp]: "kv = (k, v)" by (cases kv)
  from Cons.prems have "sound (own (put k v m) k r)" "good k" "\<not> reserved k"
    by (auto simp: sound_own sound_put)
  then show ?case
    using Cons.IH[of "own (put k v m) k r"] Cons.prems write_and_own(2)[of m k v r] by auto
qed simp

end

definition reserved_key :: "str \<Rightarrow> bool" where
  "reserved_key k = (has_prefix k ''scheduler.k8s.io/rule-'' \<and>
     suffix ''-annotations'' (drop 22 k))"

lemma reserved_key_iff: "reserved_key k \<longleftrightarrow> (\<exists>r. k = trackingKey r)"
proof
  assume "reserved_key k"
  then obtain t where "k = ''scheduler.k8s.io/rule-'' @ t" "suffix ''-annotations'' t"
    by (auto simp: reserved_key_def dest!: has_prefixD)
  then show "\<exists>r. k = trackingKey r"
    by (auto simp: trackingKey_def suffix_def)
qed (auto simp: reserved_key_def trackingKey_def has_prefix_def suffix_def)

interpretation tracking: key_ledger tracked trackAnnotationApplication
    untrackAnnotationApplication mput mdel tracking_inv clean_key reserved_key
  by unfold_locales
     (auto simp: tracked_track tracked_untrack tracking_inv_track tracking_inv_untrack
        tracking_inv_mdel reserved_key_iff intro: tracking_inv_mput_other)

section \<open>Properties\<close>

text \<open>
  The list of keys that the manager prints into a tracking annotation is read back as it
  was, for any non-empty list of keys the security validator accepts.
\<close>

theorem tracking_roundtrip:
  assumes "ks \<noteq> []" and "\<forall>k\<in>set ks. ValidateAnnotationKey av k = Inr ()"
  shows "GetAppliedAnnotations (Some (mput (trackingKey r) (show_strs ks) m)) r = ks"
proof -
  have c: "\<forall>k\<in>set ks. clean_key k" using assms(2) valid_key_clean by blast
  then have "map trim_space ks = ks" "filter (\<lambda>k. k \<noteq> []) ks = ks"
    by (auto simp: clean_key_def map_idI trim_space_all_graphic intro: filter_True)
  with c show ?thesis
    using assms(1) by (simp add: GetAppliedAnnotations_def parse_show)
qed

lemma default_key_examples:
  "ValidateAnnotationKey NewAnnotationValidator ''scheduler.k8s.io/managed-a'' = Inr ()"
  "ValidateAnnotationKey NewAnnotationValidator ''scheduler.k8s.io/managed-b'' = Inr ()"
  by code_simp+

theorem tracking_roundtrip_witness:
  "GetAppliedAnnotations (Some (mput (trackingKey ''ns/r'')
     (show_strs [''scheduler.k8s.io/managed-a'', ''scheduler.k8s.io/managed-b'']) [])) ''ns/r'' =
   [''scheduler.k8s.io/managed-a'', ''scheduler.k8s.io/managed-b'']"
  by (rule tracking_roundtrip[where av = NewAnnotationValidator])
     (simp_all add: default_key_examples)

text \<open>
  C10: recording a key refines insertion into the set of keys the rule owns, removing it
  refines set difference, and the ownership test refines membership; other rules' sets and
  every other annotation are left alone, and the tracking annotations stay well-formed.
\<close>

theorem tracking_refines_sets:
  assumes "tracking_inv m" and "clean_key k"
  shows "tracked (trackAnnotationApplication m k r) r' =
           (if r' = r then insert k (tracked m r) else tracked m r') \<and>
         tracked (untrackAnnotationApplication m k r) r' =
           (if r' = r then tracked m r - {k} else tracked m r') \<and>
         (wasAnnotationAppliedByRule m k r \<longleftrightarrow> k \<in> tracked m r) \<and>
         tracking_inv (trackAnnotationApplication m k r) \<and>
         tracking_inv (untrackAnnotationApplication m k r) \<and>
         (\<forall>k'. \<not> reserved_key k' \<longrightarrow>
            mget (trackAnnotationApplication m k r) k' = mget m k' \<and>
            mget (untrackAnnotationApplication m k r) k' = mget m k')"
  using assms
  by (auto simp: tracking.owned_own tracking.owned_disown tracking.sound_own
      tracking.sound_disown wasAnnotationAppliedByRule_iff mget_track_other mget_untrack_other
      reserved_key_iff)

lemma clean_key_example: "clean_key ''a'' " "clean_key ''b''"
  by (simp_all add: clean_key_def graphic_def)

theorem tracking_refines_sets_witness:
  "tracked (untrackAnnotationApplication (trackAnnotationApplication [] ''b'' ''r'') ''a'' ''r'') ''r''
     = {''b''}"
proof -
  have "tracking_inv (trackAnnotationApplication [] ''b'' ''r'')"
    "tracked (trackAnnotationApplication [] ''b'' ''r'') ''r'' = {''b''}"
    using tracking_refines_sets[of "[]" "''b''" "''r''" "''r''"] clean_key_example
    by (simp_all add: tracked_def)
  then show ?thesis
    using tracking_refines_sets[OF _ clean_key_example(1), of _ "''r''" "''r''"] by simp
qed

end
