(* ===== verification/Resource_Cache.thy ===== *)
theory Resource_Cache
  imports Rule_Types Annotation_Tracking
begin

text \<open>
  \<open>internal/resource/cache.go\<close>: the query cache of the resource manager.  Resources are values
  of the type \<open>'r\<close>; the deep copies the source makes on the way in and out are the identity on
  values.  Each method runs under the mutex of the cache and is one function of its state.
\<close>

section \<open>State\<close>

record 'r cache_entry =
  ce_Resources :: "'r list"
  ce_LastUpdated :: gotime
  ce_Selector :: str
  ce_Namespace :: str

record 'r resource_cache =
  rc_cache :: "(str, 'r cache_entry) gomap"
  rc_ttl :: duration
  rc_maxEntries :: int
  rc_hits :: int64
  rc_misses :: int64
  rc_evictions :: int64

text \<open>
  Library code on selectors: \<open>sel_convert\<close> is \<open>LabelSelectorAsSelector\<close> with the text of
  the selector it gives, \<open>sel_print\<close> the generated \<open>String\<close> of the API type, \<open>sel_matches\<close> the
  test of a set of labels.
\<close>

record selector_lib =
  sel_convert :: "label_selector \<Rightarrow> goerr + str"
  sel_print :: "label_selector \<Rightarrow> str"
  sel_matches :: "label_selector \<Rightarrow> (str, str) gomap \<Rightarrow> bool"

definition NewResourceCache :: "duration \<Rightarrow> int \<Rightarrow> 'r resource_cache" where
  "NewResourceCache ttl maxEntries = \<lparr>rc_cache = [], rc_ttl = ttl, rc_maxEntries = maxEntries,
     rc_hits = 0, rc_misses = 0, rc_evictions = 0\<rparr>"

section \<open>Operations\<close>

definition generateCacheKey :: "selector_lib \<Rightarrow> label_selector \<Rightarrow> str list \<Rightarrow> str \<Rightarrow> str" where
  "generateCacheKey sl selector resourceTypes namespace =
     (let selectorStr =
        (if length (MatchLabels selector) > 0 \<or> length (MatchExpressions selector) > 0
         then (case sel_convert sl selector of Inr s \<Rightarrow> s | Inl _ \<Rightarrow> []) else [])
      in namespace @ '':'' @ selectorStr @ '':'' @ show_strs resourceTypes)"

definition GetCachedResources :: "selector_lib \<Rightarrow> gotime \<Rightarrow> label_selector \<Rightarrow> str list \<Rightarrow> str \<Rightarrow>
    'r resource_cache \<Rightarrow> 'r list option \<times> 'r resource_cache" where
  "GetCachedResources sl now selector resourceTypes namespace rc =
     (let key = generateCacheKey sl selector resourceTypes namespace in
      case mget (rc_cache rc) key of
        None \<Rightarrow> (None, rc\<lparr>rc_misses := rc_misses rc + 1\<rparr>)
      | Some entry \<Rightarrow>
          if now - ce_LastUpdated entry > rc_ttl rc then (None, rc\<lparr>rc_misses := rc_misses rc + 1\<rparr>)
          else (Some (ce_Resources entry), rc\<lparr>rc_hits := rc_hits rc + 1\<rparr>))"

text \<open>The loop over the map keeps the oldest entry so far; an empty key means none yet.\<close>

fun oldest_scan :: "str \<times> gotime \<Rightarrow> (str \<times> 'r cache_entry) list \<Rightarrow> str \<times> gotime" where
  "oldest_scan acc [] = acc"
| "oldest_scan (oldestKey, oldestTime) ((key, entry) # m) =
     (if oldestKey = [] \<or> ce_LastUpdated entry < oldestTime
      then oldest_scan (key, ce_LastUpdated entry) m
      else oldest_scan (oldestKey, oldestTime) m)"

definition zero_time :: gotime where "zero_time = - 62135596800 * time_second"

definition evictOldestEntry :: "'r resource_cache \<Rightarrow> 'r resource_cache" where
  "evictOldestEntry rc =
     (let oldestKey = fst (oldest_scan ([], zero_time) (rc_cache rc)) in
      if oldestKey \<noteq> []
      then rc\<lparr>rc_cache := mdel oldestKey (rc_cache rc), rc_evictions := rc_evictions rc + 1\<rparr>
      else rc)"

definition CacheResources :: "selector_lib \<Rightarrow> gotime \<Rightarrow> label_selector \<Rightarrow> str list \<Rightarrow> str \<Rightarrow>
    'r list \<Rightarrow> 'r resource_cache \<Rightarrow> 'r resource_cache" where
  "CacheResources sl now selector resourceTypes namespace resources rc =
     (let key = generateCacheKey sl selector resourceTypes namespace;
          rc1 = (if int (length (rc_cache rc)) \<ge> rc_maxEntries rc then evictOldestEntry rc else rc)
      in rc1\<lparr>rc_cache := mput key \<lparr>ce_Resources = resources, ce_LastUpdated = now,
           ce_Selector = sel_print sl selector, ce_Namespace = namespace\<rparr> (rc_cache rc1)\<rparr>)"

definition keyContainsResourceType :: "str \<Rightarrow> str \<Rightarrow> bool" where
  "keyContainsResourceType key resourceType = str_contains key resourceType"

text \<open>The keys to delete are collected first, then deleted one by one.\<close>

definition invalid_entry :: "str \<Rightarrow> str \<Rightarrow> str \<times> 'r cache_entry \<Rightarrow> bool" where
  "invalid_entry namespace resourceType = (\<lambda>(key, entry).
     \<not> (namespace \<noteq> [] \<and> ce_Namespace entry \<noteq> namespace) \<and>
     \<not> (resourceType \<noteq> [] \<and> \<not> keyContainsResourceType key resourceType))"

definition mdel_all :: "'k list \<Rightarrow> ('k, 'v) gomap \<Rightarrow> ('k, 'v) gomap" where
  "mdel_all ks m = fold mdel ks m"

definition InvalidateCache :: "str \<Rightarrow> str \<Rightarrow> 'r resource_cache \<Rightarrow> 'r resource_cache" where
  "InvalidateCache namespace resourceType rc =
     (let keysToDelete = map fst (filter (invalid_entry namespace resourceType) (rc_cache rc))
      in rc\<lparr>rc_cache := mdel_all keysToDelete (rc_cache rc)\<rparr>)"

definition InvalidateExpiredEntries :: "gotime \<Rightarrow> 'r resource_cache \<Rightarrow> 'r resource_cache" where
  "InvalidateExpiredEntries now rc =
     (let keysToDelete = map fst (filter (\<lambda>(key, entry). now - ce_LastUpdated entry > rc_ttl rc)
                           (rc_cache rc))
      in rc\<lparr>rc_cache := mdel_all keysToDelete (rc_cache rc),
           rc_evictions := rc_evictions rc + of_nat (length keysToDelete)\<rparr>)"

definition GetCacheStats :: "'r resource_cache \<Rightarrow> int64 \<times> int64 \<times> int64 \<times> int" where
  "GetCacheStats rc = (rc_hits rc, rc_misses rc, rc_evictions rc, int (length (rc_cache rc)))"

definition ClearCache :: "'r resource_cache \<Rightarrow> 'r resource_cache" where
  "ClearCache rc = rc\<lparr>rc_cache := []\<rparr>"

section \<open>Lemmas\<close>

lemma mdel_all_Nil [simp]: "mdel_all [] m = m"
  by (simp add: mdel_all_def)

lemma mget_mdel_all [simp]: "mget (mdel_all ks m) k = (if k \<in> set ks then None else mget m k)"
  by (induction ks arbitrary: m) (auto simp: mdel_all_def)

lemma wf_map_mdel_all [simp]: "wf_map m \<Longrightarrow> wf_map (mdel_all ks m)"
  by (induction ks arbitrary: m) (auto simp: mdel_all_def)

lemma length_mdel_le: "length (mdel k m) \<le> length m"
  by (simp add: mdel_def length_delete_le)

lemma length_mdel_mem: "k \<in> set (mkeys m) \<Longrightarrow> length (mdel k m) < length m"
  by (induction m) (auto simp: mdel_def mkeys_def le_imp_less_Suc length_delete_le)

lemma length_mdel_all: "length (mdel_all ks m) \<le> length m"
proof (induction ks arbitrary: m)
  case (Cons k ks)
  then show ?case using length_mdel_le[of k m] le_trans by (fastforce simp: mdel_all_def)
qed simp

lemma length_mput: "length (mput k v m) = (if mhas m k then length m else Suc (length m))"
  by (induction m) (auto simp: mput_def mhas_def)

lemma generateCacheKey_not_Nil [simp]: "generateCacheKey sl s t ns \<noteq> []"
  by (simp add: generateCacheKey_def)

lemma GetCachedResources_cache [simp]:
  "rc_cache (snd (GetCachedResources sl now s t ns rc)) = rc_cache rc"
  "rc_ttl (snd (GetCachedResources sl now s t ns rc)) = rc_ttl rc"
  "rc_maxEntries (snd (GetCachedResources sl now s t ns rc)) = rc_maxEntries rc"
  by (simp_all add: GetCachedResources_def Let_def split: option.split)

lemma CacheResources_fixed [simp]:
  "rc_ttl (CacheResources sl now s t ns rs rc) = rc_ttl rc"
  "rc_maxEntries (CacheResources sl now s t ns rs rc) = rc_maxEntries rc"
  by (simp_all add: CacheResources_def evictOldestEntry_def Let_def)

section \<open>The oldest entry\<close>

lemma oldest_scan_key:
  "\<forall>p\<in>set m. fst p \<noteq> [] \<Longrightarrow> m \<noteq> [] \<or> fst acc \<noteq> [] \<Longrightarrow> fst (oldest_scan acc m) \<noteq> []"
  by (induction acc m rule: oldest_scan.induct) simp_all

lemma oldest_scan_mem:
  "oldest_scan acc m = acc \<or> oldest_scan acc m \<in> (\<lambda>p. (fst p, ce_LastUpdated (snd p))) ` set m"
  by (induction acc m rule: oldest_scan.induct) auto

lemma oldest_scan_le:
  "\<forall>p\<in>set m. fst p \<noteq> [] \<Longrightarrow> fst acc \<noteq> [] \<Longrightarrow> snd (oldest_scan acc m) \<le> snd acc"
  by (induction acc m rule: oldest_scan.induct) force+

lemma oldest_scan_min:
  "\<forall>p\<in>set m. fst p \<noteq> [] \<Longrightarrow> q \<in> set m \<Longrightarrow> snd (oldest_scan acc m) \<le> ce_LastUpdated (snd q)"
proof (induction acc m rule: oldest_scan.induct)
  case (2 k0 t0 k e m)
  have nonempty: "k \<noteq> []" "\<forall>p\<in>set m. fst p \<noteq> []" using 2(3) by auto
  have head: "snd (oldest_scan (k0, t0) ((k, e) # m)) \<le> ce_LastUpdated e"
    using oldest_scan_le[OF nonempty(2), of "(k, ce_LastUpdated e)"]
      oldest_scan_le[OF nonempty(2), of "(k0, t0)"] nonempty(1) by force
  show ?case
  proof (cases "q \<in> set m")
    case True
    then show ?thesis using 2(1,2) nonempty(2) by simp
  next
    case False
    then have "q = (k, e)" using 2(4) by simp
    then show ?thesis using head by simp
  qed
qed simp

section \<open>Invariant\<close>

definition cache_inv :: "duration \<Rightarrow> 'r resource_cache \<Rightarrow> bool" where
  "cache_inv ttl rc \<longleftrightarrow> rc_ttl rc = ttl \<and> wf_map (rc_cache rc) \<and>
     int (length (rc_cache rc)) \<le> max 1 (rc_maxEntries rc) \<and>
     (\<forall>(k, e)\<in>set (rc_cache rc). CHR '':'' \<notin> set (ce_Namespace e) \<and>
        (\<exists>r. k = ce_Namespace e @ '':'' @ r))"

definition key_entry_ok :: "str \<Rightarrow> 'r cache_entry \<Rightarrow> bool" where
  "key_entry_ok k e \<longleftrightarrow> CHR '':'' \<notin> set (ce_Namespace e) \<and> (\<exists>r. k = ce_Namespace e @ '':'' @ r)"

lemma cache_inv_iff:
  "cache_inv ttl rc \<longleftrightarrow> rc_ttl rc = ttl \<and> wf_map (rc_cache rc) \<and>
     int (length (rc_cache rc)) \<le> max 1 (rc_maxEntries rc) \<and>
     (\<forall>k e. mget (rc_cache rc) k = Some e \<longrightarrow> key_entry_ok k e)"
  by (auto simp: cache_inv_def key_entry_ok_def dest: mget_mem mget_Some_mem split: prod.splits)

lemma cache_inv_smaller:
  assumes "cache_inv ttl rc" and "rc_ttl rc' = ttl" and "rc_maxEntries rc' = rc_maxEntries rc"
    and "rc_cache rc' = mdel_all ks (rc_cache rc)"
  shows "cache_inv ttl rc'"
  unfolding cache_inv_iff
proof (intro conjI allI impI)
  have "int (length (rc_cache rc')) \<le> int (length (rc_cache rc))"
    by (simp add: length_mdel_all assms(4))
  also have "\<dots> \<le> max 1 (rc_maxEntries rc')" using assms(1,3) by (simp add: cache_inv_iff)
  finally show "int (length (rc_cache rc')) \<le> max 1 (rc_maxEntries rc')" .
qed (use assms in \<open>auto simp: cache_inv_iff split: if_splits\<close>)

lemma mdel_mdel_all: "mdel k m = mdel_all [k] m"
  by (simp add: mdel_all_def)

lemma evict_cases:
  assumes "cache_inv ttl rc" and "rc_cache rc \<noteq> []"
  obtains k e where "mget (rc_cache rc) k = Some e"
    "\<forall>k' e'. mget (rc_cache rc) k' = Some e' \<longrightarrow> ce_LastUpdated e \<le> ce_LastUpdated e'"
    "evictOldestEntry rc = rc\<lparr>rc_cache := mdel k (rc_cache rc), rc_evictions := rc_evictions rc + 1\<rparr>"
proof -
  let ?o = "oldest_scan ([], zero_time) (rc_cache rc)"
  have ne: "\<forall>p\<in>set (rc_cache rc). fst p \<noteq> []" using assms(1) by (auto simp: cache_inv_def)
  then have o: "fst ?o \<noteq> []" using oldest_scan_key assms(2) by blast
  then have "?o \<noteq> ([], zero_time)" by (metis fst_conv)
  then obtain p where p: "p \<in> set (rc_cache rc)" "?o = (fst p, ce_LastUpdated (snd p))"
    using oldest_scan_mem[of "([], zero_time)" "rc_cache rc"] by blast
  obtain k e where [simp]: "p = (k, e)" by (cases p)
  have ke: "(k, e) \<in> set (rc_cache rc)" "?o = (k, ce_LastUpdated e)" using p by simp_all
  note min = oldest_scan_min[OF ne, of _ "([], zero_time)"]
  show thesis
  proof
    show "mget (rc_cache rc) k = Some e"
      using ke(1) assms(1) by (auto simp: cache_inv_iff intro: mget_mem)
    show "\<forall>k' e'. mget (rc_cache rc) k' = Some e' \<longrightarrow> ce_LastUpdated e \<le> ce_LastUpdated e'"
      using min ke(2) by (auto dest!: mget_Some_mem)
    show "evictOldestEntry rc = rc\<lparr>rc_cache := mdel k (rc_cache rc), rc_evictions := rc_evictions rc + 1\<rparr>"
      using o ke(2) by (simp add: evictOldestEntry_def)
  qed
qed

lemma evict_inv:
  assumes "cache_inv ttl rc"
  shows "cache_inv ttl (evictOldestEntry rc)"
    and "mget (rc_cache (evictOldestEntry rc)) k = Some e \<Longrightarrow> mget (rc_cache rc) k = Some e"
    and "rc_maxEntries (evictOldestEntry rc) = rc_maxEntries rc"
    and "rc_cache rc \<noteq> [] \<Longrightarrow> length (rc_cache (evictOldestEntry rc)) < length (rc_cache rc)"
proof -
  have *: "cache_inv ttl (evictOldestEntry rc) \<and>
      (mget (rc_cache (evictOldestEntry rc)) k = Some e \<longrightarrow> mget (rc_cache rc) k = Some e) \<and>
      rc_maxEntries (evictOldestEntry rc) = rc_maxEntries rc \<and>
      (rc_cache rc \<noteq> [] \<longrightarrow> length (rc_cache (evictOldestEntry rc)) < length (rc_cache rc))"
  proof (cases "rc_cache rc = []")
    case True
    then show ?thesis using assms by (simp add: evictOldestEntry_def)
  next
    case False
    obtain k' e' where k: "mget (rc_cache rc) k' = Some e'"
      "evictOldestEntry rc = rc\<lparr>rc_cache := mdel k' (rc_cache rc), rc_evictions := rc_evictions rc + 1\<rparr>"
      by (rule evict_cases[OF assms False]) (rule that)
    have "k' \<in> set (mkeys (rc_cache rc))"
      using k(1) mget_None_iff[of "rc_cache rc" k'] by auto
    from length_mdel_mem[OF this] have "length (mdel k' (rc_cache rc)) < length (rc_cache rc)" .
    moreover have "cache_inv ttl (evictOldestEntry rc)"
      by (rule cache_inv_smaller[OF assms, of _ "[k']"])
         (use assms in \<open>simp_all add: k(2) mdel_mdel_all cache_inv_def\<close>)
    ultimately show ?thesis unfolding k(2) by simp
  qed
  then show "cache_inv ttl (evictOldestEntry rc)"
    "mget (rc_cache (evictOldestEntry rc)) k = Some e \<Longrightarrow> mget (rc_cache rc) k = Some e"
    "rc_maxEntries (evictOldestEntry rc) = rc_maxEntries rc"
    "rc_cache rc \<noteq> [] \<Longrightarrow> length (rc_cache (evictOldestEntry rc)) < length (rc_cache rc)" by blast+
qed

lemma CacheResources_get:
  assumes "cache_inv ttl rc"
  shows "mget (rc_cache (CacheResources sl now s t ns rs rc)) (generateCacheKey sl s t ns) =
      Some \<lparr>ce_Resources = rs, ce_LastUpdated = now, ce_Selector = sel_print sl s, ce_Namespace = ns\<rparr>"
    and "k \<noteq> generateCacheKey sl s t ns \<Longrightarrow>
      mget (rc_cache (CacheResources sl now s t ns rs rc)) k = Some e \<Longrightarrow> mget (rc_cache rc) k = Some e"
  using evict_inv(2)[OF assms, of k e]
  by (simp_all add: CacheResources_def Let_def split: if_splits)

lemma cache_inv_CacheResources:
  assumes "cache_inv ttl rc" and "CHR '':'' \<notin> set ns"
  shows "cache_inv ttl (CacheResources sl now s t ns rs rc)"
proof -
  let ?k = "generateCacheKey sl s t ns"
  define rc1 where "rc1 = (if int (length (rc_cache rc)) \<ge> rc_maxEntries rc then evictOldestEntry rc else rc)"
  have inv: "cache_inv ttl rc1" "rc_maxEntries rc1 = rc_maxEntries rc"
    using assms(1) evict_inv by (auto simp: rc1_def)
  have len: "int (length (rc_cache rc1)) < max 1 (rc_maxEntries rc)"
  proof (cases "int (length (rc_cache rc)) \<ge> rc_maxEntries rc")
    case True
    then show ?thesis
      using evict_inv(4)[OF assms(1)] assms(1) True
      by (cases "rc_cache rc = []") (auto simp: rc1_def cache_inv_def evictOldestEntry_def)
  qed (simp add: rc1_def)
  have "length (mput ?k e (rc_cache rc1)) \<le> Suc (length (rc_cache rc1))" for e by (simp add: length_mput)
  then have "int (length (mput ?k e (rc_cache rc1))) \<le> max 1 (rc_maxEntries rc)" for e
    using len by (smt (verit) of_nat_Suc of_nat_mono)
  then show ?thesis
    using inv assms(2) by (simp add: CacheResources_def cache_inv_iff key_entry_ok_def
        generateCacheKey_def flip: rc1_def)
qed

lemma cache_inv_new: "cache_inv ttl (NewResourceCache ttl n)"
  by (simp add: cache_inv_def NewResourceCache_def)

section \<open>The interface of a query cache\<close>

text \<open>
  What the resource manager relies on: an answer is one that was stored for the same query
  within the time to live, and not dropped since.  \<open>look\<close> is a lookup's effect on the cache.
\<close>

datatype ('q, 'x, 'd) cache_event = Looked gotime 'q | Stored gotime 'q 'x | Dropped 'd

locale query_cache =
  fixes hit :: "gotime \<Rightarrow> 'q \<Rightarrow> 'c \<Rightarrow> 'x option"
    and look :: "gotime \<Rightarrow> 'q \<Rightarrow> 'c \<Rightarrow> 'c"
    and store :: "gotime \<Rightarrow> 'q \<Rightarrow> 'x \<Rightarrow> 'c \<Rightarrow> 'c"
    and drop_by :: "'d \<Rightarrow> 'c \<Rightarrow> 'c"
    and same :: "'q \<Rightarrow> 'q \<Rightarrow> bool"
    and covers :: "'d \<Rightarrow> 'q \<Rightarrow> bool"
    and good :: "'q \<Rightarrow> bool"
    and ttl :: duration
    and sound :: "'c \<Rightarrow> bool"
  assumes hit_look: "sound c \<Longrightarrow> hit now' q (look now p c) = hit now' q c"
    and hit_store_same: "sound c \<Longrightarrow> same p q \<Longrightarrow>
      hit now' q (store now p x c) = (if now' - now \<le> ttl then Some x else None)"
    and hit_store_other: "sound c \<Longrightarrow> \<not> same p q \<Longrightarrow> hit now' q (store now p x c) = Some y \<Longrightarrow>
      hit now' q c = Some y"
    and hit_drop: "sound c \<Longrightarrow> good q \<Longrightarrow> hit now' q (drop_by d c) = Some y \<Longrightarrow>
      hit now' q c = Some y \<and> \<not> covers d q"
    and sound_look: "sound c \<Longrightarrow> sound (look now p c)"
    and sound_store: "sound c \<Longrightarrow> good p \<Longrightarrow> sound (store now p x c)"
    and sound_drop: "sound c \<Longrightarrow> sound (drop_by d c)"
begin

primrec apply_event :: "('q, 'x, 'd) cache_event \<Rightarrow> 'c \<Rightarrow> 'c" where
  "apply_event (Looked now q) c = look now q c"
| "apply_event (Stored now q x) c = store now q x c"
| "apply_event (Dropped d) c = drop_by d c"

definition event_ok :: "('q, 'x, 'd) cache_event \<Rightarrow> bool" where
  "event_ok e \<longleftrightarrow> (\<forall>now p x. e = Stored now p x \<longrightarrow> good p)"

lemma sound_events:
  "sound c \<Longrightarrow> \<forall>e\<in>set es. event_ok e \<Longrightarrow> sound (fold apply_event es c)"
proof (induction es arbitrary: c)
  case (Cons e es)
  then show ?case
    by (cases e) (auto simp: sound_look sound_store sound_drop event_ok_def)
qed simp

text \<open>The store that justifies an answer, with no drop that covers the query after it.\<close>

definition justified :: "gotime \<Rightarrow> 'q \<Rightarrow> 'x \<Rightarrow> ('q, 'x, 'd) cache_event list \<Rightarrow> bool" where
  "justified now' q y es \<longleftrightarrow> (\<exists>us now p vs. es = us @ Stored now p y # vs \<and> same p q \<and>
     now' - now \<le> ttl \<and> (\<forall>d. Dropped d \<in> set vs \<longrightarrow> \<not> covers d q))"

lemma justified_snoc:
  "justified now' q y es \<Longrightarrow> (\<forall>d. e = Dropped d \<longrightarrow> \<not> covers d q) \<Longrightarrow> justified now' q y (es @ [e])"
  unfolding justified_def by (elim exE conjE, rule exI, rule exI, rule exI, rule_tac x = "vs @ [e]" in exI) auto

lemma justified_last: "same p q \<Longrightarrow> now' - now \<le> ttl \<Longrightarrow> justified now' q y (es @ [Stored now p y])"
  unfolding justified_def by (rule exI[of _ es], rule exI[of _ now], rule exI[of _ p], rule exI[of _ "[]"]) simp

lemma hits_are_justified:
  assumes "sound c" and "\<forall>now' y. hit now' q c \<noteq> Some y" and "good q"
    and "\<forall>e\<in>set es. event_ok e" and "hit now' q (fold apply_event es c) = Some y"
  shows "justified now' q y es"
  using assms(4,5)
proof (induction es rule: rev_induct)
  case Nil
  then show ?case using assms(2) by simp
next
  case (snoc e es)
  let ?c = "fold apply_event es c"
  have s: "sound ?c" using sound_events[OF assms(1)] snoc.prems(1) by simp
  have keep: ?case if "hit now' q ?c = Some y" "\<forall>d. e = Dropped d \<longrightarrow> \<not> covers d q"
    using snoc that justified_snoc by simp
  have h: "hit now' q (apply_event e ?c) = Some y" using snoc.prems(2) by simp
  show ?case
  proof (cases e)
    case (Looked now p)
    then show ?thesis using h hit_look[OF s] by (intro keep) auto
  next
    case (Dropped d)
    then show ?thesis using h hit_drop[OF s assms(3)] by (intro keep) auto
  next
    case (Stored now p x)
    show ?thesis
    proof (cases "same p q")
      case True
      then show ?thesis
        using h hit_store_same[OF s True] Stored by (auto split: if_splits intro: justified_last)
    next
      case False
      then show ?thesis using h hit_store_other[OF s False] Stored by (intro keep) auto
    qed
  qed
qed

end

section \<open>The cache provides the interface\<close>

type_synonym query = "label_selector \<times> str list \<times> str"

datatype purge = PurgeMatching str str | PurgeExpired gotime | PurgeAll

definition query_key :: "selector_lib \<Rightarrow> query \<Rightarrow> str" where
  "query_key sl = (\<lambda>(s, t, ns). generateCacheKey sl s t ns)"

definition cache_hit :: "selector_lib \<Rightarrow> gotime \<Rightarrow> query \<Rightarrow> 'r resource_cache \<Rightarrow> 'r list option" where
  "cache_hit sl now = (\<lambda>(s, t, ns) rc. fst (GetCachedResources sl now s t ns rc))"

definition cache_look :: "selector_lib \<Rightarrow> gotime \<Rightarrow> query \<Rightarrow> 'r resource_cache \<Rightarrow> 'r resource_cache" where
  "cache_look sl now = (\<lambda>(s, t, ns) rc. snd (GetCachedResources sl now s t ns rc))"

definition cache_store ::
  "selector_lib \<Rightarrow> gotime \<Rightarrow> query \<Rightarrow> 'r list \<Rightarrow> 'r resource_cache \<Rightarrow> 'r resource_cache" where
  "cache_store sl now = (\<lambda>(s, t, ns) rs rc. CacheResources sl now s t ns rs rc)"

fun cache_purge :: "purge \<Rightarrow> 'r resource_cache \<Rightarrow> 'r resource_cache" where
  "cache_purge (PurgeMatching ns t) rc = InvalidateCache ns t rc"
| "cache_purge (PurgeExpired now) rc = InvalidateExpiredEntries now rc"
| "cache_purge PurgeAll rc = ClearCache rc"

fun purge_covers :: "selector_lib \<Rightarrow> purge \<Rightarrow> query \<Rightarrow> bool" where
  "purge_covers sl (PurgeMatching ns t) (s, ts, qns) =
     ((ns = [] \<or> qns = ns) \<and> (t = [] \<or> keyContainsResourceType (generateCacheKey sl s ts qns) t))"
| "purge_covers sl (PurgeExpired now) q = False"
| "purge_covers sl PurgeAll q = True"

definition good_query :: "query \<Rightarrow> bool" where
  "good_query q = (CHR '':'' \<notin> set (snd (snd q)))"

lemma cache_hit_iff:
  "cache_hit sl now q rc = (case mget (rc_cache rc) (query_key sl q) of None \<Rightarrow> None
     | Some e \<Rightarrow> if now - ce_LastUpdated e > rc_ttl rc then None else Some (ce_Resources e))"
  by (cases q) (simp add: cache_hit_def query_key_def GetCachedResources_def Let_def split: option.split)

lemma cache_hit_some:
  "cache_hit sl now q rc = Some y \<longleftrightarrow> (\<exists>e. mget (rc_cache rc) (query_key sl q) = Some e \<and>
     now - ce_LastUpdated e \<le> rc_ttl rc \<and> y = ce_Resources e)"
  by (auto simp: cache_hit_iff split: option.splits)

lemma cache_purge_sub:
  "\<exists>ks. rc_cache (cache_purge d rc) = mdel_all ks (rc_cache rc)"
proof (cases d)
  case PurgeAll
  have "mdel_all (mkeys m) m = []" for m :: "(str, 'a cache_entry) gomap"
  proof -
    have "mget (mdel_all (mkeys m) m) k = None" for k
      using mget_None_iff[of m k] by auto
    then have none: "mget (mdel_all (mkeys m) m) k = None" for k .
    show ?thesis
    proof (cases "mdel_all (mkeys m) m")
      case (Cons p ps)
      then have "mget (mdel_all (mkeys m) m) (fst p) = Some (snd p)" by (cases p) (simp add: mget_Cons)
      then show ?thesis using none by simp
    qed
  qed
  then show ?thesis using PurgeAll by (auto simp: ClearCache_def intro: exI[of _ "mkeys (rc_cache rc)"])
qed (auto simp: InvalidateCache_def InvalidateExpiredEntries_def Let_def)

lemma cache_purge_fixed [simp]:
  "rc_ttl (cache_purge d rc) = rc_ttl rc" "rc_maxEntries (cache_purge d rc) = rc_maxEntries rc"
  by (cases d; simp add: InvalidateCache_def InvalidateExpiredEntries_def ClearCache_def Let_def)+

lemma cache_inv_purge: "cache_inv ttl rc \<Longrightarrow> cache_inv ttl (cache_purge d rc)"
proof -
  assume inv: "cache_inv ttl rc"
  obtain ks where "rc_cache (cache_purge d rc) = mdel_all ks (rc_cache rc)"
    using cache_purge_sub by blast
  then show ?thesis using inv by (intro cache_inv_smaller[OF inv]) (simp_all add: cache_inv_def)
qed

lemma key_namespace:
  assumes "key_entry_ok (generateCacheKey sl s t ns) e" and "CHR '':'' \<notin> set ns"
  shows "ce_Namespace e = ns"
proof -
  obtain r' where r': "generateCacheKey sl s t ns = ns @ CHR '':'' # r'"
    by (simp add: generateCacheKey_def)
  obtain r where "generateCacheKey sl s t ns = ce_Namespace e @ CHR '':'' # r"
    "CHR '':'' \<notin> set (ce_Namespace e)"
    using assms(1) by (auto simp: key_entry_ok_def)
  then show ?thesis using assms(2) split_on_append r' by (metis list.inject)
qed

lemma purge_removes:
  assumes "cache_inv ttl rc" and "good_query q" and "mget (rc_cache (cache_purge d rc)) (query_key sl q) = Some e"
  shows "mget (rc_cache rc) (query_key sl q) = Some e \<and> \<not> purge_covers sl d q"
proof -
  obtain s t ns where q: "q = (s, t, ns)" by (cases q)
  have get: "mget (rc_cache rc) (query_key sl q) = Some e"
    using assms(3) cache_purge_sub[of d rc] by (auto split: if_splits)
  have "ce_Namespace e = ns"
    using assms(1,2) get q by (intro key_namespace) (auto simp: cache_inv_iff query_key_def good_query_def)
  moreover have "(query_key sl q, e) \<in> set (rc_cache rc)" using get by (rule mget_Some_mem)
  ultimately have "\<not> purge_covers sl d q"
    using assms(3) q
    by (cases d) (force simp: InvalidateCache_def invalid_entry_def query_key_def ClearCache_def Let_def
        split: if_splits)+
  with get show ?thesis by blast
qed

lemma store_gets:
  assumes "cache_inv ttl c"
  shows "\<exists>e. mget (rc_cache (cache_store sl now p x c)) (query_key sl p) = Some e \<and>
    ce_LastUpdated e = now \<and> ce_Resources e = x" and "rc_ttl (cache_store sl now p x c) = rc_ttl c"
  using CacheResources_get(1)[OF assms] by (cases p; simp add: cache_store_def query_key_def)+

lemma store_other:
  assumes "cache_inv ttl c" and "query_key sl p \<noteq> query_key sl q"
    and "mget (rc_cache (cache_store sl now p x c)) (query_key sl q) = Some e"
  shows "mget (rc_cache c) (query_key sl q) = Some e"
proof -
  obtain s t ns where p: "p = (s, t, ns)" by (cases p)
  show ?thesis
    using assms(2,3) CacheResources_get(2)[OF assms(1), of "query_key sl q" sl s t ns now x e]
    by (simp add: p cache_store_def query_key_def)
qed

interpretation cache: query_cache "cache_hit sl" "cache_look sl" "cache_store sl" cache_purge
    "\<lambda>p q. query_key sl p = query_key sl q" "purge_covers sl" good_query ttl "cache_inv ttl"
  for sl ttl
proof
  fix c :: "'a resource_cache" and now now' :: gotime and p q :: query and x y :: "'a list" and d
  assume c: "cache_inv ttl c"
  then have ttl: "rc_ttl c = ttl" by (simp add: cache_inv_def)
  show "cache_hit sl now' q (cache_look sl now p c) = cache_hit sl now' q c"
    by (cases p) (simp add: cache_hit_iff cache_look_def cong: option.case_cong)
  show "cache_inv ttl (cache_look sl now p c)"
    using c by (cases p) (simp add: cache_inv_def cache_look_def)
  show "query_key sl p = query_key sl q \<Longrightarrow> cache_hit sl now' q (cache_store sl now p x c) =
      (if now' - now \<le> ttl then Some x else None)"
    using ttl store_gets[OF c, of sl now p x] by (auto simp: cache_hit_iff)
  show "query_key sl p \<noteq> query_key sl q \<Longrightarrow> cache_hit sl now' q (cache_store sl now p x c) = Some y \<Longrightarrow>
      cache_hit sl now' q c = Some y"
    using ttl store_other[OF c, of sl p q now x] unfolding cache_hit_some by (metis store_gets(2)[OF c])
  show "good_query q \<Longrightarrow> cache_hit sl now' q (cache_purge d c) = Some y \<Longrightarrow>
      cache_hit sl now' q c = Some y \<and> \<not> purge_covers sl d q"
    using purge_removes[OF c] unfolding cache_hit_some by (metis cache_purge_fixed(1))
  show "good_query p \<Longrightarrow> cache_inv ttl (cache_store sl now p x c)"
    using cache_inv_CacheResources[OF c] by (cases p) (simp add: cache_store_def good_query_def)
  show "cache_inv ttl (cache_purge d c)" by (rule cache_inv_purge[OF c])
qed

section \<open>Runs of the cache\<close>

fun run_event :: "selector_lib \<Rightarrow> (query, 'r list, purge) cache_event \<Rightarrow> 'r resource_cache \<Rightarrow>
    'r resource_cache" where
  "run_event sl (Looked now q) rc = cache_look sl now q rc"
| "run_event sl (Stored now q rs) rc = cache_store sl now q rs rc"
| "run_event sl (Dropped d) rc = cache_purge d rc"

lemma run_event_eq: "run_event sl = cache.apply_event sl"
proof (intro ext)
  fix e :: "(query, 'r list, purge) cache_event" and rc :: "'r resource_cache"
  show "run_event sl e rc = cache.apply_event sl e rc"
    by (cases e) (simp_all add: cache.apply_event.simps)
qed

definition stores_good :: "(query, 'r list, purge) cache_event list \<Rightarrow> bool" where
  "stores_good es \<longleftrightarrow> (\<forall>now p x. Stored now p x \<in> set es \<longrightarrow> good_query p)"

lemma stores_good_ok: "stores_good es \<Longrightarrow> \<forall>e\<in>set es. cache.event_ok e"
  unfolding stores_good_def cache.event_ok_def by blast

lemma cache_inv_run:
  "cache_inv ttl rc \<Longrightarrow> stores_good es \<Longrightarrow> cache_inv ttl (fold (run_event sl) es rc)"
  unfolding run_event_eq using cache.sound_events stores_good_ok by blast

lemma run_event_max: "rc_maxEntries (run_event sl e rc) = rc_maxEntries rc"
  by (cases e) (auto simp: cache_look_def cache_store_def)

lemma run_events_max: "rc_maxEntries (fold (run_event sl) es rc) = rc_maxEntries rc"
  by (induction es arbitrary: rc) (simp_all add: run_event_max)

section \<open>Properties\<close>


definition empty_selector :: label_selector where
  "empty_selector = \<lparr>MatchLabels = [], MatchExpressions = []\<rparr>"

definition sample_lib :: selector_lib where
  "sample_lib = \<lparr>sel_convert = (\<lambda>s. if MatchExpressions s = [] then Inr ''ok'' else Inl (Errorf ''bad'')),
     sel_print = (\<lambda>s. []), sel_matches = (\<lambda>s m. True)\<rparr>"


text \<open>
  C19: the cache never holds more than its maximum of entries (one, if the maximum is not
  positive), and an eviction removes an entry that was updated least recently.
\<close>

theorem cache_is_bounded:
  assumes "stores_good es" and "rc = fold (run_event sl) es (NewResourceCache ttl n)"
  shows "int (length (rc_cache rc)) \<le> max 1 n \<and>
    (rc_cache rc \<noteq> [] \<longrightarrow> (\<exists>k e. mget (rc_cache rc) k = Some e \<and>
       rc_cache (evictOldestEntry rc) = mdel k (rc_cache rc) \<and>
       (\<forall>k' e'. mget (rc_cache rc) k' = Some e' \<longrightarrow> ce_LastUpdated e \<le> ce_LastUpdated e')))"
proof -
  have inv: "cache_inv ttl rc" using assms cache_inv_run cache_inv_new by blast
  have "rc_maxEntries rc = n" by (simp add: assms(2) run_events_max NewResourceCache_def)
  then have "int (length (rc_cache rc)) \<le> max 1 n" using inv by (simp add: cache_inv_def)
  moreover have "\<exists>k e. mget (rc_cache rc) k = Some e \<and>
       rc_cache (evictOldestEntry rc) = mdel k (rc_cache rc) \<and>
       (\<forall>k' e'. mget (rc_cache rc) k' = Some e' \<longrightarrow> ce_LastUpdated e \<le> ce_LastUpdated e')"
    if "rc_cache rc \<noteq> []"
    by (rule evict_cases[OF inv that]) (rule exI, rule exI, intro conjI, assumption, simp, assumption)
  ultimately show ?thesis by blast
qed

theorem cache_is_bounded_witness:
  "int (length (rc_cache (fold (run_event sample_lib)
     [Stored 0 (empty_selector, [''pods''], ''a'') [1::nat],
      Stored 1 (empty_selector, [''pods''], ''b'') [2]] (NewResourceCache 10 1)))) \<le> 1"
  using cache_is_bounded[OF _ refl, of "[Stored 0 (empty_selector, [''pods''], ''a'') [1::nat],
      Stored 1 (empty_selector, [''pods''], ''b'') [2]]" sample_lib 10 1]
  by (simp add: stores_good_def good_query_def)

end
