(* ===== verification/Rate_Limiter.thy ===== *)
theory Rate_Limiter
  imports Complex_Main Rule_Types
begin

text \<open>
  \<open>internal/resource/ratelimiter.go\<close>: one token bucket per kind of operation for the whole
  cluster and one per namespace, with statistics and the cleanup of idle namespaces.  The
  bucket of \<open>golang.org/x/time/rate\<close> is the parameter \<open>'l limiter_lib\<close>: \<open>lim_allow\<close> and
  \<open>lim_wait\<close> take the time of the call; \<open>lim_wait\<close> also gives the time at which it returns.
\<close>

section \<open>State\<close>

record 'l limiter_lib =
  lim_new :: "rat \<Rightarrow> int \<Rightarrow> 'l"
  lim_allow :: "gotime \<Rightarrow> 'l \<Rightarrow> bool \<times> 'l"
  lim_wait :: "gotime \<Rightarrow> 'l \<Rightarrow> ((goerr + unit) \<times> gotime) \<times> 'l"

definition OperationTypeApply :: str where "OperationTypeApply = ''apply''"
definition OperationTypeRemove :: str where "OperationTypeRemove = ''remove''"
definition OperationTypeQuery :: str where "OperationTypeQuery = ''query''"

lemmas operation_types = OperationTypeApply_def OperationTypeRemove_def OperationTypeQuery_def

record rate_limiter_config =
  GlobalApplyRate :: rat
  GlobalRemoveRate :: rat
  GlobalQueryRate :: rat
  GlobalApplyBurst :: int
  GlobalRemoveBurst :: int
  GlobalQueryBurst :: int
  PerNamespaceApplyRate :: rat
  PerNamespaceRemoveRate :: rat
  PerNamespaceQueryRate :: rat
  PerNamespaceApplyBurst :: int
  PerNamespaceRemoveBurst :: int
  PerNamespaceQueryBurst :: int

definition DefaultRateLimiterConfig :: rate_limiter_config where
  "DefaultRateLimiterConfig = \<lparr>GlobalApplyRate = 10, GlobalRemoveRate = 10, GlobalQueryRate = 50,
     GlobalApplyBurst = 20, GlobalRemoveBurst = 20, GlobalQueryBurst = 100,
     PerNamespaceApplyRate = 5, PerNamespaceRemoveRate = 5, PerNamespaceQueryRate = 20,
     PerNamespaceApplyBurst = 10, PerNamespaceRemoveBurst = 10, PerNamespaceQueryBurst = 40\<rparr>"

record 'l namespace_limiters =
  nl_applyLimiter :: 'l
  nl_removeLimiter :: 'l
  nl_queryLimiter :: 'l
  nl_lastUsed :: gotime

record 'l rate_limiter =
  arl_config :: rate_limiter_config
  arl_globalApplyLimiter :: 'l
  arl_globalRemoveLimiter :: 'l
  arl_globalQueryLimiter :: 'l
  arl_namespaceLimiters :: "(str, 'l namespace_limiters) gomap"
  arl_totalRequests :: int64
  arl_throttledRequests :: int64

definition NewAnnotationRateLimiter ::
  "'l limiter_lib \<Rightarrow> rate_limiter_config option \<Rightarrow> 'l rate_limiter" where
  "NewAnnotationRateLimiter lib config =
     (let c = (case config of None \<Rightarrow> DefaultRateLimiterConfig | Some c \<Rightarrow> c) in
      \<lparr>arl_config = c,
       arl_globalApplyLimiter = lim_new lib (GlobalApplyRate c) (GlobalApplyBurst c),
       arl_globalRemoveLimiter = lim_new lib (GlobalRemoveRate c) (GlobalRemoveBurst c),
       arl_globalQueryLimiter = lim_new lib (GlobalQueryRate c) (GlobalQueryBurst c),
       arl_namespaceLimiters = [], arl_totalRequests = 0, arl_throttledRequests = 0\<rparr>)"

section \<open>Operations\<close>

text \<open>The three buckets of a group, by the kind of operation; \<open>None\<close> is the default branch.\<close>

definition global_limiter :: "str \<Rightarrow> 'l rate_limiter \<Rightarrow> 'l option" where
  "global_limiter operation arl =
     (if operation = OperationTypeApply then Some (arl_globalApplyLimiter arl)
      else if operation = OperationTypeRemove then Some (arl_globalRemoveLimiter arl)
      else if operation = OperationTypeQuery then Some (arl_globalQueryLimiter arl) else None)"

definition set_global_limiter :: "str \<Rightarrow> 'l \<Rightarrow> 'l rate_limiter \<Rightarrow> 'l rate_limiter" where
  "set_global_limiter operation l arl =
     (if operation = OperationTypeApply then arl\<lparr>arl_globalApplyLimiter := l\<rparr>
      else if operation = OperationTypeRemove then arl\<lparr>arl_globalRemoveLimiter := l\<rparr>
      else if operation = OperationTypeQuery then arl\<lparr>arl_globalQueryLimiter := l\<rparr> else arl)"

definition namespace_limiter :: "str \<Rightarrow> 'l namespace_limiters \<Rightarrow> 'l option" where
  "namespace_limiter operation nl =
     (if operation = OperationTypeApply then Some (nl_applyLimiter nl)
      else if operation = OperationTypeRemove then Some (nl_removeLimiter nl)
      else if operation = OperationTypeQuery then Some (nl_queryLimiter nl) else None)"

definition set_namespace_limiter :: "str \<Rightarrow> 'l \<Rightarrow> 'l namespace_limiters \<Rightarrow> 'l namespace_limiters" where
  "set_namespace_limiter operation l nl =
     (if operation = OperationTypeApply then nl\<lparr>nl_applyLimiter := l\<rparr>
      else if operation = OperationTypeRemove then nl\<lparr>nl_removeLimiter := l\<rparr>
      else if operation = OperationTypeQuery then nl\<lparr>nl_queryLimiter := l\<rparr> else nl)"

definition unknown_operation :: "str \<Rightarrow> goerr" where
  "unknown_operation operation = Errorf (''unknown operation type: '' @ operation)"

definition allowGlobal :: "'l limiter_lib \<Rightarrow> gotime \<Rightarrow> str \<Rightarrow> 'l rate_limiter \<Rightarrow> bool \<times> 'l rate_limiter" where
  "allowGlobal lib now operation arl =
     (case global_limiter operation arl of
        None \<Rightarrow> (False, arl)
      | Some l \<Rightarrow> (case lim_allow lib now l of (b, l') \<Rightarrow> (b, set_global_limiter operation l' arl)))"

definition waitGlobal :: "'l limiter_lib \<Rightarrow> gotime \<Rightarrow> str \<Rightarrow> 'l rate_limiter \<Rightarrow>
    ((goerr + unit) \<times> gotime) \<times> 'l rate_limiter" where
  "waitGlobal lib now operation arl =
     (case global_limiter operation arl of
        None \<Rightarrow> ((Inl (unknown_operation operation), now), arl)
      | Some l \<Rightarrow> (case lim_wait lib now l of
          ((Inl e, t), l') \<Rightarrow>
            ((Inl (Wrapf (''global rate limit exceeded for '' @ operation @ '' operation: '') e), t),
             set_global_limiter operation l' arl)
        | ((Inr _, t), l') \<Rightarrow> ((Inr (), t), set_global_limiter operation l' arl)))"

definition new_namespace_limiters :: "'l limiter_lib \<Rightarrow> gotime \<Rightarrow> rate_limiter_config \<Rightarrow>
    'l namespace_limiters" where
  "new_namespace_limiters lib now c = \<lparr>
     nl_applyLimiter = lim_new lib (PerNamespaceApplyRate c) (PerNamespaceApplyBurst c),
     nl_removeLimiter = lim_new lib (PerNamespaceRemoveRate c) (PerNamespaceRemoveBurst c),
     nl_queryLimiter = lim_new lib (PerNamespaceQueryRate c) (PerNamespaceQueryBurst c),
     nl_lastUsed = now\<rparr>"

definition getOrCreateNamespaceLimiters :: "'l limiter_lib \<Rightarrow> gotime \<Rightarrow> str \<Rightarrow> 'l rate_limiter \<Rightarrow>
    'l namespace_limiters \<times> 'l rate_limiter" where
  "getOrCreateNamespaceLimiters lib now namespace arl =
     (let nl = (case mget (arl_namespaceLimiters arl) namespace of
                  Some nl \<Rightarrow> nl\<lparr>nl_lastUsed := now\<rparr>
                | None \<Rightarrow> new_namespace_limiters lib now (arl_config arl))
      in (nl, arl\<lparr>arl_namespaceLimiters := mput namespace nl (arl_namespaceLimiters arl)\<rparr>))"

definition put_namespace :: "str \<Rightarrow> 'l namespace_limiters \<Rightarrow> 'l rate_limiter \<Rightarrow> 'l rate_limiter" where
  "put_namespace namespace nl arl =
     arl\<lparr>arl_namespaceLimiters := mput namespace nl (arl_namespaceLimiters arl)\<rparr>"

definition allowNamespace :: "'l limiter_lib \<Rightarrow> gotime \<Rightarrow> str \<Rightarrow> str \<Rightarrow> 'l rate_limiter \<Rightarrow>
    bool \<times> 'l rate_limiter" where
  "allowNamespace lib now operation namespace arl =
     (case getOrCreateNamespaceLimiters lib now namespace arl of (nl, arl1) \<Rightarrow>
       (case namespace_limiter operation nl of
          None \<Rightarrow> (False, arl1)
        | Some l \<Rightarrow> (case lim_allow lib now l of
            (b, l') \<Rightarrow> (b, put_namespace namespace (set_namespace_limiter operation l' nl) arl1))))"

definition waitNamespace :: "'l limiter_lib \<Rightarrow> gotime \<Rightarrow> str \<Rightarrow> str \<Rightarrow> 'l rate_limiter \<Rightarrow>
    ((goerr + unit) \<times> gotime) \<times> 'l rate_limiter" where
  "waitNamespace lib now operation namespace arl =
     (case getOrCreateNamespaceLimiters lib now namespace arl of (nl, arl1) \<Rightarrow>
       (case namespace_limiter operation nl of
          None \<Rightarrow> ((Inl (unknown_operation operation), now), arl1)
        | Some l \<Rightarrow> (case lim_wait lib now l of ((r, t), l') \<Rightarrow>
            ((case r of
                Inl e \<Rightarrow> Inl (Wrapf (''namespace rate limit exceeded for '' @ operation @
                          '' operation in namespace '' @ namespace @ '': '') e)
              | Inr _ \<Rightarrow> Inr (), t),
             put_namespace namespace (set_namespace_limiter operation l' nl) arl1))))"

definition count_request :: "'l rate_limiter \<Rightarrow> 'l rate_limiter" where
  "count_request arl = arl\<lparr>arl_totalRequests := arl_totalRequests arl + 1\<rparr>"

definition count_throttled :: "'l rate_limiter \<Rightarrow> 'l rate_limiter" where
  "count_throttled arl = arl\<lparr>arl_throttledRequests := arl_throttledRequests arl + 1\<rparr>"

definition Allow :: "'l limiter_lib \<Rightarrow> gotime \<Rightarrow> str \<Rightarrow> str \<Rightarrow> 'l rate_limiter \<Rightarrow> bool \<times> 'l rate_limiter" where
  "Allow lib now operation namespace arl =
     (case allowGlobal lib now operation (count_request arl) of
        (False, arl1) \<Rightarrow> (False, count_throttled arl1)
      | (True, arl1) \<Rightarrow>
          if namespace \<noteq> []
          then (case allowNamespace lib now operation namespace arl1 of
                  (False, arl2) \<Rightarrow> (False, count_throttled arl2)
                | (True, arl2) \<Rightarrow> (True, arl2))
          else (True, arl1))"

definition Wait :: "'l limiter_lib \<Rightarrow> gotime \<Rightarrow> str \<Rightarrow> str \<Rightarrow> 'l rate_limiter \<Rightarrow>
    ((goerr + unit) \<times> gotime) \<times> 'l rate_limiter" where
  "Wait lib now operation namespace arl =
     (case waitGlobal lib now operation (count_request arl) of
        ((Inl e, t), arl1) \<Rightarrow> ((Inl e, t), count_throttled arl1)
      | ((Inr _, t), arl1) \<Rightarrow>
          if namespace \<noteq> []
          then (case waitNamespace lib t operation namespace arl1 of
                  ((Inl e, t2), arl2) \<Rightarrow> ((Inl e, t2), count_throttled arl2)
                | ((Inr _, t2), arl2) \<Rightarrow> ((Inr (), t2), arl2))
          else ((Inr (), t), arl1))"

definition GetStats :: "'l rate_limiter \<Rightarrow> int64 \<times> int64 \<times> int" where
  "GetStats arl = (arl_totalRequests arl, arl_throttledRequests arl,
     int (length (arl_namespaceLimiters arl)))"

definition CleanupUnusedNamespaceLimiters :: "gotime \<Rightarrow> duration \<Rightarrow> 'l rate_limiter \<Rightarrow> 'l rate_limiter" where
  "CleanupUnusedNamespaceLimiters now maxAge arl =
     (let namespacesToDelete = map fst (filter (\<lambda>(namespace, nl). now - nl_lastUsed nl > maxAge)
                                 (arl_namespaceLimiters arl))
      in arl\<lparr>arl_namespaceLimiters := fold mdel namespacesToDelete (arl_namespaceLimiters arl)\<rparr>)"

section \<open>Runs\<close>

text \<open>A sequence of calls, each with its time; the answers in order and the state at the end.\<close>

fun run_calls :: "(gotime \<Rightarrow> 'q \<Rightarrow> 's \<Rightarrow> bool \<times> 's) \<Rightarrow> (gotime \<times> 'q) list \<Rightarrow> 's \<Rightarrow> bool list \<times> 's" where
  "run_calls f [] s = ([], s)"
| "run_calls f ((t, q) # rs) s =
     (case f t q s of (b, s1) \<Rightarrow> (case run_calls f rs s1 of (bs, s2) \<Rightarrow> (b # bs, s2)))"

definition run_bucket :: "(gotime \<Rightarrow> 'l \<Rightarrow> bool \<times> 'l) \<Rightarrow> gotime list \<Rightarrow> 'l \<Rightarrow> bool list \<times> 'l" where
  "run_bucket allow ts l = run_calls (\<lambda>t (u :: unit). allow t) (map (\<lambda>t. (t, ())) ts) l"

definition run_allow :: "'l limiter_lib \<Rightarrow> (gotime \<times> str \<times> str) list \<Rightarrow> 'l rate_limiter \<Rightarrow>
    bool list \<times> 'l rate_limiter" where
  "run_allow lib = run_calls (\<lambda>t (operation, namespace). Allow lib t operation namespace)"

definition granted :: "bool list \<Rightarrow> nat" where
  "granted bs = length (filter (\<lambda>b. b) bs)"

definition granted_to :: "('q \<Rightarrow> bool) \<Rightarrow> (gotime \<times> 'q) list \<Rightarrow> bool list \<Rightarrow> nat" where
  "granted_to P rs bs = length (filter (\<lambda>((t, q), b). P q \<and> b) (zip rs bs))"

lemma run_bucket_simps [simp]:
  "run_bucket allow [] l = ([], l)"
  "run_bucket allow (t # ts) l =
     (case allow t l of (b, l1) \<Rightarrow> (case run_bucket allow ts l1 of (bs, l2) \<Rightarrow> (b # bs, l2)))"
  by (simp_all add: run_bucket_def)

lemma granted_simps [simp]:
  "granted [] = 0" "granted (b # bs) = (if b then Suc (granted bs) else granted bs)"
  "granted_to P [] bs = 0"
  "granted_to P ((t, q) # rs) (b # bs) = (if P q \<and> b then Suc (granted_to P rs bs) else granted_to P rs bs)"
  by (simp_all add: granted_def granted_to_def)

text \<open>
  The part of a state that is one bucket: each step leaves it alone and grants nothing that
  counts against it, or is one call of the bucket and grants only what the bucket grants.
\<close>

locale bucket_view =
  fixes step :: "gotime \<Rightarrow> 'q \<Rightarrow> 's \<Rightarrow> bool \<times> 's"
    and allow :: "gotime \<Rightarrow> 'l \<Rightarrow> bool \<times> 'l"
    and view :: "'s \<Rightarrow> 'l"
    and counts :: "'q \<Rightarrow> bool"
  assumes view_step:
    "view (snd (step t q s)) = view s \<and> \<not> (fst (step t q s) \<and> counts q) \<or>
     view (snd (step t q s)) = snd (allow t (view s)) \<and>
       (fst (step t q s) \<and> counts q \<longrightarrow> fst (allow t (view s)))"
begin

lemma run_is_bucket_run:
  "\<exists>ts. subseq ts (map fst rs) \<and> view (snd (run_calls step rs s)) = snd (run_bucket allow ts (view s)) \<and>
     granted_to counts rs (fst (run_calls step rs s)) \<le> granted (fst (run_bucket allow ts (view s)))"
proof (induction rs arbitrary: s)
  case Nil
  have "subseq [] (map fst ([] :: (gotime \<times> 'q) list))" by simp
  then show ?case by (intro exI[of _ "[]"]) simp
next
  case (Cons r rs)
  obtain t q where r: "r = (t, q)" by (cases r)
  obtain b s1 where st: "step t q s = (b, s1)" by fastforce
  obtain bs s2 where run: "run_calls step rs s1 = (bs, s2)" by fastforce
  obtain ts where ts: "subseq ts (map fst rs)" "view s2 = snd (run_bucket allow ts (view s1))"
    "granted_to counts rs bs \<le> granted (fst (run_bucket allow ts (view s1)))"
    using Cons.IH[of s1] run by auto
  consider "view s1 = view s" "\<not> (b \<and> counts q)"
    | "view s1 = snd (allow t (view s))" "b \<and> counts q \<longrightarrow> fst (allow t (view s))"
    using view_step[of t q s] st by auto
  then show ?case
  proof cases
    case 1
    then show ?thesis using ts by (intro exI[of _ ts]) (auto simp: r st run)
  next
    case 2
    obtain a l where a: "allow t (view s) = (a, l)" by fastforce
    then show ?thesis using ts 2
      by (intro exI[of _ "t # ts"]) (auto simp: r st run split: prod.splits)
  qed
qed

end

section \<open>The buckets of the rate limiter\<close>

datatype op_kind = OpApply | OpRemove | OpQuery

fun kind_name :: "op_kind \<Rightarrow> str" where
  "kind_name OpApply = OperationTypeApply"
| "kind_name OpRemove = OperationTypeRemove"
| "kind_name OpQuery = OperationTypeQuery"

definition global_view :: "op_kind \<Rightarrow> 'l rate_limiter \<Rightarrow> 'l" where
  "global_view k arl = the (global_limiter (kind_name k) arl)"

definition namespace_view :: "'l limiter_lib \<Rightarrow> op_kind \<Rightarrow> str \<Rightarrow> 'l rate_limiter \<Rightarrow> 'l" where
  "namespace_view lib k namespace arl = the (namespace_limiter (kind_name k)
     (case mget (arl_namespaceLimiters arl) namespace of
        Some nl \<Rightarrow> nl | None \<Rightarrow> new_namespace_limiters lib 0 (arl_config arl)))"

lemma op_cases:
  obtains k where "operation = kind_name k" | "\<forall>k. operation \<noteq> kind_name k"
  by blast

lemma unknown_op:
  assumes "\<forall>k. operation \<noteq> kind_name k"
  shows "global_limiter operation arl = None" "namespace_limiter operation nl = None"
  using assms[rule_format, of OpApply] assms[rule_format, of OpRemove] assms[rule_format, of OpQuery]
  by (simp_all add: global_limiter_def namespace_limiter_def)

lemma kind_name_eq [simp]: "kind_name k = kind_name k' \<longleftrightarrow> k = k'"
  by (cases k; cases k') (simp_all add: operation_types)

lemma global_limiter_kind [simp]: "global_limiter (kind_name k) arl = Some (global_view k arl)"
  by (cases k) (simp_all add: global_limiter_def global_view_def operation_types)

lemma global_view_set [simp]:
  "global_view k (set_global_limiter (kind_name k') l arl) = (if k = k' then l else global_view k arl)"
  by (cases k; cases k') (simp_all add: global_limiter_def global_view_def set_global_limiter_def operation_types)

lemma namespace_limiter_kind: "\<exists>l. namespace_limiter (kind_name k) nl = Some l"
  by (cases k) (simp_all add: namespace_limiter_def operation_types)

lemma namespace_limiter_set [simp]:
  "namespace_limiter (kind_name k) (set_namespace_limiter (kind_name k') l nl) =
     (if k = k' then Some l else namespace_limiter (kind_name k) nl)"
  by (cases k; cases k') (simp_all add: namespace_limiter_def set_namespace_limiter_def operation_types)

lemma namespace_limiter_lastUsed [simp]:
  "namespace_limiter (kind_name k) (nl\<lparr>nl_lastUsed := t\<rparr>) = namespace_limiter (kind_name k) nl"
  by (cases k; simp add: namespace_limiter_def operation_types)

lemma namespace_limiter_new:
  "namespace_limiter (kind_name k) (new_namespace_limiters lib t c) =
     namespace_limiter (kind_name k) (new_namespace_limiters lib t' c)"
  by (cases k; simp add: namespace_limiter_def operation_types new_namespace_limiters_def)

lemma set_global_other [simp]:
  "arl_namespaceLimiters (set_global_limiter op l arl) = arl_namespaceLimiters arl"
  "arl_config (set_global_limiter op l arl) = arl_config arl"
  by (simp_all add: set_global_limiter_def)

lemma counters_other [simp]:
  "global_view k (count_request arl) = global_view k arl"
  "global_view k (count_throttled arl) = global_view k arl"
  "namespace_view lib k ns (count_request arl) = namespace_view lib k ns arl"
  "namespace_view lib k ns (count_throttled arl) = namespace_view lib k ns arl"
  "namespace_view lib k ns (set_global_limiter op l arl) = namespace_view lib k ns arl"
  by (simp_all add: global_view_def global_limiter_def namespace_view_def count_request_def
      count_throttled_def operation_types cong: option.case_cong)

lemma allowNamespace_global [simp]:
  "global_view k (snd (allowNamespace lib now op ns arl)) = global_view k arl"
  by (simp add: allowNamespace_def getOrCreateNamespaceLimiters_def Let_def put_namespace_def
      global_view_def global_limiter_def split: option.split prod.split)

lemma allowGlobal_kind:
  "allowGlobal lib now (kind_name k) arl = (fst (lim_allow lib now (global_view k arl)),
     set_global_limiter (kind_name k) (snd (lim_allow lib now (global_view k arl))) arl)"
  by (simp add: allowGlobal_def split: prod.split)

lemma allowGlobal_unknown: "\<forall>k. operation \<noteq> kind_name k \<Longrightarrow> allowGlobal lib now operation arl = (False, arl)"
  by (simp add: allowGlobal_def unknown_op)

lemma allowNamespace_kind:
  "fst (allowNamespace lib now (kind_name k) ns arl) =
     fst (lim_allow lib now (namespace_view lib k ns arl))"
  "namespace_view lib k' ns' (snd (allowNamespace lib now (kind_name k) ns arl)) =
     (if k' = k \<and> ns' = ns then snd (lim_allow lib now (namespace_view lib k ns arl))
      else namespace_view lib k' ns' arl)"
proof -
  define nl where "nl = fst (getOrCreateNamespaceLimiters lib now ns arl)"
  obtain l where l: "namespace_limiter (kind_name k) nl = Some l"
    using namespace_limiter_kind[of k nl] by blast
  have view: "namespace_view lib k'' ns arl = the (namespace_limiter (kind_name k'') nl)" for k''
    by (cases "mget (arl_namespaceLimiters arl) ns")
       (simp_all add: nl_def getOrCreateNamespaceLimiters_def namespace_view_def Let_def
          namespace_limiter_new[of k'' lib now _ 0])
  have eq: "allowNamespace lib now (kind_name k) ns arl = (fst (lim_allow lib now l),
      put_namespace ns (set_namespace_limiter (kind_name k) (snd (lim_allow lib now l)) nl)
        (snd (getOrCreateNamespaceLimiters lib now ns arl)))"
    using l by (cases "getOrCreateNamespaceLimiters lib now ns arl")
      (simp add: allowNamespace_def nl_def split: prod.split)
  show "fst (allowNamespace lib now (kind_name k) ns arl) =
      fst (lim_allow lib now (namespace_view lib k ns arl))"
    by (simp add: eq view l)
  show "namespace_view lib k' ns' (snd (allowNamespace lib now (kind_name k) ns arl)) =
     (if k' = k \<and> ns' = ns then snd (lim_allow lib now (namespace_view lib k ns arl))
      else namespace_view lib k' ns' arl)"
  proof (cases "ns' = ns")
    case True
    then show ?thesis
      by (auto simp: eq view l) (simp_all add: namespace_view_def put_namespace_def)
  next
    case False
    then show ?thesis
      by (simp add: eq namespace_view_def put_namespace_def getOrCreateNamespaceLimiters_def Let_def
          cong: option.case_cong)
  qed
qed

lemma Allow_kind:
  "Allow lib now (kind_name k) ns arl =
     (let (g, l) = lim_allow lib now (global_view k arl);
          arl1 = set_global_limiter (kind_name k) l (count_request arl)
      in if \<not> g then (False, count_throttled arl1)
         else if ns = [] then (True, arl1)
         else let (b, arl2) = allowNamespace lib now (kind_name k) ns arl1
              in (b, if b then arl2 else count_throttled arl2))"
  by (auto simp: Allow_def allowGlobal_kind split: prod.splits bool.splits)

lemma Allow_unknown:
  "\<forall>k. operation \<noteq> kind_name k \<Longrightarrow>
   Allow lib now operation ns arl = (False, count_throttled (count_request arl))"
  by (simp add: Allow_def allowGlobal_unknown)

definition allow_step :: "'l limiter_lib \<Rightarrow> gotime \<Rightarrow> str \<times> str \<Rightarrow> 'l rate_limiter \<Rightarrow>
    bool \<times> 'l rate_limiter" where
  "allow_step lib t q = Allow lib t (fst q) (snd q)"

lemma run_allow_step: "run_allow lib = run_calls (allow_step lib)"
  by (simp add: run_allow_def allow_step_def[abs_def] case_prod_beta')

interpretation global_bucket: bucket_view "allow_step lib" "lim_allow lib" "global_view k"
    "\<lambda>q. fst q = kind_name k"
  for lib k
proof
  fix t :: gotime and q :: "str \<times> str" and s :: "'a rate_limiter"
  show "global_view k (snd (allow_step lib t q s)) = global_view k s \<and>
      \<not> (fst (allow_step lib t q s) \<and> fst q = kind_name k) \<or>
    global_view k (snd (allow_step lib t q s)) = snd (lim_allow lib t (global_view k s)) \<and>
      (fst (allow_step lib t q s) \<and> fst q = kind_name k \<longrightarrow> fst (lim_allow lib t (global_view k s)))"
  proof (cases "fst q" rule: op_cases)
    case (1 k')
    obtain g l where g: "lim_allow lib t (global_view k' s) = (g, l)" by fastforce
    obtain b arl where b: "allowNamespace lib t (kind_name k') (snd q)
        (set_global_limiter (kind_name k') l (count_request s)) = (b, arl)" by fastforce
    then have "global_view k arl = (if k = k' then l else global_view k s)"
      using allowNamespace_global[of k lib t "kind_name k'" "snd q"
          "set_global_limiter (kind_name k') l (count_request s)"] by simp
    then show ?thesis using 1 g b by (auto simp: allow_step_def Allow_kind Let_def)
  next
    case 2
    then show ?thesis by (simp add: allow_step_def Allow_unknown)
  qed
qed

interpretation namespace_bucket: bucket_view "allow_step lib" "lim_allow lib" "namespace_view lib k ns"
    "\<lambda>q. q = (kind_name k, ns) \<and> ns \<noteq> []"
  for lib k ns
proof
  fix t :: gotime and q :: "str \<times> str" and s :: "'a rate_limiter"
  show "namespace_view lib k ns (snd (allow_step lib t q s)) = namespace_view lib k ns s \<and>
      \<not> (fst (allow_step lib t q s) \<and> q = (kind_name k, ns) \<and> ns \<noteq> []) \<or>
    namespace_view lib k ns (snd (allow_step lib t q s)) = snd (lim_allow lib t (namespace_view lib k ns s)) \<and>
      (fst (allow_step lib t q s) \<and> q = (kind_name k, ns) \<and> ns \<noteq> [] \<longrightarrow>
       fst (lim_allow lib t (namespace_view lib k ns s)))"
  proof (cases "fst q" rule: op_cases)
    case (1 k')
    obtain g l where g: "lim_allow lib t (global_view k' s) = (g, l)" by fastforce
    let ?s1 = "set_global_limiter (kind_name k') l (count_request s)"
    obtain b arl where b: "allowNamespace lib t (kind_name k') (snd q) ?s1 = (b, arl)" by fastforce
    have v: "b = fst (lim_allow lib t (namespace_view lib k' (snd q) s))"
      "namespace_view lib k ns arl = (if k = k' \<and> ns = snd q
         then snd (lim_allow lib t (namespace_view lib k' (snd q) s)) else namespace_view lib k ns s)"
      using allowNamespace_kind(1)[of lib t k' "snd q" ?s1]
        allowNamespace_kind(2)[of lib k ns t k' "snd q" ?s1] b by simp_all
    then show ?thesis using 1 g b by (cases q) (auto simp: allow_step_def Allow_kind Let_def)
  next
    case 2
    then show ?thesis by (auto simp: allow_step_def Allow_unknown)
  qed
qed

section \<open>Quotas\<close>

text \<open>
  The documented behaviour of a token bucket: it never grants more than its burst plus what its
  rate (per second) adds between the first and the last call.
\<close>

definition bucket_law :: "'l limiter_lib \<Rightarrow> bool" where
  "bucket_law lib \<longleftrightarrow> (\<forall>rate burst t ts. 0 \<le> rate \<longrightarrow> 0 \<le> burst \<longrightarrow> sorted (t # ts) \<longrightarrow>
     rat_of_nat (granted (fst (run_bucket (lim_allow lib) (t # ts) (lim_new lib rate burst)))) \<le>
       of_int burst + rate * of_int (last (t # ts) - t) / of_int time_second)"

definition within_quota :: "rat \<times> int \<Rightarrow> duration \<Rightarrow> nat \<Rightarrow> bool" where
  "within_quota = (\<lambda>(rate, burst) d n. rat_of_nat n \<le> of_int burst + rate * of_int d / of_int time_second)"

fun global_quota :: "rate_limiter_config \<Rightarrow> op_kind \<Rightarrow> rat \<times> int" where
  "global_quota c OpApply = (GlobalApplyRate c, GlobalApplyBurst c)"
| "global_quota c OpRemove = (GlobalRemoveRate c, GlobalRemoveBurst c)"
| "global_quota c OpQuery = (GlobalQueryRate c, GlobalQueryBurst c)"

fun namespace_quota :: "rate_limiter_config \<Rightarrow> op_kind \<Rightarrow> rat \<times> int" where
  "namespace_quota c OpApply = (PerNamespaceApplyRate c, PerNamespaceApplyBurst c)"
| "namespace_quota c OpRemove = (PerNamespaceRemoveRate c, PerNamespaceRemoveBurst c)"
| "namespace_quota c OpQuery = (PerNamespaceQueryRate c, PerNamespaceQueryBurst c)"

definition quota_ok :: "rat \<times> int \<Rightarrow> bool" where
  "quota_ok q = (0 \<le> fst q \<and> 0 \<le> snd q)"

lemma initial_views:
  "global_view k (NewAnnotationRateLimiter lib (Some c)) = lim_new lib (fst (global_quota c k)) (snd (global_quota c k))"
  "namespace_view lib k ns (NewAnnotationRateLimiter lib (Some c)) =
     lim_new lib (fst (namespace_quota c k)) (snd (namespace_quota c k))"
  by (cases k; simp add: global_view_def namespace_view_def global_limiter_def namespace_limiter_def
      NewAnnotationRateLimiter_def new_namespace_limiters_def operation_types)+

lemma set_subseq: "subseq xs ys \<Longrightarrow> set xs \<subseteq> set ys"
  by (induction rule: list_emb.induct) auto

lemma sorted_subseq: "subseq xs ys \<Longrightarrow> sorted ys \<Longrightarrow> sorted xs"
proof (induction rule: list_emb.induct)
  case (list_emb_Cons2 x y xs ys)
  then show ?case using set_subseq[of xs ys] by auto
qed auto

lemma bucket_run_bound:
  assumes "bucket_law lib" and "quota_ok q" and "subseq ts us" and "sorted us"
    and "\<forall>t\<in>set us. t0 \<le> t \<and> t \<le> t0 + d" and "0 \<le> d"
    and "n \<le> granted (fst (run_bucket (lim_allow lib) ts (lim_new lib (fst q) (snd q))))"
  shows "within_quota q d n"
proof (cases ts)
  case Nil
  then show ?thesis using assms(2,6,7)
    by (cases q) (simp add: within_quota_def quota_ok_def time_second_def)
next
  case (Cons t ts')
  have "sorted ts" using assms(3,4) by (rule sorted_subseq)
  then have "rat_of_nat (granted (fst (run_bucket (lim_allow lib) ts (lim_new lib (fst q) (snd q))))) \<le>
      of_int (snd q) + fst q * of_int (last ts - t) / of_int time_second"
    unfolding Cons
    by (intro assms(1)[unfolded bucket_law_def, rule_format]) (use assms(2) in \<open>simp_all add: quota_ok_def\<close>)
  moreover have "rat_of_nat n \<le>
      rat_of_nat (granted (fst (run_bucket (lim_allow lib) ts (lim_new lib (fst q) (snd q)))))"
    using assms(7) by (simp only: of_nat_le_iff)
  ultimately have g: "rat_of_nat n \<le> of_int (snd q) + fst q * of_int (last ts - t) / of_int time_second"
    by linarith
  have "t \<in> set ts" "last ts \<in> set ts" using Cons last_in_set[of ts] by simp_all
  then have "t \<in> set us" "last ts \<in> set us" using set_subseq[OF assms(3)] by blast+
  then have "t0 \<le> t" "last ts \<le> t0 + d" using assms(5) by blast+
  then have "last ts - t \<le> d" by linarith
  then have "fst q * of_int (last ts - t) \<le> fst q * of_int d"
    using assms(2) by (intro mult_left_mono) (auto simp: quota_ok_def)
  then have "fst q * of_int (last ts - t) / of_int time_second \<le> fst q * of_int d / of_int time_second"
    by (intro divide_right_mono) (auto simp: time_second_def)
  then show ?thesis using g by (cases q) (simp add: within_quota_def)
qed

lemma run_quota:
  assumes "bucket_view (allow_step lib) (lim_allow lib) view counts" and "bucket_law lib"
    and "quota_ok q" and "view s = lim_new lib (fst q) (snd q)"
    and "sorted (map fst rs)" and "\<forall>r\<in>set rs. t0 \<le> fst r \<and> fst r \<le> t0 + d" and "0 \<le> d"
  shows "within_quota q d (granted_to counts rs (fst (run_allow lib rs s)))"
proof -
  obtain ts where ts: "subseq ts (map fst rs)"
    "granted_to counts rs (fst (run_allow lib rs s)) \<le> granted (fst (run_bucket (lim_allow lib) ts (view s)))"
    using bucket_view.run_is_bucket_run[OF assms(1), of rs s] unfolding run_allow_step by blast
  show ?thesis
    by (rule bucket_run_bound[OF assms(2,3) ts(1) assms(5) _ assms(7)])
       (use assms(4,6) ts(2) in auto)
qed

section \<open>Properties\<close>


text \<open>A bucket that is never refilled keeps the bound: its state is what is left of the burst.\<close>

definition counting_bucket :: "int limiter_lib" where
  "counting_bucket = \<lparr>lim_new = (\<lambda>rate burst. burst),
     lim_allow = (\<lambda>t l. if 0 < l then (True, l - 1) else (False, l)),
     lim_wait = (\<lambda>t l. if 0 < l then ((Inr (), t), l - 1) else ((Inl (Errorf ''deadline''), t), l))\<rparr>"

lemma counting_run: "0 \<le> l \<Longrightarrow> int (granted (fst (run_bucket (lim_allow counting_bucket) ts l))) \<le> l"
proof (induction ts arbitrary: l)
  case (Cons t ts)
  show ?case
  proof (cases "0 < l")
    case True
    then show ?thesis
      using Cons.IH[of "l - 1"] by (auto simp: counting_bucket_def split: prod.splits)
  next
    case False
    then show ?thesis
      using Cons.IH[of l] Cons.prems by (auto simp: counting_bucket_def split: prod.splits)
  qed
qed simp

lemma counting_law: "bucket_law counting_bucket"
proof -
  have "rat_of_nat (granted (fst (run_bucket (lim_allow counting_bucket) (t # ts) burst))) \<le>
      of_int burst + rate * of_int (last (t # ts) - t) / of_int time_second"
    if "0 \<le> burst" "0 \<le> rate" "sorted (t # ts)" for rate burst t ts
  proof -
    have "rat_of_int (int (granted (fst (run_bucket (lim_allow counting_bucket) (t # ts) burst)))) \<le>
        of_int burst"
      using counting_run[OF that(1), of "t # ts"] by (simp only: of_int_le_iff)
    then have "rat_of_nat (granted (fst (run_bucket (lim_allow counting_bucket) (t # ts) burst))) \<le>
        of_int burst" by (simp only: of_int_of_nat_eq)
    moreover have "t \<le> last (t # ts)" using that(3) last_in_set[of ts] by auto
    then have "0 \<le> rate * of_int (last (t # ts) - t) / of_int time_second"
      using that(2) by (simp add: time_second_def)
    ultimately show ?thesis by linarith
  qed
  moreover have "lim_new counting_bucket rate burst = burst" for rate burst
    by (simp add: counting_bucket_def)
  ultimately show ?thesis unfolding bucket_law_def by simp
qed


end
