(* ===== verification/Cluster_Objects.thy ===== *)
theory Cluster_Objects
  imports Rule_Types
begin

text \<open>
  The objects of the cluster that the controller reads and writes, and the calls of the API
  client it makes.  The client is a library and the server a service: the calls are functions of
  the state \<open>'w\<close> of the world, gathered in the record \<open>'w api\<close>, a parameter of every operation
  that uses them.
\<close>

section \<open>Resources\<close>

text \<open>
  What the sources use of a \<open>client.Object\<close>.  \<open>res_Kind\<close> stands for the Go type of the object
  and with the namespace and name identifies it; \<open>res_TypeMetaKind\<close> is the kind that the object
  itself records (empty for typed objects of a list).  \<open>res_Annotations\<close> is \<open>None\<close> for a nil
  map; \<open>res_ResourceVersion\<close> is the version the API server checks on an update.
\<close>

record resource =
  res_Kind :: str
  res_Namespace :: str
  res_Name :: str
  res_TypeMetaKind :: str
  res_UID :: str
  res_ResourceVersion :: str
  res_Labels :: "(str, str) gomap"
  res_Annotations :: "(str, str) gomap option"

type_synonym object_key = "str \<times> str \<times> str"

definition object_key :: "resource \<Rightarrow> object_key" where
  "object_key r = (res_Kind r, res_Namespace r, res_Name r)"

section \<open>Audit records and events\<close>

record resource_info =
  info_Kind :: str
  info_Name :: str
  info_Namespace :: str
  info_UID :: str

record audit_event =
  ev_Timestamp :: gotime
  ev_Action :: str
  ev_RuleID :: str
  ev_RuleName :: str
  ev_RuleNamespace :: str
  ev_Resource :: resource_info
  ev_Annotations :: "(str, str) gomap"
  ev_Success :: bool
  ev_Error :: str

record kube_event =
  ke_Name :: str
  ke_Namespace :: str
  ke_InvolvedObject :: resource_info
  ke_Reason :: str
  ke_Message :: str
  ke_SourceComponent :: str
  ke_FirstTimestamp :: gotime
  ke_LastTimestamp :: gotime
  ke_Count :: int32
  ke_Type :: str

section \<open>The client\<close>

text \<open>
  \<open>api_list\<close> takes the resource type, the selector (\<open>None\<close> without one) and the namespace
  (empty for all).  \<open>api_update\<close> gives the object as the server stored it.  \<open>api_log\<close> is the
  structured audit log.
\<close>

record 'w api =
  api_now :: "'w \<Rightarrow> gotime"
  api_sleep :: "duration \<Rightarrow> 'w \<Rightarrow> 'w"
  api_list :: "str \<Rightarrow> label_selector option \<Rightarrow> str \<Rightarrow> 'w \<Rightarrow> (goerr + resource list) \<times> 'w"
  api_get :: "object_key \<Rightarrow> 'w \<Rightarrow> (goerr + resource) \<times> 'w"
  api_update :: "resource \<Rightarrow> 'w \<Rightarrow> (goerr + resource) \<times> 'w"
  api_listRules :: "'w \<Rightarrow> (goerr + rule list) \<times> 'w"
  api_getRule :: "nsname \<Rightarrow> 'w \<Rightarrow> (goerr + rule) \<times> 'w"
  api_updateRule :: "rule \<Rightarrow> 'w \<Rightarrow> (goerr + rule) \<times> 'w"
  api_updateStatus :: "rule \<Rightarrow> 'w \<Rightarrow> (goerr + rule) \<times> 'w"
  api_createEvent :: "kube_event \<Rightarrow> 'w \<Rightarrow> (goerr + unit) \<times> 'w"
  api_log :: "audit_event \<Rightarrow> 'w \<Rightarrow> 'w"

text \<open>The options of a \<open>List\<close> call: what they select by label, and the namespace (empty for all).\<close>

type_synonym list_options = "label_selector option \<times> str"

section \<open>Loops\<close>

text \<open>A loop over a slice that threads the world and collects the results.\<close>

fun for_each :: "('a \<Rightarrow> 'w \<Rightarrow> 'b \<times> 'w) \<Rightarrow> 'a list \<Rightarrow> 'w \<Rightarrow> 'b list \<times> 'w" where
  "for_each f [] w = ([], w)"
| "for_each f (x # xs) w =
     (case f x w of (y, w1) \<Rightarrow> (case for_each f xs w1 of (ys, w2) \<Rightarrow> (y # ys, w2)))"

lemma for_each_length [simp]: "length (fst (for_each f xs w)) = length xs"
  by (induction xs arbitrary: w) (auto split: prod.splits simp: prod.case_eq_if)

lemma for_each_inv:
  assumes "I w" and "\<And>x w. x \<in> set xs \<Longrightarrow> I w \<Longrightarrow> I (snd (f x w))"
  shows "I (snd (for_each f xs w))"
  using assms
proof (induction xs arbitrary: w)
  case (Cons x xs)
  have "I (snd (f x w))" using Cons.prems by simp
  moreover have "I (snd (f y v))" if "y \<in> set xs" "I v" for y v using Cons.prems(2) that by simp
  ultimately have "I (snd (for_each f xs (snd (f x w))))" by (rule Cons.IH)
  then show ?case by (simp add: prod.case_eq_if)
qed simp

end
