(* ===== verification/Template_Engine.thy ===== *)
theory Template_Engine
  imports Cluster_Objects Go_Time Annotation_Tracking
begin

text \<open>
  \<open>internal/templating/engine.go\<close>: substitution of variables in annotation values.  Each regular
  expression of the source is a scanner: \<open>scan\<close> finds a variable at the front of a string, the
  functions built on it visit the matches from left to right without overlap, as
  \<open>ReplaceAllStringFunc\<close> and \<open>FindAll\<close> do.  \<open>[^}]+\<close> stops at the first closing brace, so a
  match has no choice.
\<close>

section \<open>Scanners\<close>

definition name_run :: "str \<Rightarrow> str" where "name_run s = takeWhile (\<lambda>c. c \<noteq> CHR ''}'') s"
definition after_run :: "str \<Rightarrow> str" where "after_run s = dropWhile (\<lambda>c. c \<noteq> CHR ''}'') s"

text \<open>A match of \<open>opn[^}]*cls\<close> at the front: the name and what follows the match.\<close>

definition scan_any :: "str \<Rightarrow> str \<Rightarrow> str \<Rightarrow> (str \<times> str) option" where
  "scan_any opn cls s =
     (if prefix opn s \<and> prefix cls (after_run (drop (length opn) s))
      then Some (name_run (drop (length opn) s), drop (length cls) (after_run (drop (length opn) s)))
      else None)"

text \<open>A match of \<open>opn([^}]+)cls\<close>.\<close>

definition scan :: "str \<Rightarrow> str \<Rightarrow> str \<Rightarrow> (str \<times> str) option" where
  "scan opn cls s =
     (case scan_any opn cls s of
        None \<Rightarrow> None
      | Some (varName, rest) \<Rightarrow> if varName \<noteq> [] then Some (varName, rest) else None)"

lemma scan_any_decomp:
  "scan_any opn cls s = Some (n, r) \<Longrightarrow> s = opn @ n @ cls @ r \<and> CHR ''}'' \<notin> set n"
  by (auto simp: scan_any_def name_run_def after_run_def prefix_def takeWhile_dropWhile_id
      split: if_splits dest: set_takeWhileD)
     (metis takeWhile_dropWhile_id)

lemma scan_decomp:
  "scan opn cls s = Some (n, r) \<Longrightarrow> s = opn @ n @ cls @ r \<and> CHR ''}'' \<notin> set n \<and> n \<noteq> []"
  by (auto simp: scan_def dest: scan_any_decomp split: option.splits if_splits)

lemma scan_rest_shorter: "scan opn cls s = Some (n, r) \<Longrightarrow> length r < length s"
  by (drule scan_decomp) auto

text \<open>\<open>re.ReplaceAllStringFunc\<close> with a function of the name.\<close>

function replace_all :: "str \<Rightarrow> str \<Rightarrow> (str \<Rightarrow> str) \<Rightarrow> str \<Rightarrow> str" where
  "replace_all opn cls f s =
     (if s = [] then []
      else case scan opn cls s of
        Some (varName, rest) \<Rightarrow> f varName @ replace_all opn cls f rest
      | None \<Rightarrow> hd s # replace_all opn cls f (tl s))"
  by pat_completeness auto
termination
  by (relation "measure (\<lambda>(opn, cls, f, s). length s)") (auto dest: scan_rest_shorter)

text \<open>The names of all matches, of \<open>opn([^}]+)cls\<close> and of \<open>opn[^}]*cls\<close>.\<close>

function find_all :: "str \<Rightarrow> str \<Rightarrow> str \<Rightarrow> str list" where
  "find_all opn cls s =
     (if s = [] then []
      else case scan opn cls s of
        Some (varName, rest) \<Rightarrow> varName # find_all opn cls rest
      | None \<Rightarrow> find_all opn cls (tl s))"
  by pat_completeness auto
termination
  by (relation "measure (\<lambda>(opn, cls, s). length s)") (auto dest: scan_rest_shorter)

function find_all_any :: "str \<Rightarrow> str \<Rightarrow> str \<Rightarrow> str list" where
  "find_all_any opn cls s =
     (if s = [] then []
      else case scan_any opn cls s of
        Some (varName, rest) \<Rightarrow> varName # find_all_any opn cls (if length rest < length s then rest else [])
      | None \<Rightarrow> find_all_any opn cls (tl s))"
  by pat_completeness auto
termination
  by (relation "measure (\<lambda>(opn, cls, s). length s)") auto

declare replace_all.simps [simp del] find_all.simps [simp del] find_all_any.simps [simp del]

definition matches_in :: "(str \<Rightarrow> bool) \<Rightarrow> str \<Rightarrow> bool" where
  "matches_in p s = list_ex p (suffixes s)"

definition is_space :: "char \<Rightarrow> bool" where
  "is_space c = (c \<in> set [CHR 0x09, CHR 0x0A, CHR 0x0C, CHR 0x0D, CHR '' ''])"

text \<open>\<open>opn\s*cls\<close> at the front, and \<open>opn[^}]*$\<close>.\<close>

definition empty_at :: "str \<Rightarrow> str \<Rightarrow> str \<Rightarrow> bool" where
  "empty_at opn cls s = (prefix opn s \<and> prefix cls (dropWhile is_space (drop (length opn) s)))"

definition unmatched_at :: "str \<Rightarrow> str \<Rightarrow> bool" where
  "unmatched_at opn s = (prefix opn s \<and> CHR ''}'' \<notin> set (drop (length opn) s))"

section \<open>The engine\<close>

record template_engine =
  te_builtinVars :: "(str, str) gomap"

record template_context =
  ctx_Variables :: "(str, str) gomap"
  ctx_Resource :: "resource option"
  ctx_RuleName :: str
  ctx_RuleNamespace :: str
  ctx_RuleID :: str
  ctx_ExecutionTime :: gotime
  ctx_Action :: str

definition NewTemplateEngine :: template_engine where
  "NewTemplateEngine = \<lparr>te_builtinVars = []\<rparr>"

definition resource_variables :: "resource \<Rightarrow> (str \<times> str) list" where
  "resource_variables r =
     [(''resource.name'', res_Name r), (''resource.namespace'', res_Namespace r),
      (''resource.uid'', res_UID r)] @
     map (\<lambda>(k, v). (''resource.labels.'' @ k, v)) (res_Labels r) @
     map (\<lambda>(k, v). (''resource.annotations.'' @ k, v))
       (case res_Annotations r of None \<Rightarrow> [] | Some m \<Rightarrow> m)"

definition system_variables :: "template_context \<Rightarrow> (str \<times> str) list" where
  "system_variables c =
     [(''timestamp'', format_RFC3339 (ctx_ExecutionTime c)), (''date'', format_date (ctx_ExecutionTime c)),
      (''time'', format_clock (ctx_ExecutionTime c)),
      (''unix'', show_int (time_unix (ctx_ExecutionTime c))), (''rule.name'', ctx_RuleName c),
      (''rule.namespace'', ctx_RuleNamespace c), (''rule.id'', ctx_RuleID c), (''action'', ctx_Action c)]"

definition buildVariableMap :: "template_engine \<Rightarrow> template_context \<Rightarrow> (str, str) gomap" where
  "buildVariableMap te c =
     mput_all (ctx_Variables c)
      (mput_all (case ctx_Resource c of None \<Rightarrow> [] | Some r \<Rightarrow> resource_variables r)
       (mput_all (system_variables c) (mput_all (te_builtinVars te) [])))"

definition subst_dollar :: "(str, str) gomap \<Rightarrow> str \<Rightarrow> str" where
  "subst_dollar variables varName = (case mget variables varName of
     Some v \<Rightarrow> v | None \<Rightarrow> ''${'' @ varName @ ''}'')"

definition subst_brace :: "(str, str) gomap \<Rightarrow> str \<Rightarrow> str" where
  "subst_brace variables varName = (case mget variables (trim_space varName) of
     Some v \<Rightarrow> v | None \<Rightarrow> ''{{'' @ varName @ ''}}'')"

text \<open>\<open>ProcessTemplate\<close> never returns an error; the sum is the source's result type.\<close>

definition ProcessTemplate :: "template_engine \<Rightarrow> str \<Rightarrow> template_context \<Rightarrow> goerr + str" where
  "ProcessTemplate te template c =
     (if template = [] then Inr []
      else let variables = buildVariableMap te c;
               result = replace_all ''${'' ''}'' (subst_dollar variables) template
           in Inr (replace_all ''{{'' ''}}'' (subst_brace variables) result))"

definition valid_name_char :: "char \<Rightarrow> bool" where
  "valid_name_char c = (alnum c \<or> c \<in> set ''._-'')"

definition validateVariableName :: "str \<Rightarrow> goerr + unit" where
  "validateVariableName name =
     and_then (check_that (name \<noteq> []) (Errorf ''variable name cannot be empty''))
       (check_that (name \<noteq> [] \<and> list_all valid_name_char name)
          (Errorf ''variable name contains invalid characters''))"

definition extractVariableName :: "str \<Rightarrow> str" where
  "extractVariableName match =
     (if has_prefix match ''${'' then trim_space (trim_suffix (trim_prefix match ''${'') ''}'')
      else if has_prefix match ''{{'' then trim_space (trim_suffix (trim_prefix match ''{{'') ''}}'')
      else match)"

definition ValidateTemplate :: "template_engine \<Rightarrow> str \<Rightarrow> goerr + unit" where
  "ValidateTemplate te template =
     (if template = [] then Inr ()
      else and_then (check_that (\<not> matches_in (\<lambda>s. unmatched_at ''${'' s \<or> unmatched_at ''{{'' s) template)
             (Errorf ''template has unmatched opening braces''))
          (and_then (check_that (\<not> (matches_in (empty_at ''${'' ''}'') template \<or>
                                  matches_in (empty_at ''{{'' ''}}'') template))
             (Errorf ''template contains empty variable names''))
          (let allMatches = map (\<lambda>n. ''${'' @ n @ ''}'') (find_all_any ''${'' ''}'' template) @
                            map (\<lambda>n. ''{{'' @ n @ ''}}'') (find_all_any ''{{'' ''}}'' template)
           in first_err (\<lambda>match. let varName = extractVariableName match in
                case validateVariableName varName of
                  Inl e \<Rightarrow> Inl (Wrapf (''invalid variable name '' @ quoted varName @ '': '') e)
                | Inr _ \<Rightarrow> Inr ()) allMatches)))"

definition add_unseen :: "str \<Rightarrow> str list \<Rightarrow> str list" where
  "add_unseen n variables = (if n \<in> set variables then variables else variables @ [n])"

definition GetTemplateVariables :: "template_engine \<Rightarrow> str \<Rightarrow> str list" where
  "GetTemplateVariables te template =
     fold (\<lambda>n. add_unseen (trim_space n)) (find_all ''{{'' ''}}'' template)
      (fold (\<lambda>n. add_unseen (trim_space n)) (find_all ''${'' ''}'' template) [])"

definition SetBuiltinVariable :: "str \<Rightarrow> str \<Rightarrow> template_engine \<Rightarrow> template_engine" where
  "SetBuiltinVariable name value te = te\<lparr>te_builtinVars := mput name value (te_builtinVars te)\<rparr>"

definition GetBuiltinVariables :: "template_engine \<Rightarrow> (str, str) gomap" where
  "GetBuiltinVariables te = mput_all (te_builtinVars te) []"

definition IsTemplate :: "template_engine \<Rightarrow> str \<Rightarrow> bool" where
  "IsTemplate te s = (matches_in (\<lambda>t. scan ''${'' ''}'' t \<noteq> None) s \<or>
                      matches_in (\<lambda>t. scan ''{{'' ''}}'' t \<noteq> None) s)"

section \<open>Lemmas on the scanners\<close>

lemma matches_in_iff: "matches_in p s \<longleftrightarrow> (\<exists>t. suffix t s \<and> p t)"
  by (auto simp: matches_in_def list_ex_iff)

lemma matches_in_tl: "\<not> matches_in p s \<Longrightarrow> \<not> matches_in p (tl s)"
  by (auto simp: matches_in_iff) (metis suffix_order.trans suffix_tl)

lemma matches_in_here: "\<not> matches_in p s \<Longrightarrow> \<not> p s"
  by (auto simp: matches_in_iff)

lemma scan_rest_suffix: "scan opn cls s = Some (n, r) \<Longrightarrow> suffix r s"
  by (drule scan_decomp) (auto simp: suffix_def)

lemma replace_all_Nil [simp]: "replace_all opn cls f [] = []"
  by (simp add: replace_all.simps)

lemma replace_all_scan:
  "scan opn cls s = Some (n, r) \<Longrightarrow> replace_all opn cls f s = f n @ replace_all opn cls f r"
  using scan_rest_shorter[of opn cls s n r] by (subst replace_all.simps) auto

lemma replace_all_skip:
  "scan opn cls (x # s) = None \<Longrightarrow> replace_all opn cls f (x # s) = x # replace_all opn cls f s"
  by (subst replace_all.simps) auto

lemma replace_all_none: "\<not> matches_in (\<lambda>t. scan opn cls t \<noteq> None) s \<Longrightarrow> replace_all opn cls f s = s"
proof (induction s)
  case (Cons x s)
  have "scan opn cls (x # s) = None" using matches_in_here[OF Cons.prems] by (simp only: not_not)
  moreover have "replace_all opn cls f s = s"
    using matches_in_tl[OF Cons.prems] by (intro Cons.IH) simp
  ultimately show ?case by (simp only: replace_all_skip)
qed simp

lemma scan_hd: "opn \<noteq> [] \<Longrightarrow> x \<noteq> hd opn \<Longrightarrow> scan opn cls (x # s) = None"
  by (cases opn) (auto simp: scan_def scan_any_def)

lemma replace_all_skip_text:
  "opn \<noteq> [] \<Longrightarrow> hd opn \<notin> set t \<Longrightarrow> replace_all opn cls f (t @ s) = t @ replace_all opn cls f s"
proof (induction t)
  case (Cons a t)
  then have "scan opn cls (a # t @ s) = None" by (intro scan_hd) auto
  then show ?case using Cons by (simp add: replace_all_skip)
qed simp

lemma name_run_append:
  assumes "CHR ''}'' \<notin> set n"
  shows "name_run (n @ CHR ''}'' # r) = n" "after_run (n @ CHR ''}'' # r) = CHR ''}'' # r"
  using assms by (simp_all add: name_run_def after_run_def takeWhile_append dropWhile_append3) fastforce+

lemma scan_match:
  assumes "n \<noteq> []" and "CHR ''}'' \<notin> set n" and "cls = CHR ''}'' # c"
  shows "scan opn cls (opn @ n @ cls @ r) = Some (n, r)"
  using assms name_run_append[of n "c @ r"] by (simp add: scan_def scan_any_def)

text \<open>Without empty matches the two kinds of match coincide.\<close>

lemma scan_any_empty:
  "scan_any opn (CHR ''}'' # c) s = Some ([], r) \<Longrightarrow> empty_at opn (CHR ''}'' # c) s"
  by (drule scan_any_decomp) (auto simp: empty_at_def is_space_def)

lemma find_all_any_eq:
  assumes "\<not> matches_in (empty_at opn (CHR ''}'' # c)) s"
  shows "find_all_any opn (CHR ''}'' # c) s = find_all opn (CHR ''}'' # c) s"
  using assms
proof (induction s rule: measure_induct_rule[of length])
  case (less s)
  let ?cls = "CHR ''}'' # c"
  show ?case
  proof (cases "s = []")
    case True
    then show ?thesis by (simp add: find_all_any.simps find_all.simps)
  next
    case False
    then have IH: "find_all_any opn ?cls (tl s) = find_all opn ?cls (tl s)"
      using less by (simp add: matches_in_tl)
    show ?thesis
    proof (cases "scan_any opn ?cls s")
      case None
      then show ?thesis
        using IH by (subst find_all_any.simps, subst find_all.simps) (simp add: scan_def)
    next
      case (Some p)
      obtain n r where p: "p = (n, r)" by (cases p)
      have "n \<noteq> []" using scan_any_empty[of opn c s r] matches_in_here[OF less.prems] Some p by auto
      then have sc: "scan opn ?cls s = Some (n, r)" using Some p by (simp add: scan_def)
      have "\<not> matches_in (empty_at opn ?cls) r"
        using less.prems scan_rest_suffix[OF sc] by (auto simp: matches_in_iff dest: suffix_order.trans)
      then have "find_all_any opn ?cls r = find_all opn ?cls r"
        using less.IH scan_rest_shorter[OF sc] by blast
      then show ?thesis
        using Some p sc scan_rest_shorter[OF sc] False
        by (subst find_all_any.simps, subst find_all.simps) simp
    qed
  qed
qed

lemma find_all_Nil_iff: "find_all opn cls s = [] \<longleftrightarrow> \<not> matches_in (\<lambda>t. scan opn cls t \<noteq> None) s"
proof (induction s)
  case Nil
  show ?case by (cases opn; cases cls) (auto simp: find_all.simps matches_in_def scan_def scan_any_def
      name_run_def)
next
  case (Cons x s)
  show ?case
  proof (cases "scan opn cls (x # s)")
    case None
    then have "find_all opn cls (x # s) = find_all opn cls s" by (subst find_all.simps) simp
    then show ?thesis using Cons None by (auto simp: matches_in_def)
  next
    case (Some p)
    then show ?thesis by (cases p) (auto simp: find_all.simps matches_in_def)
  qed
qed

section \<open>Validation\<close>

lemma trim_suffix_brace [simp]: "trim_suffix (s @ p) p = s"
  by simp

lemma extractVariableName_dollar: "extractVariableName (''${'' @ n @ ''}'') = trim_space n"
  using trim_prefix_append[of "''${''" "n @ ''}''"] trim_suffix_append[of n "''}''"]
  by (simp add: extractVariableName_def has_prefix_def)

lemma extractVariableName_brace: "extractVariableName (''{{'' @ n @ ''}}'') = trim_space n"
  using trim_prefix_append[of "''{{''" "n @ ''}}''"] trim_suffix_append[of n "''}}''"]
  by (simp add: extractVariableName_def has_prefix_def)

lemma set_add_unseen: "set (add_unseen n vs) = insert n (set vs)"
  by (auto simp: add_unseen_def)

lemma set_fold_add_unseen:
  "set (fold (\<lambda>n. add_unseen (g n)) ns vs) = set vs \<union> g ` set ns"
  by (induction ns arbitrary: vs) (auto simp: set_add_unseen)

lemma set_GetTemplateVariables:
  "set (GetTemplateVariables te s) =
     trim_space ` (set (find_all ''${'' ''}'' s) \<union> set (find_all ''{{'' ''}}'' s))"
  by (auto simp: GetTemplateVariables_def set_fold_add_unseen)

definition valid_variable :: "str \<Rightarrow> bool" where
  "valid_variable n = (n \<noteq> [] \<and> list_all valid_name_char n)"

lemma validateVariableName_ok: "validateVariableName n = Inr () \<longleftrightarrow> valid_variable n"
  by (auto simp: validateVariableName_def valid_variable_def)

definition unmatched_in :: "str \<Rightarrow> bool" where
  "unmatched_in s = matches_in (\<lambda>t. unmatched_at ''${'' t \<or> unmatched_at ''{{'' t) s"

definition empty_in :: "str \<Rightarrow> bool" where
  "empty_in s = (matches_in (empty_at ''${'' ''}'') s \<or> matches_in (empty_at ''{{'' ''}}'') s)"

lemma check_name_ok:
  "(case validateVariableName v of Inl e \<Rightarrow> Inl (Wrapf p e) | Inr u \<Rightarrow> Inr ()) = Inr () \<longleftrightarrow> valid_variable v"
  using validateVariableName_ok[of v] by (cases "validateVariableName v") auto

lemma ValidateTemplate_ok:
  "ValidateTemplate te s = Inr () \<longleftrightarrow> \<not> unmatched_in s \<and> \<not> empty_in s \<and>
     (\<forall>v\<in>set (GetTemplateVariables te s). valid_variable v)"
proof (cases "s = []")
  case True
  have "find_all opn cls [] = []" for opn cls by (simp add: find_all.simps)
  then have "GetTemplateVariables te s = []" by (simp add: True GetTemplateVariables_def)
  then show ?thesis
    by (simp add: True ValidateTemplate_def unmatched_in_def empty_in_def matches_in_def
        unmatched_at_def empty_at_def)
next
  case False
  show ?thesis
  proof (cases "unmatched_in s \<or> empty_in s")
    case True
    then show ?thesis using False by (auto simp: ValidateTemplate_def unmatched_in_def empty_in_def)
  next
    case ok: False
    then have eq: "find_all_any ''${'' ''}'' s = find_all ''${'' ''}'' s"
      "find_all_any ''{{'' ''}}'' s = find_all ''{{'' ''}}'' s"
      by (auto simp: empty_in_def intro: find_all_any_eq)
    have "ValidateTemplate te s = Inr () \<longleftrightarrow>
      (\<forall>m\<in>set (map (\<lambda>n. ''${'' @ n @ ''}'') (find_all ''${'' ''}'' s) @
           map (\<lambda>n. ''{{'' @ n @ ''}}'') (find_all ''{{'' ''}}'' s)). valid_variable (extractVariableName m))"
      using False ok by (simp only: ValidateTemplate_def eq Let_def and_then_ok check_that_ok
        first_err_ok check_name_ok unmatched_in_def empty_in_def if_False simp_thms) blast
    also have "\<dots> \<longleftrightarrow> (\<forall>v\<in>set (GetTemplateVariables te s). valid_variable v)"
      using extractVariableName_dollar extractVariableName_brace
      by (auto simp: set_GetTemplateVariables ball_Un)
    finally show ?thesis using ok by blast
  qed
qed

lemma not_template: "\<not> IsTemplate te s \<Longrightarrow> ProcessTemplate te s c = Inr s"
  by (auto simp: IsTemplate_def ProcessTemplate_def Let_def replace_all_none)

text \<open>Where a variable cannot start.\<close>

lemma no_match_text:
  assumes "opn \<noteq> []" and "hd opn \<notin> set s"
  shows "\<not> matches_in (\<lambda>t. scan opn cls t \<noteq> None) s" and "\<not> matches_in (empty_at opn cls) s"
proof -
  have "\<not> prefix opn t" if "suffix t s" for t
  proof
    assume "prefix opn t"
    then have "hd opn \<in> set t" using assms(1) by (cases opn) (auto simp: prefix_def)
    then show False using assms(2) that by (auto simp: suffix_def)
  qed
  then show "\<not> matches_in (\<lambda>t. scan opn cls t \<noteq> None) s" "\<not> matches_in (empty_at opn cls) s"
    by (auto simp: matches_in_iff scan_def scan_any_def empty_at_def split: if_splits)
qed

lemma closed_not_unmatched: "\<not> unmatched_in (s @ ''}'')"
proof
  assume "unmatched_in (s @ ''}'')"
  then obtain t opn where t: "suffix t (s @ ''}'')" "opn \<in> {''${'', ''{{''}" "prefix opn t"
    "CHR ''}'' \<notin> set (drop (length opn) t)"
    unfolding unmatched_in_def matches_in_iff unmatched_at_def by blast
  then have "t \<noteq> []" by auto
  then have "last t = CHR ''}''" using t(1) by (auto simp: suffix_def)
       (metis last_appendR last_snoc)
  moreover obtain r where r: "t = opn @ r" using t(3) by (auto simp: prefix_def)
  ultimately have "r \<noteq> []" "last r = CHR ''}''" using t(2) by (cases r; auto)+
  then have "CHR ''}'' \<in> set r" using last_in_set by metis
  then show False using t(4) r by simp
qed

section \<open>Templates as pieces\<close>

datatype piece = Text str | Dollar str | Brace str

fun render :: "piece \<Rightarrow> str" where
  "render (Text t) = t"
| "render (Dollar n) = ''${'' @ n @ ''}''"
| "render (Brace n) = ''{{'' @ n @ ''}}''"

fun expand :: "(str, str) gomap \<Rightarrow> piece \<Rightarrow> str" where
  "expand m (Text t) = t"
| "expand m (Dollar n) = (case mget m n of Some v \<Rightarrow> v | None \<Rightarrow> ''${'' @ n @ ''}'')"
| "expand m (Brace n) = (case mget m (trim_space n) of Some v \<Rightarrow> v | None \<Rightarrow> ''{{'' @ n @ ''}}'')"

definition plain :: "str \<Rightarrow> bool" where
  "plain s = (CHR ''$'' \<notin> set s \<and> CHR ''{'' \<notin> set s)"

definition piece_name :: "str \<Rightarrow> bool" where
  "piece_name n = (n \<noteq> [] \<and> plain n \<and> CHR ''}'' \<notin> set n)"

fun good_piece :: "(str, str) gomap \<Rightarrow> piece \<Rightarrow> bool" where
  "good_piece m (Text t) = plain t"
| "good_piece m (Dollar n) = (piece_name n \<and> (\<forall>v. mget m n = Some v \<longrightarrow> CHR ''{'' \<notin> set v))"
| "good_piece m (Brace n) = piece_name n"

text \<open>The template between the two passes.\<close>

fun half :: "(str, str) gomap \<Rightarrow> piece \<Rightarrow> str" where
  "half m (Dollar n) = subst_dollar m n"
| "half m p = render p"

lemma first_pass:
  "\<forall>p\<in>set ps. good_piece m p \<Longrightarrow>
   replace_all ''${'' ''}'' (subst_dollar m) (concat (map render ps)) = concat (map (half m) ps)"
proof (induction ps)
  case (Cons p ps)
  let ?f = "replace_all ''${'' ''}'' (subst_dollar m)"
  let ?r = "concat (map render ps)"
  have IH: "?f ?r = concat (map (half m) ps)" using Cons by simp
  have skip: "?f (t @ ?r) = t @ ?f ?r" if "CHR ''$'' \<notin> set t" for t
    using that by (intro replace_all_skip_text) auto
  have g: "good_piece m p" using Cons.prems by simp
  have "?f (render p @ ?r) = half m p @ ?f ?r"
  proof (cases p)
    case (Dollar n)
    have "scan ''${'' ''}'' (''${'' @ n @ ''}'' @ ?r) = Some (n, ?r)"
      using g Dollar by (intro scan_match[of n _ "[]"]) (auto simp: piece_name_def)
    then show ?thesis using replace_all_scan[of "''${''" "''}''"] Dollar by simp
  next
    case (Text t)
    then show ?thesis using skip[of t] g by (simp add: plain_def)
  next
    case (Brace n)
    then show ?thesis using skip[of "''{{'' @ n @ ''}}''"] g by (simp add: plain_def piece_name_def)
  qed
  then show ?case using IH by simp
qed simp

lemma second_pass:
  "\<forall>p\<in>set ps. good_piece m p \<Longrightarrow>
   replace_all ''{{'' ''}}'' (subst_brace m) (concat (map (half m) ps)) = concat (map (expand m) ps)"
proof (induction ps)
  case (Cons p ps)
  let ?f = "replace_all ''{{'' ''}}'' (subst_brace m)"
  let ?r = "concat (map (half m) ps)"
  have IH: "?f ?r = concat (map (expand m) ps)" using Cons by simp
  have skip: "?f (t @ s) = t @ ?f s" if "CHR ''{'' \<notin> set t" for t s
    using that by (intro replace_all_skip_text) auto
  have g: "good_piece m p" using Cons.prems by simp
  have "?f (half m p @ ?r) = expand m p @ ?f ?r"
  proof (cases p)
    case (Brace n)
    have "scan ''{{'' ''}}'' (''{{'' @ n @ ''}}'' @ ?r) = Some (n, ?r)"
      using g Brace by (intro scan_match[of n _ "''}''"]) (auto simp: piece_name_def)
    then show ?thesis using replace_all_scan[of "''{{''" "''}}''"] Brace by (simp add: subst_brace_def)
  next
    case (Text t)
    then show ?thesis using skip[of t] g by (simp add: plain_def)
  next
    case (Dollar n)
    show ?thesis
    proof (cases "mget m n")
      case (Some v)
      then show ?thesis using skip[of v] g Dollar by (simp add: subst_dollar_def)
    next
      case None
      obtain c k where n: "n = c # k" "c \<noteq> CHR ''{''" "CHR ''{'' \<notin> set n"
        using g Dollar by (cases n) (auto simp: piece_name_def plain_def)
      have "scan ''{{'' ''}}'' (CHR ''{'' # n @ s) = None" for s
        using n by (simp add: scan_def scan_any_def)
      then have "?f (''${'' @ n @ ''}'' @ ?r) = ''${'' @ n @ ''}'' @ ?f ?r"
        using skip[of "n @ ''}''" ?r] n skip[of "''$''"] by (simp add: replace_all_skip)
      then show ?thesis using None Dollar by (simp add: subst_dollar_def)
    qed
  qed
  then show ?case using IH by simp
qed simp

lemma process_template_pieces_aux:
  assumes "m = buildVariableMap te c" and "\<forall>p\<in>set ps. good_piece m p"
  shows "ProcessTemplate te (concat (map render ps)) c = Inr (concat (map (expand m) ps))"
proof (cases "concat (map render ps) = []")
  case True
  moreover have "expand m p = []" if "render p = []" for p using that by (cases p) auto
  ultimately have "concat (map (expand m) ps) = []" by simp
  then show ?thesis using True by (simp add: ProcessTemplate_def)
next
  case False
  then show ?thesis
    using first_pass[OF assms(2)] second_pass[OF assms(2)]
    by (simp only: ProcessTemplate_def Let_def assms(1) if_False)
qed

lemma valid_variable_chars:
  assumes "valid_variable n"
  shows "n \<noteq> []" "CHR ''}'' \<notin> set n" "CHR ''{'' \<notin> set n" "CHR ''$'' \<notin> set n" "CHR '' '' \<notin> set n"
    "hd n \<noteq> CHR ''}''" "trim_space (CHR '' '' # n) = n"
    "dropWhile is_space (CHR '' '' # n @ s) = n @ s"
proof -
  have no: "c \<notin> set n" if "\<not> valid_name_char c" for c
    using assms that by (auto simp: valid_variable_def list_all_iff)
  have bad: "\<not> valid_name_char c" if "c \<in> {CHR ''}'', CHR ''{'', CHR ''$'', CHR '' ''}" for c
    using that by (auto simp: valid_name_char_def alnum_def lower_alnum_def in_range_def)
  show n: "n \<noteq> []" using assms by (simp add: valid_variable_def)
  show "CHR ''}'' \<notin> set n" "CHR ''{'' \<notin> set n" "CHR ''$'' \<notin> set n" "CHR '' '' \<notin> set n"
    using no bad by blast+
  then show "hd n \<noteq> CHR ''}''" using n hd_in_set by metis
  have g: "graphic c" if "valid_name_char c" for c
    using that by (auto simp: valid_name_char_def alnum_def lower_alnum_def in_range_def graphic_def)
  then have gn: "\<forall>c\<in>set n. graphic c" using assms by (auto simp: valid_variable_def list_all_iff)
  then have "trim_left_of space_runes n = n"
    using n space_runes_hd by (intro trim_left_graphic) auto
  moreover have "drop_first_of space_runes (CHR '' '' # n) = Some n"
    by (simp add: space_runes_def char_of_eq_iff)
  ultimately have "trim_left_of space_runes (CHR '' '' # n) = n" by (subst trim_left_of.simps) simp
  then show "trim_space (CHR '' '' # n) = n"
    using trim_space_all_graphic[OF gn] \<open>trim_left_of space_runes n = n\<close> by (simp add: trim_space_def)
  have "\<not> is_space (hd n)" using gn n hd_in_set[of n] by (fastforce simp: is_space_def graphic_def)
  then show "dropWhile is_space (CHR '' '' # n @ s) = n @ s"
    using n by (cases n) (auto simp: is_space_def)
qed

section \<open>Properties\<close>

text \<open>
  C39: a template made of text without \<open>$\<close> and braces and of variables of both notations is
  turned into the text with each variable replaced by its value, unknown variables left as they
  stand, provided the values of the \<open>${..}\<close> variables hold no opening brace.  A \<open>{{..}}\<close> name is
  trimmed before the lookup, a \<open>${..}\<close> name is not.
\<close>

theorem process_template_pieces:
  assumes "m = buildVariableMap te c" and "\<forall>p\<in>set ps. good_piece m p"
  shows "ProcessTemplate te (concat (map render ps)) c = Inr (concat (map (expand m) ps))"
  using assms by (rule process_template_pieces_aux)

definition sample_context :: template_context where
  "sample_context = \<lparr>ctx_Variables = [(''team'', ''core'')], ctx_Resource = None, ctx_RuleName = ''r'',
     ctx_RuleNamespace = ''ns'', ctx_RuleID = ''ns/r'', ctx_ExecutionTime = 0, ctx_Action = ''apply''\<rparr>"

lemma sample_variables:
  "mget (buildVariableMap te sample_context) ''team'' = Some ''core''"
  "mget (buildVariableMap te sample_context) ''action'' = Some ''apply''"
  by (simp_all add: buildVariableMap_def sample_context_def system_variables_def)

theorem process_template_pieces_witness:
  "ProcessTemplate NewTemplateEngine ''by ${team}: {{ action}}!'' sample_context =
     Inr ''by core: apply!''"
proof -
  let ?m = "buildVariableMap NewTemplateEngine sample_context"
  have "trim_space '' action'' = ''action''"
    by (rule valid_variable_chars) (simp add: valid_variable_def valid_name_char_def alnum_def lower_alnum_def in_range_def)
  then show ?thesis
    using process_template_pieces[of ?m NewTemplateEngine sample_context
        "[Text ''by '', Dollar ''team'', Text '': '', Brace '' action'', Text ''!'']"] sample_variables
    by (simp add: plain_def piece_name_def)
qed

text \<open>
  C40: a template passes validation exactly if no opening of a variable is without a closing
  brace after it, no variable is empty, and every variable that \<open>GetTemplateVariables\<close> reports
  is made of letters, digits, dots, dashes and underscores.
\<close>

theorem validate_template_iff:
  "ValidateTemplate te s = Inr () \<longleftrightarrow> \<not> unmatched_in s \<and> \<not> empty_in s \<and>
     list_all valid_variable (GetTemplateVariables te s)"
  by (simp add: ValidateTemplate_ok list_all_iff)

text \<open>
  A string that \<open>IsTemplate\<close> rejects has no variables and is not changed by processing.
\<close>

theorem not_a_template:
  "IsTemplate te s \<or> (GetTemplateVariables te s = [] \<and> ProcessTemplate te s c = Inr s)"
proof (cases "IsTemplate te s")
  case False
  then have "find_all ''${'' ''}'' s = []" "find_all ''{{'' ''}}'' s = []"
    unfolding find_all_Nil_iff IsTemplate_def by blast+
  then show ?thesis using not_template[OF False] by (simp add: GetTemplateVariables_def)
qed simp

text \<open>
  A variable of the notation \<open>${..}\<close> with a space before its name passes validation, which
  trims the name, but is not substituted, since the lookup does not trim it.  And a value is
  scanned again: a value \<open>{{b}}\<close> of a \<open>${a}\<close> is replaced by the value of \<open>b\<close>.
\<close>

theorem dollar_names_are_not_trimmed:
  assumes "valid_variable n" and "m = buildVariableMap te c"
  shows "ValidateTemplate te (''${ '' @ n @ ''}'') = Inr () \<and>
    (mget m (CHR '' '' # n) = None \<longrightarrow>
       ProcessTemplate te (''${ '' @ n @ ''}'') c = Inr (''${ '' @ n @ ''}'')) \<and>
    (mget m n = Some ''{{x}}'' \<and> mget m ''x'' = Some v \<longrightarrow>
       ProcessTemplate te (''${'' @ n @ ''}'') c = Inr v)"
proof (intro conjI impI)
  note chars = valid_variable_chars[OF assms(1)]
  let ?t = "''${ '' @ n @ ''}''"
  have scan1: "scan ''${'' ''}'' ?t = Some (CHR '' '' # n, [])"
    using scan_match[of "CHR '' '' # n" "''}''" "[]" "''${''" "[]"] chars by simp
  have brace: "\<not> matches_in (\<lambda>t. scan ''{{'' ''}}'' t \<noteq> None) ?t" "\<not> matches_in (empty_at ''{{'' ''}}'') ?t"
    using chars no_match_text[of "''{{''" "'' '' @ n @ ''}''"]
    by (auto simp: matches_in_def scan_def scan_any_def empty_at_def)
  have "\<not> matches_in (empty_at ''${'' ''}'') ?t"
    using chars no_match_text(2)[of "''${''" "''{ '' @ n @ ''}''"]
    by (cases n) (auto simp: matches_in_def empty_at_def is_space_def)
  then have "\<not> empty_in ?t" using brace by (simp only: empty_in_def) blast
  moreover have "\<not> unmatched_in ?t" using closed_not_unmatched[of "''${ '' @ n"] by simp
  moreover have "find_all ''${'' ''}'' ?t = [CHR '' '' # n]"
    using scan1 by (subst find_all.simps) (simp add: find_all.simps)
  moreover have "find_all ''{{'' ''}}'' ?t = []" using brace(1) unfolding find_all_Nil_iff .
  ultimately show "ValidateTemplate te ?t = Inr ()"
    using assms(1) chars by (simp add: ValidateTemplate_ok GetTemplateVariables_def add_unseen_def)
  show "ProcessTemplate te ?t c = Inr ?t" if "mget m (CHR '' '' # n) = None"
    using process_template_pieces_aux[OF assms(2), of "[Dollar (CHR '' '' # n)]"] that chars
    by (simp add: piece_name_def plain_def)
  show "ProcessTemplate te (''${'' @ n @ ''}'') c = Inr v"
    if "mget m n = Some ''{{x}}'' \<and> mget m ''x'' = Some v"
  proof -
    have "scan ''${'' ''}'' (''${'' @ n @ ''}'') = Some (n, [])"
      using scan_match[of n "''}''" "[]" "''${''" "[]"] chars by simp
    then have "replace_all ''${'' ''}'' (subst_dollar m) (''${'' @ n @ ''}'') = ''{{x}}''"
      using that by (simp add: replace_all_scan subst_dollar_def)
    moreover have "scan ''{{'' ''}}'' ''{{x}}'' = Some (''x'', [])"
      using scan_match[of "''x''" "''}}''" "''}''" "''{{''" "[]"] by simp
    then have "replace_all ''{{'' ''}}'' (subst_brace m) ''{{x}}'' = v"
      using that by (simp add: replace_all_scan subst_brace_def trim_space_all_graphic graphic_def)
    ultimately show ?thesis by (simp add: ProcessTemplate_def Let_def flip: assms(2))
  qed
qed

theorem dollar_names_are_not_trimmed_witness:
  "ValidateTemplate NewTemplateEngine ''${ team}'' = Inr () \<and>
   ProcessTemplate NewTemplateEngine ''${ team}'' sample_context = Inr ''${ team}''"
  using dollar_names_are_not_trimmed[of "''team''" _ NewTemplateEngine sample_context, OF _ refl]
  by (simp add: valid_variable_def valid_name_char_def alnum_def lower_alnum_def in_range_def
      buildVariableMap_def sample_context_def system_variables_def NewTemplateEngine_def)

end
