(* ===== verification/Audit_Logger.thy ===== *)
theory Audit_Logger
  imports Cluster_Objects Go_Time
begin

text \<open>
  \<open>internal/security/audit.go\<close>: the audit records of annotation operations.  A record goes to
  the structured log of the world (\<open>api_log\<close>); a security violation also becomes an event of
  the cluster.  The second, shorter log line of \<open>logEvent\<close> is left out.
\<close>

definition getResourceInfo :: "resource \<Rightarrow> resource_info" where
  "getResourceInfo r = \<lparr>info_Kind = res_TypeMetaKind r, info_Name = res_Name r,
     info_Namespace = res_Namespace r, info_UID = res_UID r\<rparr>"

definition no_resource :: resource_info where
  "no_resource = \<lparr>info_Kind = [], info_Name = [], info_Namespace = [], info_UID = []\<rparr>"

definition logEvent :: "'w api \<Rightarrow> audit_event \<Rightarrow> 'w \<Rightarrow> 'w" where
  "logEvent api event w = api_log api event w"

text \<open>The event all operations build; \<open>err\<close> is the error, if any.\<close>

definition audit_record :: "'w api \<Rightarrow> str \<Rightarrow> str \<Rightarrow> str \<Rightarrow> str \<Rightarrow> resource_info \<Rightarrow> (str, str) gomap \<Rightarrow>
    bool \<Rightarrow> goerr option \<Rightarrow> 'w \<Rightarrow> audit_event" where
  "audit_record api action ruleID ruleName ruleNamespace info annotations success err w =
     \<lparr>ev_Timestamp = api_now api w, ev_Action = action, ev_RuleID = ruleID, ev_RuleName = ruleName,
      ev_RuleNamespace = ruleNamespace, ev_Resource = info, ev_Annotations = annotations,
      ev_Success = success, ev_Error = (case err of None \<Rightarrow> [] | Some e \<Rightarrow> err_text e)\<rparr>"

definition LogAnnotationApply :: "'w api \<Rightarrow> str \<Rightarrow> str \<Rightarrow> str \<Rightarrow> resource \<Rightarrow> (str, str) gomap \<Rightarrow>
    bool \<Rightarrow> goerr option \<Rightarrow> 'w \<Rightarrow> 'w" where
  "LogAnnotationApply api ruleID ruleName ruleNamespace r annotations success err w =
     logEvent api (audit_record api ''apply'' ruleID ruleName ruleNamespace (getResourceInfo r)
       annotations success err w) w"

definition LogAnnotationRemove :: "'w api \<Rightarrow> str \<Rightarrow> str \<Rightarrow> str \<Rightarrow> resource \<Rightarrow> str list \<Rightarrow>
    bool \<Rightarrow> goerr option \<Rightarrow> 'w \<Rightarrow> 'w" where
  "LogAnnotationRemove api ruleID ruleName ruleNamespace r annotationKeys success err w =
     logEvent api (audit_record api ''remove'' ruleID ruleName ruleNamespace (getResourceInfo r)
       (mput_all (map (\<lambda>k. (k, ''<removed>'')) annotationKeys) []) success err w) w"

definition LogValidationFailure :: "'w api \<Rightarrow> str \<Rightarrow> str \<Rightarrow> str \<Rightarrow> (str, str) gomap \<Rightarrow> goerr \<Rightarrow>
    'w \<Rightarrow> 'w" where
  "LogValidationFailure api ruleID ruleName ruleNamespace annotations err w =
     logEvent api (audit_record api ''validate'' ruleID ruleName ruleNamespace no_resource
       annotations False (Some err) w) w"

definition createSecurityEvent :: "'w api \<Rightarrow> audit_event \<Rightarrow> 'w \<Rightarrow> 'w" where
  "createSecurityEvent api event w =
     (let eventNamespace = (if ev_RuleNamespace event = [] then ''default'' else ev_RuleNamespace event);
          kubernetesEvent = \<lparr>
            ke_Name = ''security-violation-'' @ show_int (time_unix (api_now api w)),
            ke_Namespace = eventNamespace, ke_InvolvedObject = ev_Resource event,
            ke_Reason = ''SecurityViolation'',
            ke_Message = ''Security policy violation in annotation rule '' @ ev_RuleName event @ '': '' @
              ev_Error event,
            ke_SourceComponent = ''dynamic-annotation-controller'',
            ke_FirstTimestamp = ev_Timestamp event, ke_LastTimestamp = ev_Timestamp event,
            ke_Count = 1, ke_Type = ''Warning''\<rparr>
      in snd (api_createEvent api kubernetesEvent w))"

definition LogSecurityViolation :: "'w api \<Rightarrow> str \<Rightarrow> str \<Rightarrow> str \<Rightarrow> resource \<Rightarrow> str \<Rightarrow>
    (str, str) gomap \<Rightarrow> 'w \<Rightarrow> 'w" where
  "LogSecurityViolation api ruleID ruleName ruleNamespace r violation annotations w =
     (let event = audit_record api ''security_violation'' ruleID ruleName ruleNamespace
                    (getResourceInfo r) annotations False (Some (Errorf violation)) w
      in createSecurityEvent api event (logEvent api event w))"

definition LogRuleCreation :: "'w api \<Rightarrow> str \<Rightarrow> str \<Rightarrow> str \<Rightarrow> (str, str) gomap \<Rightarrow> 'w \<Rightarrow> 'w" where
  "LogRuleCreation api ruleID ruleName ruleNamespace annotations w =
     logEvent api (audit_record api ''rule_created'' ruleID ruleName ruleNamespace no_resource
       annotations True None w) w"

definition LogRuleDeletion :: "'w api \<Rightarrow> str \<Rightarrow> str \<Rightarrow> str \<Rightarrow> (str, str) gomap \<Rightarrow> 'w \<Rightarrow> 'w" where
  "LogRuleDeletion api ruleID ruleName ruleNamespace annotations w =
     logEvent api (audit_record api ''rule_deleted'' ruleID ruleName ruleNamespace no_resource
       annotations True None w) w"

definition GetAuditSummary :: "str \<Rightarrow> duration \<Rightarrow> goerr + (str, int) gomap" where
  "GetAuditSummary namespace since = Inr [(''total_operations'', 0), (''successful_applies'', 0),
     (''successful_removes'', 0), (''failed_operations'', 0), (''security_violations'', 0),
     (''validation_failures'', 0)]"

end
