(* ===== verification/Resource_Manager.thy ===== *)
theory Resource_Manager
  imports Resource_Cache Rate_Limiter Template_Engine Audit_Logger
begin

text \<open>
  \<open>internal/resource/manager.go\<close>: discovery of resources, and application and removal of
  annotations on them.  An operation maps the state of the manager (validator, template engine,
  cache, rate limiter) and of the world to a result and the new states.  A resource is a value;
  the deep copy the source makes before it changes a resource is the identity.  Logging is left
  out, the audit records are kept.
\<close>

section \<open>State\<close>

record 'l resource_manager =
  rm_Validator :: annotation_validator
  rm_TemplateEngine :: template_engine
  rm_Cache :: "resource resource_cache option"
  rm_RateLimiter :: "'l rate_limiter option"

text \<open>
  The libraries the manager calls: the API client, the token buckets, label selectors, and
  \<open>sort.Slice\<close> on operations (an unstable sort, so a parameter).
\<close>

record ('w, 'l) deps =
  dep_api :: "'w api"
  dep_lim :: "'l limiter_lib"
  dep_sel :: selector_lib
  dep_sort :: "(annotation_operation \<Rightarrow> annotation_operation \<Rightarrow> bool) \<Rightarrow>
    annotation_operation list \<Rightarrow> annotation_operation list"

definition NewResourceManager :: "'l limiter_lib \<Rightarrow> 'l resource_manager" where
  "NewResourceManager lib = \<lparr>rm_Validator = NewAnnotationValidator,
     rm_TemplateEngine = NewTemplateEngine,
     rm_Cache = Some (NewResourceCache (5 * time_minute) 1000),
     rm_RateLimiter = Some (NewAnnotationRateLimiter lib (Some DefaultRateLimiterConfig))\<rparr>"

section \<open>Discovery\<close>

definition supportedTypes :: "str list" where
  "supportedTypes = [''pods'', ''deployments'', ''statefulsets'', ''daemonsets'']"

text \<open>The lists of typed objects; the sources take the address of every item.\<close>

definition getPods :: "'w api \<Rightarrow> list_options \<Rightarrow> 'w \<Rightarrow> (goerr + resource list) \<times> 'w" where
  "getPods api listOpts w =
     (case api_list api ''pods'' (fst listOpts) (snd listOpts) w of
        (Inl e, w1) \<Rightarrow> (Inl (Wrapf ''failed to list pods: '' e), w1)
      | (Inr items, w1) \<Rightarrow> (Inr (items), w1))"

definition getDeployments :: "'w api \<Rightarrow> list_options \<Rightarrow> 'w \<Rightarrow> (goerr + resource list) \<times> 'w" where
  "getDeployments api listOpts w =
     (case api_list api ''deployments'' (fst listOpts) (snd listOpts) w of
        (Inl e, w1) \<Rightarrow> (Inl (Wrapf ''failed to list deployments: '' e), w1)
      | (Inr items, w1) \<Rightarrow> (Inr (items), w1))"

definition getStatefulSets :: "'w api \<Rightarrow> list_options \<Rightarrow> 'w \<Rightarrow> (goerr + resource list) \<times> 'w" where
  "getStatefulSets api listOpts w =
     (case api_list api ''statefulsets'' (fst listOpts) (snd listOpts) w of
        (Inl e, w1) \<Rightarrow> (Inl (Wrapf ''failed to list statefulsets: '' e), w1)
      | (Inr items, w1) \<Rightarrow> (Inr (items), w1))"

definition getDaemonSets :: "'w api \<Rightarrow> list_options \<Rightarrow> 'w \<Rightarrow> (goerr + resource list) \<times> 'w" where
  "getDaemonSets api listOpts w =
     (case api_list api ''daemonsets'' (fst listOpts) (snd listOpts) w of
        (Inl e, w1) \<Rightarrow> (Inl (Wrapf ''failed to list daemonsets: '' e), w1)
      | (Inr items, w1) \<Rightarrow> (Inr (items), w1))"

text \<open>No field selector is added: every case of the \<open>switch\<close> is empty.\<close>

definition getOptimizedFieldSelectors :: "str \<Rightarrow> list_options \<Rightarrow> list_options" where
  "getOptimizedFieldSelectors resourceType opts = opts"

definition getResourcesByType :: "'w api \<Rightarrow> str \<Rightarrow> label_selector \<Rightarrow> str \<Rightarrow> 'w \<Rightarrow>
    (goerr + resource list) \<times> 'w" where
  "getResourcesByType api resourceType selector namespace w =
     (let listOpts = getOptimizedFieldSelectors resourceType
            (Some selector, if namespace \<noteq> [] then namespace else [])
      in if resourceType = ''pods'' then getPods api listOpts w
         else if resourceType = ''deployments'' then getDeployments api listOpts w
         else if resourceType = ''statefulsets'' then getStatefulSets api listOpts w
         else if resourceType = ''daemonsets'' then getDaemonSets api listOpts w
         else (Inl (Errorf (''unsupported resource type: '' @ resourceType)), w))"

text \<open>The four cases agree up to the type.\<close>

lemma getResourcesByType_alt:
  "getResourcesByType api resourceType selector namespace w =
     (if resourceType \<in> set supportedTypes
      then (case api_list api resourceType (Some selector) namespace w of
              (Inl e, w1) \<Rightarrow> (Inl (Wrapf (''failed to list '' @ resourceType @ '': '') e), w1)
            | (Inr rs, w1) \<Rightarrow> (Inr rs, w1))
      else (Inl (Errorf (''unsupported resource type: '' @ resourceType)), w))"
proof -
  have opts: "getOptimizedFieldSelectors resourceType (Some selector, if namespace \<noteq> [] then namespace else []) =
      (Some selector, namespace)"
    by (simp add: getOptimizedFieldSelectors_def)
  show ?thesis
    unfolding getResourcesByType_def getPods_def getDeployments_def getStatefulSets_def getDaemonSets_def
      Let_def opts fst_conv snd_conv
    by (auto simp: supportedTypes_def split: prod.split sum.split)
qed

text \<open>Waiting for the rate limiter: the wait passes time in the world.\<close>

definition rate_wait :: "('w, 'l) deps \<Rightarrow> str \<Rightarrow> str \<Rightarrow> 'l resource_manager \<times> 'w \<Rightarrow>
    (goerr + unit) \<times> 'l resource_manager \<times> 'w" where
  "rate_wait d operation namespace = (\<lambda>(rm, w).
     case rm_RateLimiter rm of
       None \<Rightarrow> (Inr (), rm, w)
     | Some arl \<Rightarrow> (case Wait (dep_lim d) (api_now (dep_api d) w) operation namespace arl of
         ((r, t), arl1) \<Rightarrow> (r, rm\<lparr>rm_RateLimiter := Some arl1\<rparr>,
            api_sleep (dep_api d) (t - api_now (dep_api d) w) w)))"

definition cache_lookup :: "('w, 'l) deps \<Rightarrow> label_selector \<Rightarrow> str list \<Rightarrow> str \<Rightarrow>
    'l resource_manager \<times> 'w \<Rightarrow> resource list option \<times> 'l resource_manager \<times> 'w" where
  "cache_lookup d selector resourceTypes namespace = (\<lambda>(rm, w).
     case rm_Cache rm of
       None \<Rightarrow> (None, rm, w)
     | Some rc \<Rightarrow>
         (case GetCachedResources (dep_sel d) (api_now (dep_api d) w) selector resourceTypes namespace rc of
            (r, rc1) \<Rightarrow> (r, rm\<lparr>rm_Cache := Some rc1\<rparr>, w)))"

definition cache_fill :: "('w, 'l) deps \<Rightarrow> label_selector \<Rightarrow> str list \<Rightarrow> str \<Rightarrow> resource list \<Rightarrow>
    'l resource_manager \<times> 'w \<Rightarrow> 'l resource_manager \<times> 'w" where
  "cache_fill d selector resourceTypes namespace rs = (\<lambda>(rm, w).
     (rm\<lparr>rm_Cache := map_option
          (CacheResources (dep_sel d) (api_now (dep_api d) w) selector resourceTypes namespace rs)
          (rm_Cache rm)\<rparr>, w))"

definition cache_invalidate :: "str \<Rightarrow> 'l resource_manager \<Rightarrow> 'l resource_manager" where
  "cache_invalidate namespace rm =
     rm\<lparr>rm_Cache := map_option (InvalidateCache namespace []) (rm_Cache rm)\<rparr>"

text \<open>The loop over the resource types: a type that cannot be listed is logged and skipped.\<close>

definition list_types :: "'w api \<Rightarrow> label_selector \<Rightarrow> str list \<Rightarrow> str \<Rightarrow> 'w \<Rightarrow> resource list \<times> 'w" where
  "list_types api selector resourceTypes namespace w =
     (case for_each (\<lambda>t. getResourcesByType api t selector namespace) resourceTypes w of
        (rss, w1) \<Rightarrow> (concat (map (\<lambda>r. case r of Inl e \<Rightarrow> [] | Inr rs \<Rightarrow> rs) rss), w1))"

definition GetMatchingResources :: "('w, 'l) deps \<Rightarrow> label_selector \<Rightarrow> str list \<Rightarrow> str \<Rightarrow>
    'l resource_manager \<times> 'w \<Rightarrow> (goerr + resource list) \<times> 'l resource_manager \<times> 'w" where
  "GetMatchingResources d selector resourceTypes namespace st =
     (case rate_wait d OperationTypeQuery namespace st of
        (Inl e, st1) \<Rightarrow> (Inl (Wrapf ''rate limit exceeded for resource query: '' e), st1)
      | (Inr _, st1) \<Rightarrow>
        (case cache_lookup d selector resourceTypes namespace st1 of
           (Some rs, st2) \<Rightarrow> (Inr rs, st2)
         | (None, st2) \<Rightarrow>
           (case sel_convert (dep_sel d) selector of
              Inl e \<Rightarrow> (Inl (Wrapf ''failed to convert label selector: '' e), st2)
            | Inr _ \<Rightarrow>
              (case list_types (dep_api d) selector resourceTypes namespace (snd st2) of
                 (rs, w1) \<Rightarrow>
                   (Inr rs, cache_fill d selector resourceTypes namespace rs (fst st2, w1))))))"

definition FilterResourcesBySelector :: "selector_lib \<Rightarrow> resource list \<Rightarrow> label_selector \<Rightarrow>
    goerr + resource list" where
  "FilterResourcesBySelector sl resources selector =
     (case sel_convert sl selector of
        Inl e \<Rightarrow> Inl (Wrapf ''failed to convert label selector: '' e)
      | Inr _ \<Rightarrow> Inr (filter (\<lambda>r. sel_matches sl selector (res_Labels r)) resources))"

definition ValidateResourceTypes :: "str list \<Rightarrow> str list" where
  "ValidateResourceTypes resourceTypes = filter (\<lambda>t. t \<notin> set supportedTypes) resourceTypes"

definition GetSupportedResourceTypes :: "str list" where
  "GetSupportedResourceTypes = [''pods'', ''deployments'', ''statefulsets'', ''daemonsets'']"

definition CountResourcesByType :: "('w, 'l) deps \<Rightarrow> label_selector \<Rightarrow> str list \<Rightarrow> str \<Rightarrow> 'w \<Rightarrow>
    (goerr + (str, int) gomap) \<times> 'w" where
  "CountResourcesByType d selector resourceTypes namespace w =
     (case sel_convert (dep_sel d) selector of
        Inl e \<Rightarrow> (Inl (Wrapf ''failed to convert label selector: '' e), w)
      | Inr _ \<Rightarrow>
        (case for_each (\<lambda>t. getResourcesByType (dep_api d) t selector namespace) resourceTypes w of
           (rss, w1) \<Rightarrow> (Inr (mput_all (zip resourceTypes
              (map (\<lambda>r. case r of Inl e \<Rightarrow> 0 | Inr rs \<Rightarrow> int (length rs)) rss)) []), w1)))"

definition GetResourcesByNamespace :: "resource list \<Rightarrow> (str, resource list) gomap" where
  "GetResourcesByNamespace resources =
     fold (\<lambda>r m. let ns = (if res_Namespace r = [] then ''cluster-scoped'' else res_Namespace r)
                 in mput ns ((case mget m ns of None \<Rightarrow> [] | Some rs \<Rightarrow> rs) @ [r]) m) resources []"

fun has_matching :: "'w api \<Rightarrow> label_selector \<Rightarrow> str list \<Rightarrow> str \<Rightarrow> 'w \<Rightarrow> bool \<times> 'w" where
  "has_matching api selector [] namespace w = (False, w)"
| "has_matching api selector (t # ts) namespace w =
     (case getResourcesByType api t selector namespace w of
        (Inl e, w1) \<Rightarrow> has_matching api selector ts namespace w1
      | (Inr rs, w1) \<Rightarrow> if length rs > 0 then (True, w1) else has_matching api selector ts namespace w1)"

definition HasMatchingResources :: "('w, 'l) deps \<Rightarrow> label_selector \<Rightarrow> str list \<Rightarrow> str \<Rightarrow> 'w \<Rightarrow>
    (goerr + bool) \<times> 'w" where
  "HasMatchingResources d selector resourceTypes namespace w =
     (case sel_convert (dep_sel d) selector of
        Inl e \<Rightarrow> (Inl (Wrapf ''failed to convert label selector: '' e), w)
      | Inr _ \<Rightarrow> (case has_matching (dep_api d) selector resourceTypes namespace w of
          (b, w1) \<Rightarrow> (Inr b, w1)))"

section \<open>One resource\<close>

text \<open>
  The annotations after \<open>applyAnnotationsToResource\<close> has written the rule's annotations and its
  tracking entry into the map of a resource (the same code for the first try and after a
  conflict).
\<close>

definition or_empty :: "('k, 'v) gomap option \<Rightarrow> ('k, 'v) gomap" where
  "or_empty m = (case m of None \<Rightarrow> [] | Some m \<Rightarrow> m)"

definition write_annotations :: "(str, str) gomap \<Rightarrow> str \<Rightarrow> (str, str) gomap \<Rightarrow> (str, str) gomap" where
  "write_annotations annotations ruleID currentAnnotations =
     (let appliedKeys = mkeys annotations; m = mput_all annotations currentAnnotations
      in if length appliedKeys > 0 then mput (trackingKey ruleID) (show_strs appliedKeys) m else m)"

definition set_annotations :: "(str, str) gomap \<Rightarrow> resource \<Rightarrow> resource" where
  "set_annotations m r = r\<lparr>res_Annotations := Some m\<rparr>"

text \<open>
  The retry loop of both update paths, with the number of attempts that are left.  \<open>reapply\<close> is
  what is done to a copy fetched after a conflict, \<open>fail\<close> what is made of an error of the update,
  \<open>exhausted\<close> the result after the loop.  \<open>attempt\<close> counts from 0, and the pause is
  \<open>(attempt + 1) * 100ms\<close>.  Only a conflict before the last attempt is retried.
\<close>

definition maxUpdateRetries :: nat where "maxUpdateRetries = 3"

fun update_loop :: "'w api \<Rightarrow> (resource \<Rightarrow> resource) \<Rightarrow> (goerr \<Rightarrow> goerr) \<Rightarrow> goerr + unit \<Rightarrow>
    object_key \<Rightarrow> nat \<Rightarrow> resource \<Rightarrow> 'w \<Rightarrow> (goerr + unit) \<times> 'w" where
  "update_loop api reapply fail exhausted key 0 resourceCopy w = (exhausted, w)"
| "update_loop api reapply fail exhausted key (Suc left) resourceCopy w =
     (case api_update api resourceCopy w of
        (Inr _, w1) \<Rightarrow> (Inr (), w1)
      | (Inl err, w1) \<Rightarrow>
          if is_reason Conflict err \<and> left > 0
          then (case api_get api key w1 of
                  (Inl refetchErr, w2) \<Rightarrow>
                    (Inl (Wrapf ''failed to refetch resource after conflict: '' refetchErr), w2)
                | (Inr fresh, w2) \<Rightarrow>
                    update_loop api reapply fail exhausted key left (reapply fresh)
                      (api_sleep api (int (maxUpdateRetries - left) * 100 * time_millisecond) w2))
          else (Inl (fail err), w1))"

definition applyAnnotationsToResource :: "'w api \<Rightarrow> resource \<Rightarrow> (str, str) gomap \<Rightarrow> str \<Rightarrow> 'w \<Rightarrow>
    (goerr + unit) \<times> 'w" where
  "applyAnnotationsToResource api r annotations ruleID w =
     (let write = (\<lambda>c. set_annotations (write_annotations annotations ruleID (or_empty (res_Annotations c))) c)
      in update_loop api write (Wrapf ''failed to update resource annotations: '') (Inr ())
           (object_key r) maxUpdateRetries (write r) w)"

definition updateResourceWithRetry :: "'w api \<Rightarrow> resource \<Rightarrow> resource \<Rightarrow> 'w \<Rightarrow> (goerr + unit) \<times> 'w" where
  "updateResourceWithRetry api resourceCopy originalResource w =
     update_loop api (\<lambda>fresh. fresh) (\<lambda>err. err)
       (Inl (Errorf (''failed to update resource after '' @ show_nat maxUpdateRetries @ '' attempts'')))
       (object_key originalResource) maxUpdateRetries resourceCopy w"

text \<open>
  The pure part of \<open>removeAnnotationsFromResource\<close>: the keys the rule applied, the deletion loop
  with its count, and the new tracking entry.
\<close>

definition rule_applied_keys :: "str \<Rightarrow> (str, str) gomap \<Rightarrow> str list" where
  "rule_applied_keys ruleID m = (case mget m (trackingKey ruleID) of None \<Rightarrow> [] | Some v \<Rightarrow> parseTracking v)"

fun delete_owned :: "str list \<Rightarrow> str list \<Rightarrow> (str, str) gomap \<Rightarrow> nat \<Rightarrow> (str, str) gomap \<times> nat" where
  "delete_owned ruleAppliedKeys [] m removedCount = (m, removedCount)"
| "delete_owned ruleAppliedKeys (key # keys) m removedCount =
     (if list_ex (\<lambda>ruleKey. trim_space ruleKey = key) ruleAppliedKeys \<and> mhas m key
      then delete_owned ruleAppliedKeys keys (mdel key m) (Suc removedCount)
      else delete_owned ruleAppliedKeys keys m removedCount)"

definition remove_annotations :: "str list \<Rightarrow> str \<Rightarrow> (str, str) gomap \<Rightarrow> (str, str) gomap \<times> nat" where
  "remove_annotations annotationKeys ruleID m =
     (let ruleAppliedKeys = rule_applied_keys ruleID m;
          (m1, removedCount) = delete_owned ruleAppliedKeys annotationKeys m 0;
          remainingKeys = filter (\<lambda>k. k \<notin> set annotationKeys) (map trim_space ruleAppliedKeys);
          m2 = (if length ruleAppliedKeys > 0
                then if length remainingKeys > 0
                     then mput (trackingKey ruleID) (show_strs remainingKeys) m1
                     else mdel (trackingKey ruleID) m1
                else m1)
      in (m2, removedCount))"

definition removeAnnotationsFromResource :: "'w api \<Rightarrow> resource \<Rightarrow> str list \<Rightarrow> str \<Rightarrow> 'w \<Rightarrow>
    (goerr + unit) \<times> 'w" where
  "removeAnnotationsFromResource api r annotationKeys ruleID w =
     (case res_Annotations r of
        None \<Rightarrow> (Inr (), w)
      | Some m \<Rightarrow>
          (case remove_annotations annotationKeys ruleID m of
             (m2, removedCount) \<Rightarrow>
               if removedCount > 0
               then (case api_update api (set_annotations m2 r) w of
                       (Inl err, w1) \<Rightarrow> (Inl (Wrapf ''failed to update resource annotations: '' err), w1)
                     | (Inr _, w1) \<Rightarrow> (Inr (), w1))
               else (Inr (), w)))"

section \<open>All matching resources\<close>

definition failures :: "(goerr + 'a) list \<Rightarrow> nat" where
  "failures rs = length (filter isl rs)"

definition apply_and_audit :: "'w api \<Rightarrow> (str, str) gomap \<Rightarrow> str \<Rightarrow> str \<Rightarrow> resource \<Rightarrow> 'w \<Rightarrow>
    (goerr + unit) \<times> 'w" where
  "apply_and_audit api annotations namespace ruleID r w =
     (case applyAnnotationsToResource api r annotations ruleID w of
        (Inl e, w1) \<Rightarrow> (Inl e, LogAnnotationApply api ruleID [] namespace r annotations False (Some e) w1)
      | (Inr u, w1) \<Rightarrow> (Inr u, LogAnnotationApply api ruleID [] namespace r annotations True None w1))"

definition ApplyAnnotations :: "('w, 'l) deps \<Rightarrow> label_selector \<Rightarrow> (str, str) gomap \<Rightarrow> str list \<Rightarrow> str \<Rightarrow> str \<Rightarrow>
    'l resource_manager \<times> 'w \<Rightarrow> (goerr + unit) \<times> 'l resource_manager \<times> 'w" where
  "ApplyAnnotations d selector annotations resourceTypes namespace ruleID st =
     (if length annotations = 0 then (Inr (), st)
      else case rate_wait d OperationTypeApply namespace st of
        (Inl e, st1) \<Rightarrow> (Inl (Wrapf ''rate limit exceeded for annotation apply: '' e), st1)
      | (Inr _, st1) \<Rightarrow>
        (case ValidateAnnotations (rm_Validator (fst st1)) annotations of
           Inl e \<Rightarrow> (Inl (Wrapf ''annotation validation failed: '' e),
                     fst st1, LogValidationFailure (dep_api d) ruleID [] namespace annotations e (snd st1))
         | Inr _ \<Rightarrow>
           (case GetMatchingResources d selector resourceTypes namespace st1 of
              (Inl e, st2) \<Rightarrow> (Inl (Wrapf ''failed to get matching resources: '' e), st2)
            | (Inr resources, st2) \<Rightarrow>
                if length resources = 0 then (Inr (), st2)
                else (case for_each (apply_and_audit (dep_api d) annotations namespace ruleID) resources (snd st2) of
                   (rs, w3) \<Rightarrow>
                     (if failures rs > 0
                      then Inl (Errorf (''failed to apply annotations to '' @ show_nat (failures rs) @
                             '' out of '' @ show_nat (length resources) @ '' resources''))
                      else Inr (), cache_invalidate namespace (fst st2), w3)))))"

definition remove_and_audit :: "'w api \<Rightarrow> str list \<Rightarrow> str \<Rightarrow> str \<Rightarrow> resource \<Rightarrow> 'w \<Rightarrow> (goerr + unit) \<times> 'w" where
  "remove_and_audit api annotationKeys namespace ruleID r w =
     (case removeAnnotationsFromResource api r annotationKeys ruleID w of
        (Inl e, w1) \<Rightarrow> (Inl e, LogAnnotationRemove api ruleID [] namespace r annotationKeys False (Some e) w1)
      | (Inr u, w1) \<Rightarrow> (Inr u, LogAnnotationRemove api ruleID [] namespace r annotationKeys True None w1))"

definition RemoveAnnotations :: "('w, 'l) deps \<Rightarrow> label_selector \<Rightarrow> str list \<Rightarrow> str list \<Rightarrow> str \<Rightarrow> str \<Rightarrow>
    'l resource_manager \<times> 'w \<Rightarrow> (goerr + unit) \<times> 'l resource_manager \<times> 'w" where
  "RemoveAnnotations d selector annotationKeys resourceTypes namespace ruleID st =
     (if length annotationKeys = 0 then (Inr (), st)
      else case rate_wait d OperationTypeRemove namespace st of
        (Inl e, st1) \<Rightarrow> (Inl (Wrapf ''rate limit exceeded for annotation remove: '' e), st1)
      | (Inr _, st1) \<Rightarrow>
        (case GetMatchingResources d selector resourceTypes namespace st1 of
           (Inl e, st2) \<Rightarrow> (Inl (Wrapf ''failed to get matching resources: '' e), st2)
         | (Inr resources, st2) \<Rightarrow>
             if length resources = 0 then (Inr (), st2)
             else (case for_each (remove_and_audit (dep_api d) annotationKeys namespace ruleID) resources (snd st2) of
                (rs, w3) \<Rightarrow>
                  (if failures rs > 0
                   then Inl (Errorf (''failed to remove annotations from '' @ show_nat (failures rs) @
                          '' out of '' @ show_nat (length resources) @ '' resources''))
                   else Inr (), cache_invalidate namespace (fst st2), w3))))"

end
