(* ===== verification/Annotation_Groups.thy ===== *)
theory Annotation_Groups
  imports Resource_Manager
begin

text \<open>
  The annotation groups of \<open>internal/resource/manager.go\<close>: single operations on the annotations
  of a resource, groups of operations on resources, their removal and their validation.
\<close>

section \<open>Results\<close>

record operation_result =
  or_Key :: str
  or_Success :: bool
  or_Error :: "goerr option"
  or_Skipped :: bool
  or_Reason :: str
  or_OldValue :: str
  or_NewValue :: str
  or_Priority :: int32

record group_result =
  gr_GroupName :: str
  gr_Success :: bool
  gr_Operations :: "operation_result list"
  gr_Error :: "goerr option"
  gr_ResourcesAffected :: int32

section \<open>One operation\<close>

definition ConflictResolutionPriority :: str where "ConflictResolutionPriority = ''priority''"
definition ConflictResolutionTimestamp :: str where "ConflictResolutionTimestamp = ''timestamp''"
definition ConflictResolutionSkip :: str where "ConflictResolutionSkip = ''skip''"

definition shouldOverrideAnnotation :: "str \<Rightarrow> bool" where
  "shouldOverrideAnnotation resolution =
     (if resolution = ConflictResolutionSkip then False
      else if resolution = ConflictResolutionPriority then True
      else if resolution = ConflictResolutionTimestamp then True else True)"

definition empty_result :: "annotation_operation \<Rightarrow> operation_result" where
  "empty_result op = \<lparr>or_Key = op_Key op, or_Success = False, or_Error = None, or_Skipped = False,
     or_Reason = [], or_OldValue = [], or_NewValue = [], or_Priority = op_Priority op\<rparr>"

definition operation_value :: "'l resource_manager \<Rightarrow> annotation_operation \<Rightarrow> template_context \<Rightarrow> goerr + str" where
  "operation_value rm op tc =
     (if op_Template op \<and> IsTemplate (rm_TemplateEngine rm) (op_Value op)
      then (case ProcessTemplate (rm_TemplateEngine rm) (op_Value op) tc of
              Inl e \<Rightarrow> Inl (Wrapf ''template processing failed: '' e) | Inr v \<Rightarrow> Inr v)
      else Inr (op_Value op))"

definition applyAnnotationOperation :: "'l resource_manager \<Rightarrow> (str, str) gomap \<Rightarrow> annotation_operation \<Rightarrow>
    str \<Rightarrow> template_context \<Rightarrow> str \<Rightarrow> operation_result \<times> (str, str) gomap" where
  "applyAnnotationOperation rm annotations op ruleID tc conflictResolution =
     (let result = empty_result op in
      case ValidateAnnotationKey (rm_Validator rm) (op_Key op) of
        Inl e \<Rightarrow> (result\<lparr>or_Error := Some (Wrapf ''invalid annotation key: '' e)\<rparr>, annotations)
      | Inr _ \<Rightarrow>
      case operation_value rm op tc of
        Inl e \<Rightarrow> (result\<lparr>or_Error := Some e\<rparr>, annotations)
      | Inr value \<Rightarrow>
      case ValidateAnnotationValue (rm_Validator rm) value of
        Inl e \<Rightarrow> (result\<lparr>or_Error := Some (Wrapf ''invalid annotation value: '' e)\<rparr>, annotations)
      | Inr _ \<Rightarrow>
      let current = mget annotations (op_Key op);
          currentValue = (case current of None \<Rightarrow> [] | Some v \<Rightarrow> v);
          exists = (current \<noteq> None);
          result = result\<lparr>or_OldValue := currentValue\<rparr>;
          action = (if op_Action op = [] then OperationTypeApply else op_Action op)
      in if action = ''apply''
         then if exists \<and> currentValue \<noteq> value \<and> \<not> shouldOverrideAnnotation conflictResolution
              then (result\<lparr>or_Skipped := True,
                      or_Reason := ''conflict resolution policy prevented override (current: '' @
                        currentValue @ '', new: '' @ value @ '')'',
                      or_Success := True\<rparr>, annotations)
              else (result\<lparr>or_NewValue := value, or_Success := True\<rparr>,
                    trackAnnotationApplication (mput (op_Key op) value annotations) (op_Key op) ruleID)
         else if action = ''remove''
         then if exists
              then if wasAnnotationAppliedByRule annotations (op_Key op) ruleID
                   then (result\<lparr>or_Success := True, or_Reason := ''annotation removed''\<rparr>,
                         untrackAnnotationApplication (mdel (op_Key op) annotations) (op_Key op) ruleID)
                   else (result\<lparr>or_Skipped := True, or_Reason := ''annotation not applied by this rule'',
                          or_Success := True\<rparr>, annotations)
              else (result\<lparr>or_Skipped := True, or_Reason := ''annotation does not exist'',
                     or_Success := True\<rparr>, annotations)
         else (result\<lparr>or_Error := Some (Errorf (''unknown action: '' @ action))\<rparr>, annotations))"

section \<open>The operations of a group on one resource\<close>

fun apply_operations :: "'l resource_manager \<Rightarrow> str \<Rightarrow> template_context \<Rightarrow> str \<Rightarrow> annotation_operation list \<Rightarrow>
    (str, str) gomap \<Rightarrow> operation_result list \<times> (str, str) gomap" where
  "apply_operations rm ruleID tc cr [] m = ([], m)"
| "apply_operations rm ruleID tc cr (op # ops) m =
     (case applyAnnotationOperation rm m op ruleID tc cr of (r, m1) \<Rightarrow>
       (case apply_operations rm ruleID tc cr ops m1 of (rs, m2) \<Rightarrow> (r # rs, m2)))"

definition by_priority :: "annotation_operation \<Rightarrow> annotation_operation \<Rightarrow> bool" where
  "by_priority a b = (op_Priority b <s op_Priority a)"

text \<open>The first error of the operations, as \<open>result.Error\<close> records it.\<close>

fun first_failure :: "operation_result list \<Rightarrow> goerr option" where
  "first_failure [] = None"
| "first_failure (r # rs) = (if \<not> or_Success r \<and> or_Error r \<noteq> None then or_Error r else first_failure rs)"

definition fail_operation :: "goerr \<Rightarrow> operation_result \<Rightarrow> operation_result" where
  "fail_operation e r = (if or_Success r then r\<lparr>or_Success := False, or_Error := Some e\<rparr> else r)"

definition applyAnnotationOperationsToResource :: "('w, 'l) deps \<Rightarrow> 'l resource_manager \<Rightarrow> resource \<Rightarrow>
    annotation_operation list \<Rightarrow> str \<Rightarrow> template_context \<Rightarrow> str \<Rightarrow> 'w \<Rightarrow> group_result \<times> 'w" where
  "applyAnnotationOperationsToResource d rm r operations ruleID tc cr w =
     (let sortedOps = dep_sort d by_priority operations;
          (rs, m) = apply_operations rm ruleID tc cr sortedOps (or_empty (res_Annotations r));
          appliedOps = filter or_Success rs;
          hasErrors = list_ex (\<lambda>x. \<not> or_Success x) rs;
          result = \<lparr>gr_GroupName = [], gr_Success = True, gr_Operations = rs,
                    gr_Error = first_failure rs, gr_ResourcesAffected = 0\<rparr>
      in if length appliedOps > 0 \<and> \<not> hasErrors
         then (case updateResourceWithRetry (dep_api d) (set_annotations m r) r w of
                 (Inl e, w1) \<Rightarrow>
                   (result\<lparr>gr_Success := False,
                      gr_Error := Some (Wrapf ''failed to update resource annotations: '' e),
                      gr_Operations := map (fail_operation e) rs\<rparr>, w1)
               | (Inr _, w1) \<Rightarrow> (result, w1))
         else if hasErrors then (result\<lparr>gr_Success := False\<rparr>, w)
         else (result, w))"

section \<open>Groups\<close>

definition atomic_error :: "annotation_group \<Rightarrow> resource \<Rightarrow> goerr option \<Rightarrow> goerr" where
  "atomic_error grp r err =
     (let p = ''atomic group '' @ grp_Name grp @ '' failed on resource '' @ res_Namespace r @ ''/'' @
              res_Name r @ '': ''
      in case err of None \<Rightarrow> Errorf (p @ ''%!w(<nil>)'') | Some e \<Rightarrow> Wrapf p e)"

fun group_loop :: "('w, 'l) deps \<Rightarrow> 'l resource_manager \<Rightarrow> annotation_group \<Rightarrow> str \<Rightarrow> template_context \<Rightarrow>
    str \<Rightarrow> resource list \<Rightarrow> group_result \<Rightarrow> 'w \<Rightarrow> group_result \<times> 'w" where
  "group_loop d rm grp ruleID tc cr [] result w = (result, w)"
| "group_loop d rm grp ruleID tc cr (r # rs) result w =
     (case applyAnnotationOperationsToResource d rm r (grp_Operations grp) ruleID
             (tc\<lparr>ctx_Resource := Some r\<rparr>) cr w of
        (rr, w1) \<Rightarrow>
          let result = result\<lparr>gr_Operations := gr_Operations result @ gr_Operations rr\<rparr> in
          if \<not> gr_Success rr
          then let result = result\<lparr>gr_Success := False,
                     gr_Error := (if gr_Error result = None then gr_Error rr else gr_Error result)\<rparr>
               in if grp_Atomic grp
                  then (result\<lparr>gr_Error := Some (atomic_error grp r (gr_Error rr))\<rparr>, w1)
                  else group_loop d rm grp ruleID tc cr rs result w1
          else group_loop d rm grp ruleID tc cr rs
                 (result\<lparr>gr_ResourcesAffected := gr_ResourcesAffected result + 1\<rparr>) w1)"

definition new_group_result :: "annotation_group \<Rightarrow> group_result" where
  "new_group_result grp = \<lparr>gr_GroupName = grp_Name grp, gr_Success = True, gr_Operations = [],
     gr_Error = None, gr_ResourcesAffected = 0\<rparr>"

definition applyAnnotationGroup :: "('w, 'l) deps \<Rightarrow> 'l resource_manager \<Rightarrow> resource list \<Rightarrow> annotation_group \<Rightarrow>
    str \<Rightarrow> template_context \<Rightarrow> str \<Rightarrow> 'w \<Rightarrow> group_result \<times> 'w" where
  "applyAnnotationGroup d rm resources grp ruleID tc cr w =
     group_loop d rm grp ruleID tc cr resources (new_group_result grp) w"

text \<open>A failed atomic group is logged; the source has a comment in place of a rollback.\<close>

definition ApplyAnnotationGroups :: "('w, 'l) deps \<Rightarrow> label_selector \<Rightarrow> annotation_group list \<Rightarrow> str list \<Rightarrow>
    str \<Rightarrow> str \<Rightarrow> template_context \<Rightarrow> str \<Rightarrow> 'l resource_manager \<times> 'w \<Rightarrow>
    (goerr + group_result list) \<times> 'l resource_manager \<times> 'w" where
  "ApplyAnnotationGroups d selector groups resourceTypes namespace ruleID tc cr st =
     (if length groups = 0 then (Inr [], st)
      else case GetMatchingResources d selector resourceTypes namespace st of
        (Inl e, st1) \<Rightarrow> (Inl (Wrapf ''failed to get matching resources: '' e), st1)
      | (Inr resources, st1) \<Rightarrow>
          if length resources = 0 then (Inr [], st1)
          else (case for_each (\<lambda>grp. applyAnnotationGroup d (fst st1) resources grp ruleID tc cr) groups
                       (snd st1) of
                  (results, w2) \<Rightarrow> (Inr results, fst st1, w2)))"

section \<open>Removal of groups\<close>

fun remove_keys :: "str \<Rightarrow> str list \<Rightarrow> (str, str) gomap \<Rightarrow> nat \<Rightarrow> (str, str) gomap \<times> nat" where
  "remove_keys ruleID [] m removedCount = (m, removedCount)"
| "remove_keys ruleID (key # keys) m removedCount =
     (if wasAnnotationAppliedByRule m key ruleID \<and> mhas m key
      then remove_keys ruleID keys (untrackAnnotationApplication (mdel key m) key ruleID) (Suc removedCount)
      else remove_keys ruleID keys m removedCount)"

definition removeAnnotationKeysFromResource :: "'w api \<Rightarrow> resource \<Rightarrow> str list \<Rightarrow> str \<Rightarrow> 'w \<Rightarrow>
    (goerr + unit) \<times> 'w" where
  "removeAnnotationKeysFromResource api r keys ruleID w =
     (case res_Annotations r of
        None \<Rightarrow> (Inr (), w)
      | Some m \<Rightarrow> (case remove_keys ruleID keys m 0 of (m1, removedCount) \<Rightarrow>
          if removedCount > 0 then updateResourceWithRetry api (set_annotations m1 r) r w
          else (Inr (), w)))"

fun remove_group_loop :: "'w api \<Rightarrow> str list \<Rightarrow> str \<Rightarrow> resource list \<Rightarrow> group_result \<Rightarrow> 'w \<Rightarrow> group_result \<times> 'w" where
  "remove_group_loop api keys ruleID [] result w = (result, w)"
| "remove_group_loop api keys ruleID (r # rs) result w =
     (case removeAnnotationKeysFromResource api r keys ruleID w of
        (Inl e, w1) \<Rightarrow> remove_group_loop api keys ruleID rs
          (result\<lparr>gr_Success := False,
             gr_Error := (if gr_Error result = None then Some e else gr_Error result)\<rparr>) w1
      | (Inr _, w1) \<Rightarrow> remove_group_loop api keys ruleID rs
          (result\<lparr>gr_ResourcesAffected := gr_ResourcesAffected result + 1\<rparr>) w1)"

definition removeAnnotationGroup :: "'w api \<Rightarrow> resource list \<Rightarrow> annotation_group \<Rightarrow> str \<Rightarrow> 'w \<Rightarrow> group_result \<times> 'w" where
  "removeAnnotationGroup api resources grp ruleID w =
     remove_group_loop api (map op_Key (grp_Operations grp)) ruleID resources (new_group_result grp) w"

definition RemoveAnnotationGroups :: "('w, 'l) deps \<Rightarrow> label_selector \<Rightarrow> annotation_group list \<Rightarrow> str list \<Rightarrow>
    str \<Rightarrow> str \<Rightarrow> 'l resource_manager \<times> 'w \<Rightarrow> (goerr + group_result list) \<times> 'l resource_manager \<times> 'w" where
  "RemoveAnnotationGroups d selector groups resourceTypes namespace ruleID st =
     (if length groups = 0 then (Inr [], st)
      else case GetMatchingResources d selector resourceTypes namespace st of
        (Inl e, st1) \<Rightarrow> (Inl (Wrapf ''failed to get matching resources: '' e), st1)
      | (Inr resources, st1) \<Rightarrow>
          if length resources = 0 then (Inr [], st1)
          else (case for_each (\<lambda>grp. removeAnnotationGroup (dep_api d) resources grp ruleID) groups (snd st1) of
                  (results, w2) \<Rightarrow> (Inr results, fst st1, w2)))"

section \<open>Validation of groups\<close>

definition validateAnnotationOperation :: "'l resource_manager \<Rightarrow> annotation_operation \<Rightarrow> goerr + unit" where
  "validateAnnotationOperation rm op =
     and_then (check_that (op_Key op \<noteq> []) (Errorf ''annotation key cannot be empty''))
    (and_then (wrap_err ''invalid annotation key: '' (ValidateAnnotationKey (rm_Validator rm) (op_Key op)))
    (and_then (check_that (\<not> (op_Action op \<noteq> [] \<and> op_Action op \<noteq> ''apply'' \<and> op_Action op \<noteq> ''remove''))
        (Errorf (''invalid action: '' @ op_Action op @ '' (must be '' @ quoted ''apply'' @ '' or '' @
           quoted ''remove'' @ '')'')))
     (if op_Template op \<and> op_Value op \<noteq> []
      then wrap_err ''invalid template in value: '' (ValidateTemplate (rm_TemplateEngine rm) (op_Value op))
      else Inr ())))"

definition validate_group :: "'l resource_manager \<Rightarrow> annotation_group \<Rightarrow> goerr + unit" where
  "validate_group rm grp =
     and_then (check_that (grp_Name grp \<noteq> []) (Errorf ''annotation group name cannot be empty''))
    (and_then (check_that (length (grp_Operations grp) \<noteq> 0)
        (Errorf (''annotation group '' @ grp_Name grp @ '' must have at least one operation'')))
     (first_err (\<lambda>(i, op). wrap_err (''invalid operation '' @ show_nat i @ '' in group '' @
           grp_Name grp @ '': '') (validateAnnotationOperation rm op))
        (enumerate 0 (grp_Operations grp))))"

definition ValidateAnnotationGroups :: "'l resource_manager \<Rightarrow> annotation_group list \<Rightarrow> goerr + unit" where
  "ValidateAnnotationGroups rm groups = first_err (validate_group rm) groups"

end
