(* ===== verification/Controller_Status.thy ===== *)
theory Controller_Status
  imports Time_Scheduler Error_Handler Annotation_Groups
begin

text \<open>
  The state and the status operations of
  \<open>internal/controller/annotationschedulerule_controller.go\<close>: execution metrics, conditions and
  phases of a rule, and the retry wrapper that all API calls of the controller go through.
\<close>

section \<open>Constants\<close>

definition AnnotationScheduleRuleFinalizer :: str where
  "AnnotationScheduleRuleFinalizer = ''scheduler.k8s.io/annotation-schedule-rule-finalizer''"

definition PhasePending :: str where "PhasePending = ''pending''"
definition controller_PhaseActive :: str where "controller_PhaseActive = ''active''"
definition PhaseCompleted :: str where "PhaseCompleted = ''completed''"
definition PhaseFailed :: str where "PhaseFailed = ''failed''"

lemmas phases = PhasePending_def controller_PhaseActive_def PhaseCompleted_def PhaseFailed_def

definition ConditionTypeReady :: str where "ConditionTypeReady = ''Ready''"
definition ConditionTypeScheduled :: str where "ConditionTypeScheduled = ''Scheduled''"
definition ConditionTypeExecuted :: str where "ConditionTypeExecuted = ''Executed''"
definition ConditionTypeValidated :: str where "ConditionTypeValidated = ''Validated''"
definition ConditionTypeError :: str where "ConditionTypeError = ''Error''"

lemmas condition_types = ConditionTypeReady_def ConditionTypeScheduled_def ConditionTypeExecuted_def
  ConditionTypeValidated_def ConditionTypeError_def

definition ReasonValidationFailed :: str where "ReasonValidationFailed = ''ValidationFailed''"
definition ReasonSchedulingFailed :: str where "ReasonSchedulingFailed = ''SchedulingFailed''"
definition ReasonExecutionFailed :: str where "ReasonExecutionFailed = ''ExecutionFailed''"
definition ReasonExecutionSucceeded :: str where "ReasonExecutionSucceeded = ''ExecutionSucceeded''"
definition ReasonValidationSucceeded :: str where "ReasonValidationSucceeded = ''ValidationSucceeded''"
definition ReasonSchedulingSucceeded :: str where "ReasonSchedulingSucceeded = ''SchedulingSucceeded''"
definition ReasonRuleReady :: str where "ReasonRuleReady = ''RuleReady''"
definition ReasonRuleActive :: str where "ReasonRuleActive = ''RuleActive''"
definition ReasonRuleCompleted :: str where "ReasonRuleCompleted = ''RuleCompleted''"
definition ReasonRuleFailed :: str where "ReasonRuleFailed = ''RuleFailed''"
definition ReasonRulePending :: str where "ReasonRulePending = ''RulePending''"

section \<open>Metrics\<close>

record execution_metrics =
  em_TotalExecutions :: int64
  em_SuccessfulExecutions :: int64
  em_FailedExecutions :: int64
  em_LastExecutionTime :: gotime
  em_AverageExecutionTime :: duration

definition no_executions :: execution_metrics where
  "no_executions = \<lparr>em_TotalExecutions = 0, em_SuccessfulExecutions = 0, em_FailedExecutions = 0,
     em_LastExecutionTime = zero_time, em_AverageExecutionTime = 0\<rparr>"

text \<open>Go's division cuts toward zero.\<close>

definition half_duration :: "duration \<Rightarrow> duration" where
  "half_duration d = (if d < 0 then - ((- d) div 2) else d div 2)"

definition RecordExecution :: "gotime \<Rightarrow> bool \<Rightarrow> duration \<Rightarrow> execution_metrics \<Rightarrow> execution_metrics" where
  "RecordExecution now success d m =
     (let m1 = m\<lparr>em_TotalExecutions := em_TotalExecutions m + 1, em_LastExecutionTime := now\<rparr>;
          m2 = (if success then m1\<lparr>em_SuccessfulExecutions := em_SuccessfulExecutions m1 + 1\<rparr>
                else m1\<lparr>em_FailedExecutions := em_FailedExecutions m1 + 1\<rparr>)
      in if em_AverageExecutionTime m2 = 0 then m2\<lparr>em_AverageExecutionTime := d\<rparr>
         else m2\<lparr>em_AverageExecutionTime := half_duration (em_AverageExecutionTime m2 + d)\<rparr>)"

definition GetMetrics :: "execution_metrics \<Rightarrow> int64 \<times> int64 \<times> int64 \<times> gotime \<times> duration" where
  "GetMetrics m = (em_TotalExecutions m, em_SuccessfulExecutions m, em_FailedExecutions m,
     em_LastExecutionTime m, em_AverageExecutionTime m)"

section \<open>The reconciler\<close>

text \<open>
  The fields of \<open>AnnotationScheduleRuleReconciler\<close> that do not change after the start: the error
  handler, the recovery manager (its error handler), whether there is an audit logger, and the
  security validator.  The others are the state \<open>'l controller\<close>.  The libraries are \<open>'w env\<close>.
\<close>

record reconciler =
  rec_ErrorHandler :: "retry_config option"
  rec_RecoveryManager :: "retry_config option"
  rec_AuditLogger :: bool
  rec_SecurityValidator :: "annotation_validator option"

record 'l controller =
  ct_Scheduler :: time_scheduler
  ct_ResourceManager :: "'l resource_manager"
  ct_Metrics :: "execution_metrics option"

record ('w, 'l) env =
  env_deps :: "('w, 'l) deps"
  env_cron :: cron_parser
  env_pause :: "duration \<Rightarrow> 'w \<Rightarrow> goerr option \<times> 'w"

abbreviation env_api :: "('w, 'l) env \<Rightarrow> 'w api" where "env_api env \<equiv> dep_api (env_deps env)"

abbreviation env_now :: "('w, 'l) env \<Rightarrow> 'w \<Rightarrow> gotime" where "env_now env w \<equiv> api_now (env_api env) w"

text \<open>
  \<open>if r.ErrorHandler != nil { r.ErrorHandler.RetryWithBackoff(ctx, op, name) } else { op() }\<close>.
  The variables that the closure \<open>op\<close> assigns are a part of its state.
\<close>

definition retried :: "('w, 'l) env \<Rightarrow> retry_config option \<Rightarrow> str \<Rightarrow> ('s \<times> 'w) operation \<Rightarrow>
    ('s \<times> 'w) operation" where
  "retried env errorHandler operationName op =
     (case errorHandler of
        None \<Rightarrow> op
      | Some eh \<Rightarrow> RetryWithBackoff eh op
          (\<lambda>d (s, w). case env_pause env d w of (e, w1) \<Rightarrow> (e, s, w1))
          (\<lambda>(s, w). word_of_int (env_now env w)) operationName)"

section \<open>Conditions and phases\<close>

fun put_condition :: "condition \<Rightarrow> condition list \<Rightarrow> condition list" where
  "put_condition c [] = [c]"
| "put_condition c (x # xs) =
     (if cond_Type x = cond_Type c
      then (if cond_Status x \<noteq> cond_Status c then c
            else x\<lparr>cond_Message := cond_Message c, cond_LastTransitionTime := cond_LastTransitionTime c\<rparr>) # xs
      else x # put_condition c xs)"

abbreviation upd_status :: "(rule_status \<Rightarrow> rule_status) \<Rightarrow> rule \<Rightarrow> rule" where
  "upd_status f r \<equiv> r\<lparr>rule_Status := f (rule_Status r)\<rparr>"

definition setCondition :: "gotime \<Rightarrow> str \<Rightarrow> cond_status \<Rightarrow> str \<Rightarrow> str \<Rightarrow> rule \<Rightarrow> rule" where
  "setCondition now conditionType status reason message r =
     upd_status (\<lambda>st. st\<lparr>st_Conditions := put_condition
       \<lparr>cond_Type = conditionType, cond_Status = status, cond_Reason = reason, cond_Message = message,
        cond_LastTransitionTime = now\<rparr> (st_Conditions st)\<rparr>) r"

definition phase_condition :: "str \<Rightarrow> cond_status \<times> str" where
  "phase_condition phase =
     (if phase = PhaseFailed then (ConditionFalse, ReasonRuleFailed)
      else if phase = controller_PhaseActive then (ConditionTrue, ReasonRuleActive)
      else if phase = PhaseCompleted then (ConditionTrue, ReasonRuleCompleted)
      else (ConditionUnknown, ReasonRulePending))"

definition updateRuleStatus :: "gotime \<Rightarrow> str \<Rightarrow> str \<Rightarrow> rule \<Rightarrow> rule" where
  "updateRuleStatus now phase message r =
     (case phase_condition phase of (status, reason) \<Rightarrow>
        setCondition now ConditionTypeReady status reason message
          (upd_status (\<lambda>st. st\<lparr>st_Phase := phase\<rparr>) r))"

section \<open>Texts\<close>

definition getDetailedErrorMessage :: "goerr \<Rightarrow> str \<Rightarrow> rule \<Rightarrow> str" where
  "getDetailedErrorMessage err contextMsg r =
     (let sched = spec_Schedule (rule_Spec r);
          baseMsg = contextMsg @ '' failed for rule '' @ rule_Namespace r @ ''/'' @ rule_Name r @ '': '' @
            err_text err;
          details =
            (if sc_Type sched = ''cron''
             then '' (cron: '' @ sc_CronExpression sched @ '', action: '' @ sc_Action sched @ '')''
             else if sc_Type sched = ''datetime''
             then (case sc_StartTime sched of None \<Rightarrow> [] | Some t \<Rightarrow> '' (start: '' @ format_RFC3339 t @ '')'') @
                  (case sc_EndTime sched of None \<Rightarrow> [] | Some t \<Rightarrow> '' (end: '' @ format_RFC3339 t @ '')'')
             else [])
      in baseMsg @ details @ '' (targets: '' @ show_strs (spec_TargetResources (rule_Spec r)) @ '')'')"

section \<open>Lemmas\<close>

definition find_condition :: "str \<Rightarrow> rule \<Rightarrow> condition option" where
  "find_condition t r = find (\<lambda>c. cond_Type c = t) (st_Conditions (rule_Status r))"

definition conditions_ok :: "rule \<Rightarrow> bool" where
  "conditions_ok r = distinct (map cond_Type (st_Conditions (rule_Status r)))"

lemma put_condition_types:
  "map cond_Type (put_condition c cs) =
     (if cond_Type c \<in> set (map cond_Type cs) then map cond_Type cs else map cond_Type cs @ [cond_Type c])"
  by (induction cs) auto

lemma conditions_ok_set [simp]:
  "conditions_ok r \<Longrightarrow> conditions_ok (setCondition now t status reason message r)"
  by (simp add: conditions_ok_def setCondition_def put_condition_types)

lemma conditions_ok_update [simp]:
  "conditions_ok r \<Longrightarrow> conditions_ok (updateRuleStatus now phase message r)"
  by (simp add: updateRuleStatus_def prod.case_eq_if)
     (rule conditions_ok_set, simp add: conditions_ok_def)

lemma find_put_condition:
  "find (\<lambda>x. cond_Type x = t) (put_condition c cs) =
     (if t = cond_Type c
      then Some (case find (\<lambda>x. cond_Type x = t) cs of
             None \<Rightarrow> c
           | Some x \<Rightarrow> if cond_Status x \<noteq> cond_Status c then c
               else x\<lparr>cond_Message := cond_Message c, cond_LastTransitionTime := cond_LastTransitionTime c\<rparr>)
      else find (\<lambda>x. cond_Type x = t) cs)"
  by (induction cs) auto

lemma find_setCondition:
  "find_condition t (setCondition now t' status reason message r) =
     (if t = t'
      then Some (case find_condition t r of
             None \<Rightarrow> \<lparr>cond_Type = t', cond_Status = status, cond_Reason = reason, cond_Message = message,
                       cond_LastTransitionTime = now\<rparr>
           | Some x \<Rightarrow> if cond_Status x \<noteq> status
               then \<lparr>cond_Type = t', cond_Status = status, cond_Reason = reason, cond_Message = message,
                       cond_LastTransitionTime = now\<rparr>
               else x\<lparr>cond_Message := message, cond_LastTransitionTime := now\<rparr>)
      else find_condition t r)"
  by (simp add: find_condition_def setCondition_def find_put_condition split: option.split)

lemma setCondition_frame [simp]:
  "rule_Name (setCondition now t s rsn msg r) = rule_Name r"
  "rule_Namespace (setCondition now t s rsn msg r) = rule_Namespace r"
  "rule_Spec (setCondition now t s rsn msg r) = rule_Spec r"
  "rule_DeletionTimestamp (setCondition now t s rsn msg r) = rule_DeletionTimestamp r"
  "rule_Finalizers (setCondition now t s rsn msg r) = rule_Finalizers r"
  "st_Phase (rule_Status (setCondition now t s rsn msg r)) = st_Phase (rule_Status r)"
  "st_LastExecutionTime (rule_Status (setCondition now t s rsn msg r)) = st_LastExecutionTime (rule_Status r)"
  "st_NextExecutionTime (rule_Status (setCondition now t s rsn msg r)) = st_NextExecutionTime (rule_Status r)"
  "getRuleID (setCondition now t s rsn msg r) = getRuleID r"
  by (simp_all add: setCondition_def getRuleID_def)

lemma updateRuleStatus_frame [simp]:
  "rule_Name (updateRuleStatus now p msg r) = rule_Name r"
  "rule_Namespace (updateRuleStatus now p msg r) = rule_Namespace r"
  "rule_Spec (updateRuleStatus now p msg r) = rule_Spec r"
  "st_Phase (rule_Status (updateRuleStatus now p msg r)) = p"
  "getRuleID (updateRuleStatus now p msg r) = getRuleID r"
  by (simp_all add: updateRuleStatus_def prod.case_eq_if)
     (simp add: getRuleID_def)

end
