(* ===== verification/Task_Executor.thy ===== *)
theory Task_Executor
  imports Controller_Status
begin

text \<open>
  The task executor of \<open>internal/controller/annotationschedulerule_controller.go\<close>: what the
  scheduler calls when a task is due.  It applies or removes the annotations of the rule, counts
  the execution and writes the outcome into the status of the rule.
\<close>

section \<open>The executor\<close>

text \<open>
  The executor holds the resource manager of the state and a pointer to the reconciler, nil
  until \<open>SetReconciler\<close> is called.
\<close>

record task_executor =
  te_reconciler :: "reconciler option"

definition NewTaskExecutor :: "reconciler option \<Rightarrow> task_executor" where
  "NewTaskExecutor r = \<lparr>te_reconciler = r\<rparr>"

definition SetReconciler :: "reconciler \<Rightarrow> task_executor \<Rightarrow> task_executor" where
  "SetReconciler r te = te\<lparr>te_reconciler := Some r\<rparr>"

text \<open>\<open>te.reconciler != nil && te.reconciler.ErrorHandler != nil\<close>, with the handler.\<close>

definition te_errorHandler :: "task_executor \<Rightarrow> retry_config option" where
  "te_errorHandler te = Option.bind (te_reconciler te) rec_ErrorHandler"

definition te_audits :: "task_executor \<Rightarrow> bool" where
  "te_audits te = (case te_reconciler te of None \<Rightarrow> False | Some r \<Rightarrow> rec_AuditLogger r)"

definition buildTemplateContext :: "gotime \<Rightarrow> scheduled_task \<Rightarrow> template_context" where
  "buildTemplateContext now task = \<lparr>ctx_Variables = task_TemplateVariables task, ctx_Resource = None,
     ctx_RuleName = task_RuleName task, ctx_RuleNamespace = task_RuleNamespace task,
     ctx_RuleID = task_RuleID task, ctx_ExecutionTime = now, ctx_Action = task_Action task\<rparr>"

section \<open>Closures\<close>

text \<open>
  The closures that are retried.  Each assigns a variable of the caller, the first component of
  the state, and calls an operation of the resource manager.
\<close>

type_synonym ('a, 'l, 'w) exec_state = "('a \<times> 'l controller) \<times> 'w"

definition on_manager :: "('l resource_manager \<times> 'w \<Rightarrow> (goerr + 'a) \<times> 'l resource_manager \<times> 'w) \<Rightarrow> 'a \<Rightarrow>
    ('a, 'l, 'w) exec_state operation" where
  "on_manager f nil = (\<lambda>((_, ct), w).
     case f (ct_ResourceManager ct, w) of
       (Inl e, rm, w1) \<Rightarrow> (Inl e, (nil, ct\<lparr>ct_ResourceManager := rm\<rparr>), w1)
     | (Inr x, rm, w1) \<Rightarrow> (Inr (), (x, ct\<lparr>ct_ResourceManager := rm\<rparr>), w1))"

definition retry_on_manager :: "('w, 'l) env \<Rightarrow> task_executor \<Rightarrow> str \<Rightarrow>
    ('l resource_manager \<times> 'w \<Rightarrow> (goerr + 'a) \<times> 'l resource_manager \<times> 'w) \<Rightarrow> 'a \<Rightarrow>
    'l controller \<times> 'w \<Rightarrow> (goerr + unit) \<times> ('a, 'l, 'w) exec_state" where
  "retry_on_manager env te name f nil = (\<lambda>(ct, w).
     retried env (te_errorHandler te) name (on_manager f nil) ((nil, ct), w))"

section \<open>Execution\<close>

definition error_of :: "goerr + unit \<Rightarrow> goerr option" where
  "error_of r = (case r of Inl e \<Rightarrow> Some e | Inr _ \<Rightarrow> None)"

text \<open>The loop over the results of the groups: the total and the first error.\<close>

fun sum_results :: "group_result list \<Rightarrow> int32 \<Rightarrow> goerr option \<Rightarrow> int32 \<times> goerr option" where
  "sum_results [] totalAffected err = (totalAffected, err)"
| "sum_results (result # results) totalAffected err =
     sum_results results (totalAffected + gr_ResourcesAffected result)
       (if \<not> gr_Success result \<and> err = None then gr_Error result else err)"

definition audit_all :: "(resource \<Rightarrow> 'w \<Rightarrow> 'w) \<Rightarrow> resource list \<Rightarrow> 'w \<Rightarrow> 'w" where
  "audit_all f resources w = fold f resources w"

definition executeApplyAction :: "('w, 'l) env \<Rightarrow> task_executor \<Rightarrow> scheduled_task \<Rightarrow> 'l controller \<times> 'w \<Rightarrow>
    (int32 \<times> goerr option) \<times> 'l controller \<times> 'w" where
  "executeApplyAction env te task st =
     (let d = env_deps env;
          templateContext = buildTemplateContext (env_now env (snd st)) task;
          conflictResolution = (if task_ConflictResolution task \<noteq> [] then task_ConflictResolution task
                                else ConflictResolutionPriority)
      in if length (task_AnnotationGroups task) > 0
         then (case retry_on_manager env te (''apply-annotation-groups-'' @ task_RuleID task)
                      (ApplyAnnotationGroups d (task_Selector task) (task_AnnotationGroups task)
                         (task_TargetResources task) (task_RuleNamespace task) (task_RuleID task)
                         templateContext conflictResolution) [] st of
                 (r, (results, ct1), w1) \<Rightarrow> (sum_results results 0 (error_of r), ct1, w1))
         else if length (task_Annotations task) > 0
         then (case retry_on_manager env te (''get-matching-resources-'' @ task_RuleID task)
                      (GetMatchingResources d (task_Selector task) (task_TargetResources task)
                         (task_RuleNamespace task)) [] st of
                 (Inl e, (_, ct1), w1) \<Rightarrow>
                   ((0, Some (Wrapf ''failed to get matching resources: '' e)), ct1, w1)
               | (Inr _, (resources, ct1), w1) \<Rightarrow>
                   if length resources = 0 then ((0, None), ct1, w1)
                   else (case retry_on_manager env te (''apply-annotations-'' @ task_RuleID task)
                                (ApplyAnnotations d (task_Selector task) (task_Annotations task)
                                   (task_TargetResources task) (task_RuleNamespace task)
                                   (task_RuleID task)) () (ct1, w1) of
                           (r, (_, ct2), w2) \<Rightarrow>
                             ((word_of_nat (length resources), error_of r), ct2,
                              if te_audits te
                              then audit_all (\<lambda>res. LogAnnotationApply (dep_api d) (task_RuleID task)
                                     (task_RuleName task) (task_RuleNamespace task) res
                                     (task_Annotations task) (error_of r = None) (error_of r)) resources w2
                              else w2)))
         else ((0, None), st))"

definition executeRemoveAction :: "('w, 'l) env \<Rightarrow> task_executor \<Rightarrow> scheduled_task \<Rightarrow> 'l controller \<times> 'w \<Rightarrow>
    (int32 \<times> goerr option) \<times> 'l controller \<times> 'w" where
  "executeRemoveAction env te task st =
     (let d = env_deps env; keys = mkeys (task_Annotations task)
      in if length (task_AnnotationGroups task) > 0
         then (case retry_on_manager env te (''remove-annotation-groups-'' @ task_RuleID task)
                      (RemoveAnnotationGroups d (task_Selector task) (task_AnnotationGroups task)
                         (task_TargetResources task) (task_RuleNamespace task) (task_RuleID task)) [] st of
                 (r, (results, ct1), w1) \<Rightarrow> (sum_results results 0 (error_of r), ct1, w1))
         else if length (task_Annotations task) > 0
         then (case retry_on_manager env te (''get-matching-resources-remove-'' @ task_RuleID task)
                      (GetMatchingResources d (task_Selector task) (task_TargetResources task)
                         (task_RuleNamespace task)) [] st of
                 (Inl e, (_, ct1), w1) \<Rightarrow>
                   ((0, Some (Wrapf ''failed to get matching resources: '' e)), ct1, w1)
               | (Inr _, (resources, ct1), w1) \<Rightarrow>
                   if length resources = 0 then ((0, None), ct1, w1)
                   else (case retry_on_manager env te (''remove-annotations-'' @ task_RuleID task)
                                (RemoveAnnotations d (task_Selector task) keys
                                   (task_TargetResources task) (task_RuleNamespace task)
                                   (task_RuleID task)) () (ct1, w1) of
                           (r, (_, ct2), w2) \<Rightarrow>
                             ((word_of_nat (length resources), error_of r), ct2,
                              if te_audits te
                              then audit_all (\<lambda>res. LogAnnotationRemove (dep_api d) (task_RuleID task)
                                     (task_RuleName task) (task_RuleNamespace task) res
                                     keys (error_of r = None) (error_of r)) resources w2
                              else w2)))
         else ((0, None), st))"

section \<open>The status after an execution\<close>

text \<open>The fields and conditions that the closure \<open>updateOperation\<close> sets on the fetched rule.\<close>

definition executed_status :: "gotime \<Rightarrow> scheduled_task \<Rightarrow> goerr option \<Rightarrow> int32 \<Rightarrow> gotime \<Rightarrow> rule \<Rightarrow> rule" where
  "executed_status now task execErr affectedResources executionTime r =
     (let r1 = upd_status (\<lambda>st. st\<lparr>st_LastExecutionTime := Some executionTime,
                 st_AffectedResources := affectedResources,
                 st_ExecutionCount := st_ExecutionCount st + 1\<rparr>) r
      in case execErr of
           Some e \<Rightarrow>
             setCondition now ConditionTypeError ConditionTrue ReasonExecutionFailed
               (''Execution error for action '' @ task_Action task @ '': '' @ err_text e)
            (setCondition now ConditionTypeExecuted ConditionFalse ReasonExecutionFailed
               (''Task execution failed: '' @ err_text e)
            (upd_status (\<lambda>st. st\<lparr>st_FailedExecutions := st_FailedExecutions st + 1,
               st_LastError := err_text e, st_LastErrorTime := Some executionTime\<rparr>) r1))
         | None \<Rightarrow>
             setCondition now ConditionTypeError ConditionFalse ReasonExecutionSucceeded ''No execution errors''
            (setCondition now ConditionTypeExecuted ConditionTrue ReasonExecutionSucceeded
               (''Task executed successfully, affected '' @ show_int (sint affectedResources) @ '' resources'')
            (upd_status (\<lambda>st. st\<lparr>st_SuccessfulExecutions := st_SuccessfulExecutions st + 1,
               st_LastError := [], st_LastErrorTime := None\<rparr>) r1)))"

definition updateOperation :: "'w api \<Rightarrow> scheduled_task \<Rightarrow> goerr option \<Rightarrow> int32 \<Rightarrow> gotime \<Rightarrow> nsname \<Rightarrow>
    (unit \<times> 'w) operation" where
  "updateOperation api task execErr affectedResources executionTime name = (\<lambda>(_, w).
     case api_getRule api name w of
       (Inl e, w1) \<Rightarrow> (Inl (Wrapf ''failed to fetch rule for status update: '' e), (), w1)
     | (Inr r, w1) \<Rightarrow>
         (case api_updateStatus api
                 (executed_status (api_now api w1) task execErr affectedResources executionTime r) w1 of
            (Inl e, w2) \<Rightarrow> (Inl e, (), w2)
          | (Inr _, w2) \<Rightarrow> (Inr (), (), w2)))"

text \<open>The rule that a task names, by its fields or else by its ID.\<close>

definition task_rule :: "scheduled_task \<Rightarrow> nsname option" where
  "task_rule task =
     (if task_RuleNamespace task = [] \<or> task_RuleName task = []
      then let parts = split_on (CHR ''/'') (task_RuleID task)
           in if length parts = 2 then Some (parts ! 0, parts ! 1) else None
      else Some (task_RuleNamespace task, task_RuleName task))"

definition updateRuleStatusAfterExecution :: "('w, 'l) env \<Rightarrow> task_executor \<Rightarrow> scheduled_task \<Rightarrow>
    goerr option \<Rightarrow> int32 \<Rightarrow> gotime \<Rightarrow> 'w \<Rightarrow> 'w" where
  "updateRuleStatusAfterExecution env te task execErr affectedResources executionTime w =
     (case task_rule task of
        None \<Rightarrow> w
      | Some name \<Rightarrow>
          snd (snd (retried env (te_errorHandler te) (''update-rule-status-'' @ task_RuleID task)
            (updateOperation (env_api env) task execErr affectedResources executionTime name) ((), w))))"

section \<open>ExecuteTask\<close>

text \<open>One try of the task: the closure sets \<open>affectedResources\<close> and gives the error.\<close>

definition execute_action :: "('w, 'l) env \<Rightarrow> task_executor \<Rightarrow> scheduled_task \<Rightarrow>
    (int32, 'l, 'w) exec_state operation" where
  "execute_action env te task = (\<lambda>((affectedResources, ct), w).
     if task_Action task = ''apply''
     then (case executeApplyAction env te task (ct, w) of
             ((n, e), ct1, w1) \<Rightarrow> (case e of None \<Rightarrow> Inr () | Some e \<Rightarrow> Inl e, (n, ct1), w1))
     else if task_Action task = ''remove''
     then (case executeRemoveAction env te task (ct, w) of
             ((n, e), ct1, w1) \<Rightarrow> (case e of None \<Rightarrow> Inr () | Some e \<Rightarrow> Inl e, (n, ct1), w1))
     else (Inl (Errorf (''unknown task action: '' @ task_Action task)), (affectedResources, ct), w))"

definition ExecuteTask :: "('w, 'l) env \<Rightarrow> task_executor \<Rightarrow> scheduled_task \<Rightarrow> 'l controller \<times> 'w \<Rightarrow>
    (goerr + unit) \<times> 'l controller \<times> 'w" where
  "ExecuteTask env te task = (\<lambda>(ct, w).
     let startTime = env_now env w in
     case retried env (te_errorHandler te) (''execute-task-'' @ task_RuleID task @ ''-'' @ task_Action task)
            (execute_action env te task) ((0, ct), w) of
       (r, (affectedResources, ct1), w1) \<Rightarrow>
         let duration = env_now env w1 - startTime;
             ct2 = (if te_reconciler te \<noteq> None
                    then ct1\<lparr>ct_Metrics := map_option (RecordExecution (env_now env w1) (r = Inr ()) duration)
                           (ct_Metrics ct1)\<rparr>
                    else ct1);
             w2 = (if te_reconciler te \<noteq> None
                   then updateRuleStatusAfterExecution env te task (error_of r) affectedResources startTime w1
                   else w1)
         in (r, ct2, w2))"

end
