(* ===== verification/Rule_Reconciler.thy ===== *)
theory Rule_Reconciler
  imports Task_Executor
begin

text \<open>
  The reconciler of \<open>internal/controller/annotationschedulerule_controller.go\<close>: validation of a
  rule, and one pass of \<open>Reconcile\<close>.  A pass maps the controller and the world to a result and
  the new ones.  A nil rule that is dereferenced is a \<open>Panic\<close>, which \<open>safeReconcile\<close> turns
  into an error.  \<open>client.Update\<close> and \<open>Status().Update\<close> write the server's answer back into
  the rule they are given.
\<close>

section \<open>Validation\<close>

definition validateResourceTypes :: "rule \<Rightarrow> goerr + unit" where
  "validateResourceTypes r =
     (let unsupported = ValidateResourceTypes (spec_TargetResources (rule_Spec r))
      in check_that (\<not> length unsupported > 0)
           (Errorf (''unsupported resource types: '' @ show_strs unsupported)))"

text \<open>A failure of the security validator is audited.\<close>

definition validateLegacyAnnotations :: "('w, 'l) env \<Rightarrow> reconciler \<Rightarrow> 'l controller \<Rightarrow> rule \<Rightarrow> 'w \<Rightarrow>
    (goerr + unit) \<times> 'w" where
  "validateLegacyAnnotations env rc ct r w =
     (let annotations = spec_Annotations (rule_Spec r);
          basic = wrap_err ''invalid annotations: ''
                    (ValidateAnnotations (rm_Validator (ct_ResourceManager ct)) annotations)
      in case rec_SecurityValidator rc of
           None \<Rightarrow> (basic, w)
         | Some sv \<Rightarrow>
             (case ValidateAnnotations sv annotations of
                Inl err \<Rightarrow>
                  (Inl (Wrapf ''security validation failed: '' err),
                   if rec_AuditLogger rc
                   then LogValidationFailure (env_api env) (getRuleID r) (rule_Name r) (rule_Namespace r)
                          annotations err w
                   else w)
              | Inr _ \<Rightarrow> (basic, w)))"

definition validate_group_templates :: "template_engine \<Rightarrow> annotation_group \<Rightarrow> goerr + unit" where
  "validate_group_templates te grp =
     first_err (\<lambda>op. if op_Template op \<and> op_Value op \<noteq> []
         then wrap_err (''invalid template in group '' @ grp_Name grp @ '', operation '' @ op_Key op @ '': '')
                (ValidateTemplate te (op_Value op))
         else Inr ()) (grp_Operations grp)"

definition validateAnnotationGroups :: "'l controller \<Rightarrow> rule \<Rightarrow> goerr + unit" where
  "validateAnnotationGroups ct r =
     (let groups = spec_AnnotationGroups (rule_Spec r); rm = ct_ResourceManager ct
      in and_then (wrap_err ''invalid annotation groups: '' (ValidateAnnotationGroups rm groups))
           (first_err (validate_group_templates (rm_TemplateEngine rm)) groups))"

definition validateAnnotationsConfig :: "('w, 'l) env \<Rightarrow> reconciler \<Rightarrow> 'l controller \<Rightarrow> rule \<Rightarrow> 'w \<Rightarrow>
    (goerr + unit) \<times> 'w" where
  "validateAnnotationsConfig env rc ct r w =
     (let hasLegacyAnnotations = length (spec_Annotations (rule_Spec r)) > 0;
          hasAnnotationGroups = length (spec_AnnotationGroups (rule_Spec r)) > 0
      in if \<not> hasLegacyAnnotations \<and> \<not> hasAnnotationGroups
         then (Inl (Errorf ''rule must specify either annotations or annotationGroups''), w)
         else if hasLegacyAnnotations \<and> hasAnnotationGroups
         then (Inl (Errorf ''rule cannot specify both annotations and annotationGroups, use one or the other''), w)
         else if hasLegacyAnnotations then validateLegacyAnnotations env rc ct r w
         else if hasAnnotationGroups then (validateAnnotationGroups ct r, w)
         else (Inr (), w))"

definition validStrategies :: "str list" where
  "validStrategies = [''priority'', ''timestamp'', ''skip'']"

definition validateConflictResolution :: "rule \<Rightarrow> goerr + unit" where
  "validateConflictResolution r =
     (let strategy = spec_ConflictResolution (rule_Spec r)
      in check_that (\<not> (strategy \<noteq> [] \<and> \<not> list_ex (\<lambda>v. strategy = v) validStrategies))
           (Errorf (''invalid conflict resolution strategy: '' @ strategy @ '' (must be one of: '' @
              show_strs validStrategies @ '')'')))"

definition validateTemplateVariables :: "'l controller \<Rightarrow> rule \<Rightarrow> goerr + unit" where
  "validateTemplateVariables ct r =
     first_err (\<lambda>(key, value).
        and_then (check_that (key \<noteq> []) (Errorf ''template variable key cannot be empty''))
          (wrap_err (''invalid template variable name '' @ key @ '': '')
             (ValidateTemplate (rm_TemplateEngine (ct_ResourceManager ct)) (''${'' @ key @ ''}''))))
       (spec_TemplateVariables (rule_Spec r))"

definition validateDatetimeSchedule :: "schedule_config \<Rightarrow> goerr + unit" where
  "validateDatetimeSchedule sched =
     and_then (check_that (\<not> (sc_StartTime sched = None \<and> sc_EndTime sched = None))
         (Errorf ''datetime schedule must specify at least startTime or endTime''))
       (case (sc_StartTime sched, sc_EndTime sched) of
          (Some startTime, Some endTime) \<Rightarrow>
            check_that (\<not> endTime < startTime) (Errorf ''endTime cannot be before startTime'')
        | _ \<Rightarrow> Inr ())"

text \<open>The parser has a function of the same name as the next one.\<close>

definition reconciler_validateCronSchedule :: "schedule_config \<Rightarrow> goerr + unit" where
  "reconciler_validateCronSchedule sched =
     and_then (check_that (sc_CronExpression sched \<noteq> []) (Errorf ''cron schedule must specify cronExpression''))
    (and_then (check_that (sc_Action sched \<noteq> [])
        (Errorf ''cron schedule must specify action (apply or remove)''))
      (check_that (\<not> (sc_Action sched \<noteq> ''apply'' \<and> sc_Action sched \<noteq> ''remove''))
        (Errorf (''cron schedule action must be '' @ quoted ''apply'' @ '' or '' @ quoted ''remove''))))"

definition validateScheduleConfig :: "rule \<Rightarrow> goerr + unit" where
  "validateScheduleConfig r =
     (let sched = spec_Schedule (rule_Spec r)
      in if sc_Type sched = ''datetime'' then validateDatetimeSchedule sched
         else if sc_Type sched = ''cron'' then reconciler_validateCronSchedule sched
         else Inl (Errorf (''schedule type must be '' @ quoted ''datetime'' @ '' or '' @ quoted ''cron'')))"

definition validateRule :: "('w, 'l) env \<Rightarrow> reconciler \<Rightarrow> 'l controller \<Rightarrow> rule \<Rightarrow> 'w \<Rightarrow>
    (goerr + unit) \<times> 'w" where
  "validateRule env rc ct r w =
     (case validateResourceTypes r of
        Inl e \<Rightarrow> (Inl e, w)
      | Inr _ \<Rightarrow> (case validateAnnotationsConfig env rc ct r w of
          (Inl e, w1) \<Rightarrow> (Inl e, w1)
        | (Inr _, w1) \<Rightarrow>
            (and_then (validateConflictResolution r)
              (and_then (validateTemplateVariables ct r) (validateScheduleConfig r)), w1)))"

section \<open>Results\<close>

record ctrl_result =
  cr_Requeue :: bool
  cr_RequeueAfter :: duration

definition no_requeue :: ctrl_result where "no_requeue = \<lparr>cr_Requeue = False, cr_RequeueAfter = 0\<rparr>"
definition requeue_now :: ctrl_result where "requeue_now = \<lparr>cr_Requeue = True, cr_RequeueAfter = 0\<rparr>"

definition requeue_after :: "duration \<Rightarrow> ctrl_result" where
  "requeue_after d = \<lparr>cr_Requeue = False, cr_RequeueAfter = d\<rparr>"

type_synonym outcome = "ctrl_result \<times> goerr option"

text \<open>The delay before the next pass for an error that may be retried, \<open>None\<close> for the others.\<close>

definition retry_delay :: "('w, 'l) env \<Rightarrow> reconciler \<Rightarrow> goerr \<Rightarrow> 'w \<Rightarrow> duration option" where
  "retry_delay env rc err w =
     (case rec_ErrorHandler rc of
        None \<Rightarrow> None
      | Some eh \<Rightarrow> if ShouldRetry eh (Some err) 0
          then Some (CalculateDelay (word_of_int (env_now env w)) eh 1) else None)"

text \<open>What the fetch, the finalizer and the status update make of an error.\<close>

definition requeue_or_fail :: "('w, 'l) env \<Rightarrow> reconciler \<Rightarrow> goerr \<Rightarrow> 'w \<Rightarrow> outcome" where
  "requeue_or_fail env rc err w =
     (case retry_delay env rc err w of
        Some delay \<Rightarrow> (requeue_after delay, None)
      | None \<Rightarrow> (no_requeue, Some err))"

section \<open>Closures\<close>

text \<open>\<open>r.Get(ctx, req.NamespacedName, rule)\<close>, and the updates of the rule at hand.\<close>

definition get_rule :: "('w, 'l) env \<Rightarrow> nsname \<Rightarrow> (rule option \<times> 'w) operation" where
  "get_rule env req = (\<lambda>(_, w). case api_getRule (env_api env) req w of
     (Inl e, w1) \<Rightarrow> (Inl e, None, w1) | (Inr r, w1) \<Rightarrow> (Inr (), Some r, w1))"

definition update_rule :: "('w, 'l) env \<Rightarrow> (rule \<times> 'w) operation" where
  "update_rule env = (\<lambda>(r, w). case api_updateRule (env_api env) r w of
     (Inl e, w1) \<Rightarrow> (Inl e, r, w1) | (Inr r1, w1) \<Rightarrow> (Inr (), r1, w1))"

definition update_status :: "('w, 'l) env \<Rightarrow> (rule \<times> 'w) operation" where
  "update_status env = (\<lambda>(r, w). case api_updateStatus (env_api env) r w of
     (Inl e, w1) \<Rightarrow> (Inl e, r, w1) | (Inr r1, w1) \<Rightarrow> (Inr (), r1, w1))"

text \<open>
  \<open>r.Scheduler.ScheduleRule(rule)\<close>.  A panic ends the retries at once; it is kept in the state.
\<close>

definition schedule_op :: "('w, 'l) env \<Rightarrow> rule \<Rightarrow> ((str option \<times> 'l controller) \<times> 'w) operation" where
  "schedule_op env r = (\<lambda>((_, ct), w).
     case ScheduleRule (env_cron env) (env_now env w) r (ct_Scheduler ct) of
       (Ret res, s) \<Rightarrow> (res, (None, ct\<lparr>ct_Scheduler := s\<rparr>), w)
     | (Panic m, s) \<Rightarrow> (Inr (), (Some m, ct\<lparr>ct_Scheduler := s\<rparr>), w))"

definition unschedule :: "str \<Rightarrow> 'l controller \<Rightarrow> 'l controller" where
  "unschedule ruleID ct = ct\<lparr>ct_Scheduler := snd (UnscheduleRule ruleID (ct_Scheduler ct))\<rparr>"

section \<open>The parts of a pass\<close>

text \<open>The rule that is returned is a pointer: \<open>None\<close> is nil.\<close>

definition fetchRule :: "('w, 'l) env \<Rightarrow> reconciler \<Rightarrow> nsname \<Rightarrow> 'l controller \<times> 'w \<Rightarrow>
    (rule option \<times> outcome) \<times> 'l controller \<times> 'w" where
  "fetchRule env rc req = (\<lambda>(ct, w).
     case retried env (rec_ErrorHandler rc) (''get-rule-'' @ nsname_string req) (get_rule env req) (None, w) of
       (Inr _, r, w1) \<Rightarrow> ((r, no_requeue, None), ct, w1)
     | (Inl fetchErr, _, w1) \<Rightarrow>
         if is_reason NotFound fetchErr
         then ((None, no_requeue, None), unschedule (nsname_string req) ct, w1)
         else ((None, requeue_or_fail env rc fetchErr w1), ct, w1))"

definition ensureFinalizer :: "('w, 'l) env \<Rightarrow> reconciler \<Rightarrow> nsname \<Rightarrow> rule \<Rightarrow> 'w \<Rightarrow>
    (rule \<times> outcome) \<times> 'w" where
  "ensureFinalizer env rc req r w =
     (if AnnotationScheduleRuleFinalizer \<notin> set (rule_Finalizers r)
      then (let r1 = r\<lparr>rule_Finalizers := rule_Finalizers r @ [AnnotationScheduleRuleFinalizer]\<rparr>
            in case retried env (rec_ErrorHandler rc) (''add-finalizer-'' @ nsname_string req)
                      (update_rule env) (r1, w) of
                 (Inl updateErr, r2, w1) \<Rightarrow> ((r2, requeue_or_fail env rc updateErr w1), w1)
               | (Inr _, r2, w1) \<Rightarrow> ((r2, requeue_now, None), w1))
      else ((r, no_requeue, None), w))"

definition validateAndUpdateRuleOnFailure :: "('w, 'l) env \<Rightarrow> reconciler \<Rightarrow> 'l controller \<Rightarrow> rule \<Rightarrow> 'w \<Rightarrow>
    (goerr option \<times> rule) \<times> 'w" where
  "validateAndUpdateRuleOnFailure env rc ct r w =
     (case validateRule env rc ct r w of
        (Inl err, w1) \<Rightarrow>
          (let now = env_now env w1;
               r1 = setCondition now ConditionTypeValidated ConditionFalse ReasonValidationFailed
                      (''Validation failed: '' @ err_text err) r;
               r2 = setCondition now ConditionTypeError ConditionTrue ReasonValidationFailed (err_text err) r1;
               r3 = updateRuleStatus now PhaseFailed (''Validation failed: '' @ err_text err) r2
           in case update_status env (r3, w1) of (_, r4, w2) \<Rightarrow> ((Some err, r4), w2))
      | (Inr _, w1) \<Rightarrow>
          (let now = env_now env w1;
               r1 = setCondition now ConditionTypeValidated ConditionTrue ReasonValidationSucceeded
                      ''Rule validation passed'' r
           in ((None, setCondition now ConditionTypeError ConditionFalse ReasonValidationSucceeded
                        ''No validation errors'' r1), w1)))"

definition scheduling_requeue :: "('w, 'l) env \<Rightarrow> reconciler \<Rightarrow> goerr \<Rightarrow> 'w \<Rightarrow> duration" where
  "scheduling_requeue env rc err w =
     (case retry_delay env rc err w of
        None \<Rightarrow> 5 * time_minute
      | Some d \<Rightarrow> if d < time_minute then time_minute else d)"

definition scheduleRuleWithErrorHandling :: "('w, 'l) env \<Rightarrow> reconciler \<Rightarrow> rule \<Rightarrow> 'l controller \<times> 'w \<Rightarrow>
    (rule \<times> outcome) may_panic \<times> 'l controller \<times> 'w" where
  "scheduleRuleWithErrorHandling env rc r = (\<lambda>(ct, w).
     case retried env (rec_ErrorHandler rc) (''schedule-rule-'' @ rule_Namespace r @ ''-'' @ rule_Name r)
            (schedule_op env r) ((None, ct), w) of
       (_, (Some m, ct1), w1) \<Rightarrow> (Panic m, ct1, w1)
     | (Inl scheduleErr, (None, ct1), w1) \<Rightarrow>
         (let now = env_now env w1;
              r1 = setCondition now ConditionTypeScheduled ConditionFalse ReasonSchedulingFailed
                     (err_text scheduleErr) r;
              r2 = setCondition now ConditionTypeError ConditionTrue ReasonSchedulingFailed
                     (''Scheduling failed: '' @ err_text scheduleErr) r1;
              r3 = updateRuleStatus now PhaseFailed (''Scheduling failed: '' @ err_text scheduleErr) r2
          in case retried env (rec_ErrorHandler rc)
                    (''update-status-scheduling-failed-'' @ rule_Namespace r @ ''-'' @ rule_Name r)
                    (update_status env) (r3, w1) of
               (_, r4, w2) \<Rightarrow>
                 (Ret (r4, requeue_after (scheduling_requeue env rc scheduleErr w2), Some scheduleErr), ct1, w2))
     | (Inr _, (None, ct1), w1) \<Rightarrow>
         (let now = env_now env w1;
              r1 = setCondition now ConditionTypeScheduled ConditionTrue ReasonSchedulingSucceeded
                     ''Rule successfully scheduled'' r
          in (Ret (setCondition now ConditionTypeError ConditionFalse ReasonSchedulingSucceeded
                     ''No scheduling errors'' r1, no_requeue, None), ct1, w1)))"

definition processNextExecutionTime :: "('w, 'l) env \<Rightarrow> 'l controller \<Rightarrow> rule \<Rightarrow> 'w \<Rightarrow>
    (rule \<times> outcome) \<times> 'w" where
  "processNextExecutionTime env ct r w =
     (let ruleID = getRuleID r; now = env_now env w in
      case GetNextExecutionTime (ct_Scheduler ct) ruleID of
        Inl err \<Rightarrow>
          ((setCondition now ConditionTypeError ConditionTrue ''NextExecutionError''
              (''Failed to get next execution time: '' @ err_text err) r, no_requeue, Some err), w)
      | Inr (Some nextExecution) \<Rightarrow>
          ((upd_status (\<lambda>st. st\<lparr>st_NextExecutionTime := Some nextExecution\<rparr>) r, no_requeue, None), w)
      | Inr None \<Rightarrow>
          (let r1 = updateRuleStatus now PhaseCompleted ''Rule schedule completed'' r;
               r2 = setCondition now ConditionTypeReady ConditionTrue ReasonRuleCompleted
                      ''Rule schedule completed'' r1
           in case update_status env (r2, w) of (_, r3, w1) \<Rightarrow> ((r3, no_requeue, None), w1)))"

definition updateRuleActiveStatus :: "('w, 'l) env \<Rightarrow> reconciler \<Rightarrow> rule \<Rightarrow> 'w \<Rightarrow> rule \<times> 'w" where
  "updateRuleActiveStatus env rc r w =
     (let now = env_now env w; phase = st_Phase (rule_Status r);
          (r1, w1) =
            (if phase = [] \<or> phase = PhasePending
             then (let r1 = updateRuleStatus now controller_PhaseActive ''Rule is active and scheduled'' r
                   in (r1, if rec_AuditLogger rc \<and> st_Phase (rule_Status r1) = []
                           then LogRuleCreation (env_api env) (getRuleID r1) (rule_Name r1) (rule_Namespace r1)
                                  (spec_Annotations (rule_Spec r1)) w
                           else w))
             else (r, w))
      in (setCondition now ConditionTypeReady ConditionTrue ReasonRuleReady ''Rule is ready and scheduled'' r1, w1))"

definition updateRuleStatusWithErrorHandling :: "('w, 'l) env \<Rightarrow> reconciler \<Rightarrow> rule \<Rightarrow> 'w \<Rightarrow>
    outcome \<times> 'w" where
  "updateRuleStatusWithErrorHandling env rc r w =
     (case retried env (rec_ErrorHandler rc) (''update-status-'' @ rule_Namespace r @ ''-'' @ rule_Name r)
             (update_status env) (r, w) of
        (Inl err, _, w1) \<Rightarrow> (requeue_or_fail env rc err w1, w1)
      | (Inr _, _, w1) \<Rightarrow> ((no_requeue, None), w1))"

section \<open>Deletion\<close>

definition cleanupRuleAnnotations :: "('w, 'l) env \<Rightarrow> rule \<Rightarrow> 'l controller \<times> 'w \<Rightarrow>
    (goerr + unit) \<times> 'l controller \<times> 'w" where
  "cleanupRuleAnnotations env r = (\<lambda>(ct, w).
     let keys = mkeys (spec_Annotations (rule_Spec r)) in
     if length keys = 0 then (Inr (), ct, w)
     else case RemoveAnnotations (env_deps env) (spec_Selector (rule_Spec r)) keys
                 (spec_TargetResources (rule_Spec r)) (rule_Namespace r) (getRuleID r)
                 (ct_ResourceManager ct, w) of
       (res, rm, w1) \<Rightarrow> (res, ct\<lparr>ct_ResourceManager := rm\<rparr>, w1))"

definition handleDeletion :: "('w, 'l) env \<Rightarrow> reconciler \<Rightarrow> rule \<Rightarrow> 'l controller \<times> 'w \<Rightarrow>
    outcome \<times> 'l controller \<times> 'w" where
  "handleDeletion env rc r = (\<lambda>(ct, w).
     if AnnotationScheduleRuleFinalizer \<in> set (rule_Finalizers r)
     then (let w1 = (if rec_AuditLogger rc
                     then LogRuleDeletion (env_api env) (getRuleID r) (rule_Name r) (rule_Namespace r)
                            (spec_Annotations (rule_Spec r)) w
                     else w);
               ct1 = unschedule (getRuleID r) ct
           in case cleanupRuleAnnotations env r (ct1, w1) of
                (Inl err, ct2, w2) \<Rightarrow> ((requeue_after time_minute, Some err), ct2, w2)
              | (Inr _, ct2, w2) \<Rightarrow>
                  (case update_rule env
                          (r\<lparr>rule_Finalizers := filter (\<lambda>f. f \<noteq> AnnotationScheduleRuleFinalizer)
                             (rule_Finalizers r)\<rparr>, w2) of
                     (Inl err, _, w3) \<Rightarrow> ((no_requeue, Some err), ct2, w3)
                   | (Inr _, _, w3) \<Rightarrow> ((no_requeue, None), ct2, w3)))
     else ((no_requeue, None), ct, w))"

section \<open>Reconcile\<close>

text \<open>The pass after the rule was fetched and found not to be deleted.\<close>

definition reconcile_live :: "('w, 'l) env \<Rightarrow> reconciler \<Rightarrow> nsname \<Rightarrow> rule \<Rightarrow> 'l controller \<times> 'w \<Rightarrow>
    outcome may_panic \<times> 'l controller \<times> 'w" where
  "reconcile_live env rc req r = (\<lambda>(ct, w).
     case ensureFinalizer env rc req r w of
       ((r1, finalizerResult, finalizerErr), w1) \<Rightarrow>
     if finalizerErr \<noteq> None \<or> cr_RequeueAfter finalizerResult > 0 \<or> cr_Requeue finalizerResult
     then (Ret (finalizerResult, finalizerErr), ct, w1)
     else case validateAndUpdateRuleOnFailure env rc ct r1 w1 of
       ((Some _, _), w2) \<Rightarrow> (Ret (no_requeue, None), ct, w2)
     | ((None, r2), w2) \<Rightarrow>
     (case scheduleRuleWithErrorHandling env rc r2 (ct, w2) of
       (Panic m, ct3, w3) \<Rightarrow> (Panic m, ct3, w3)
     | (Ret (r3, scheduleResult, scheduleErr), ct3, w3) \<Rightarrow>
     if scheduleErr \<noteq> None then (Ret (scheduleResult, scheduleErr), ct3, w3)
     else case processNextExecutionTime env ct3 r3 w3 of
       ((r4, nextExecResult, nextExecErr), w4) \<Rightarrow>
     if nextExecErr \<noteq> None \<or> cr_RequeueAfter nextExecResult > 0
     then (Ret (nextExecResult, nextExecErr), ct3, w4)
     else case updateRuleActiveStatus env rc r4 w4 of
       (r5, w5) \<Rightarrow>
     (case updateRuleStatusWithErrorHandling env rc r5 w5 of
       ((statusResult, statusErr), w6) \<Rightarrow>
     if statusErr \<noteq> None then (Ret (statusResult, statusErr), ct3, w6)
     else (Ret (requeue_after (10 * time_minute), None), ct3, w6))))"

definition doReconcile :: "('w, 'l) env \<Rightarrow> reconciler \<Rightarrow> nsname \<Rightarrow> 'l controller \<times> 'w \<Rightarrow>
    outcome may_panic \<times> 'l controller \<times> 'w" where
  "doReconcile env rc req st =
     (case fetchRule env rc req st of
        ((rule, fetchResult, fetchErr), st1) \<Rightarrow>
      if fetchErr \<noteq> None then (Ret (fetchResult, fetchErr), st1)
      else case rule of
        None \<Rightarrow> (Panic nil_deref, st1)
      | Some r \<Rightarrow>
          if rule_DeletionTimestamp r \<noteq> None
          then (case handleDeletion env rc r st1 of (res, st2) \<Rightarrow> (Ret res, st2))
          else reconcile_live env rc req r st1)"

definition safeReconcile :: "('w, 'l) env \<Rightarrow> reconciler \<Rightarrow> nsname \<Rightarrow> 'l controller \<times> 'w \<Rightarrow>
    outcome may_panic \<times> 'l controller \<times> 'w" where
  "safeReconcile env rc req st =
     (case doReconcile env rc req st of
        (Panic m, st1) \<Rightarrow>
          (Ret (requeue_after (5 * time_minute), Some (Errorf (''panic in reconcile: '' @ m))), st1)
      | (Ret res, st1) \<Rightarrow> (Ret res, st1))"

definition Reconcile :: "('w, 'l) env \<Rightarrow> reconciler \<Rightarrow> nsname \<Rightarrow> 'l controller \<times> 'w \<Rightarrow>
    outcome may_panic \<times> 'l controller \<times> 'w" where
  "Reconcile env rc req st =
     (if rec_RecoveryManager rc \<noteq> None then safeReconcile env rc req st else doReconcile env rc req st)"

end
