(* ===== verification/Security_Config.thy ===== *)
theory Security_Config
  imports Security_Validator
begin

text \<open>
  \<open>internal/security/config.go\<close>: the security configuration read from two ConfigMaps, its
  own validation, and the validator made of it.  The API server's answer to a \<open>Get\<close> of a
  ConfigMap is the parameter \<open>getConfigMap\<close>, from a name to an error or the map \<open>Data\<close>.
\<close>

section \<open>Parsing\<close>

record security_config =
  cfg_AllowedPrefixes :: "str list"
  cfg_DeniedPrefixes :: "str list"
  cfg_RequiredPrefix :: str
  cfg_MaxKeyLength :: int
  cfg_MaxValueLength :: int
  cfg_AuditEnabled :: bool
  cfg_AuditLevel :: str
  cfg_CreateSecurityEvents :: bool

definition parseStringList :: "str \<Rightarrow> str list" where
  "parseStringList input =
     (if input = [] then []
      else filter (\<lambda>line. line \<noteq> [] \<and> \<not> has_prefix line ''#'')
             (map trim_space (split_on (CHR 0x0A) input)))"

definition parseBool :: "str \<Rightarrow> bool \<Rightarrow> bool" where
  "parseBool input defaultValue =
     (if input = [] then defaultValue
      else let i = to_lower (trim_space input) in
        if i \<in> set [''true'', ''yes'', ''1'', ''on'', ''enabled''] then True
        else if i \<in> set [''false'', ''no'', ''0'', ''off'', ''disabled''] then False
        else defaultValue)"

definition parseString :: "str \<Rightarrow> str \<Rightarrow> str" where
  "parseString input defaultValue = (if input = [] then defaultValue else trim_space input)"

text \<open>\<open>strconv.Atoi\<close>: an optional sign, decimal digits, the range of \<open>int\<close> (64 bits).\<close>

definition digits_value :: "str \<Rightarrow> int" where
  "digits_value ds = foldl (\<lambda>n c. 10 * n + (of_char c - 48)) 0 ds"

definition go_atoi :: "str \<Rightarrow> int option" where
  "go_atoi s =
     (let neg = has_prefix s ''-''; ds = (if neg \<or> has_prefix s ''+'' then tl s else s);
          n = (if neg then - digits_value ds else digits_value ds)
      in if ds \<noteq> [] \<and> list_all (in_range 48 57) ds \<and> - (2 ^ 63) \<le> n \<and> n < 2 ^ 63 then Some n else None)"

section \<open>Loading\<close>

definition data_or_empty :: "(str, str) gomap \<Rightarrow> str \<Rightarrow> str" where
  "data_or_empty d k = (case mget d k of None \<Rightarrow> [] | Some v \<Rightarrow> v)"

definition config_int :: "(str, str) gomap \<Rightarrow> str \<Rightarrow> int \<Rightarrow> int" where
  "config_int d k dflt = (case mget d k of None \<Rightarrow> dflt
     | Some v \<Rightarrow> (case go_atoi (trim_space v) of None \<Rightarrow> dflt | Some n \<Rightarrow> n))"

definition config_of_data :: "(str, str) gomap \<Rightarrow> security_config" where
  "config_of_data d = \<lparr>
     cfg_AllowedPrefixes = (case mget d ''allowed-prefixes'' of None \<Rightarrow> [] | Some v \<Rightarrow> parseStringList v),
     cfg_DeniedPrefixes = (case mget d ''denied-prefixes'' of None \<Rightarrow> [] | Some v \<Rightarrow> parseStringList v),
     cfg_RequiredPrefix = (case mget d ''required-prefix'' of None \<Rightarrow> [] | Some v \<Rightarrow> trim_space v),
     cfg_MaxKeyLength = config_int d ''max-key-length'' 253,
     cfg_MaxValueLength = config_int d ''max-value-length'' 65536,
     cfg_AuditEnabled = parseBool (data_or_empty d ''audit-enabled'') True,
     cfg_AuditLevel = parseString (data_or_empty d ''audit-level'') ''info'',
     cfg_CreateSecurityEvents = parseBool (data_or_empty d ''create-security-events'') True\<rparr>"

definition LoadSecurityConfig ::
  "(str \<Rightarrow> goerr + (str, str) gomap) \<Rightarrow> goerr + security_config" where
  "LoadSecurityConfig getConfigMap =
     (case getConfigMap ''annotation-scheduler-security-config'' of
        Inl e \<Rightarrow> Inl (Wrapf ''failed to load security configuration: '' e)
      | Inr data \<Rightarrow>
          (case getConfigMap ''annotation-scheduler-audit-config'' of
             Inl e \<Rightarrow> Inl (Wrapf ''failed to load audit configuration: '' e)
           | Inr _ \<Rightarrow> Inr (config_of_data data)))"

definition validator_of_config :: "security_config \<Rightarrow> annotation_validator" where
  "validator_of_config c = \<lparr>AllowedPrefixes = cfg_AllowedPrefixes c,
     DeniedPrefixes = cfg_DeniedPrefixes c, RequiredPrefix = cfg_RequiredPrefix c,
     MaxKeyLength = cfg_MaxKeyLength c, MaxValueLength = cfg_MaxValueLength c\<rparr>"

definition CreateValidatorFromConfig ::
  "(str \<Rightarrow> goerr + (str, str) gomap) \<Rightarrow> goerr + annotation_validator" where
  "CreateValidatorFromConfig getConfigMap =
     (case LoadSecurityConfig getConfigMap of
        Inl e \<Rightarrow> Inl e
      | Inr c \<Rightarrow> Inr (validator_of_config c))"

text \<open>The watch that the documentation promises: the callback is never called.\<close>

definition WatchConfigChanges :: "(security_config \<Rightarrow> 'w \<Rightarrow> 'w) \<Rightarrow> 'w \<Rightarrow> (goerr + unit) \<times> 'w" where
  "WatchConfigChanges callback w = (Inr (), w)"

text \<open>\<open>cmd/main.go\<close>: the validator of the process, with the defaults if loading fails.\<close>

definition startup_validator :: "(str \<Rightarrow> goerr + (str, str) gomap) \<Rightarrow> annotation_validator" where
  "startup_validator getConfigMap =
     (case CreateValidatorFromConfig getConfigMap of
        Inl e \<Rightarrow> NewAnnotationValidator
      | Inr av \<Rightarrow> av)"

section \<open>Validation of the configuration\<close>

definition validAuditLevels :: "str list" where
  "validAuditLevels = [''debug'', ''info'', ''warn'', ''error'']"

definition ValidateConfiguration :: "security_config \<Rightarrow> goerr + unit" where
  "ValidateConfiguration c =
     and_then (first_err (\<lambda>allowedPrefix. first_err (\<lambda>deniedPrefix.
         check_that (\<not> (has_prefix allowedPrefix deniedPrefix \<or> has_prefix deniedPrefix allowedPrefix))
           (Errorf (''conflicting prefix configuration: allowed '' @ quoted allowedPrefix @
                    '' conflicts with denied '' @ quoted deniedPrefix)))
         (cfg_DeniedPrefixes c)) (cfg_AllowedPrefixes c))
    (and_then (if cfg_RequiredPrefix c \<noteq> []
         then first_err (\<lambda>deniedPrefix. check_that (\<not> has_prefix (cfg_RequiredPrefix c) deniedPrefix)
           (Errorf (''required prefix '' @ quoted (cfg_RequiredPrefix c) @
                    '' conflicts with denied prefix '' @ quoted deniedPrefix)))
           (cfg_DeniedPrefixes c)
         else Inr ())
    (and_then (check_that (\<not> (cfg_MaxKeyLength c \<le> 0 \<or> cfg_MaxKeyLength c > 253))
         (Errorf (''invalid max key length: '' @ show_int (cfg_MaxKeyLength c) @ '' (must be 1-253)'')))
    (and_then (check_that (\<not> (cfg_MaxValueLength c \<le> 0 \<or> cfg_MaxValueLength c > 1048576))
         (Errorf (''invalid max value length: '' @ show_int (cfg_MaxValueLength c) @
                  '' (must be 1-1048576)'')))
    (check_that (cfg_AuditLevel c \<in> set validAuditLevels)
         (Errorf (''invalid audit level '' @ quoted (cfg_AuditLevel c) @ '' (must be one of: '' @
                  join_with '', '' validAuditLevels @ '')''))))))"

lemma ValidateConfiguration_ok:
  "ValidateConfiguration c = Inr () \<longleftrightarrow>
     (\<forall>a\<in>set (cfg_AllowedPrefixes c). \<forall>d\<in>set (cfg_DeniedPrefixes c). \<not> prefix d a \<and> \<not> prefix a d) \<and>
     (cfg_RequiredPrefix c \<noteq> [] \<longrightarrow> (\<forall>d\<in>set (cfg_DeniedPrefixes c). \<not> prefix d (cfg_RequiredPrefix c))) \<and>
     0 < cfg_MaxKeyLength c \<and> cfg_MaxKeyLength c \<le> 253 \<and>
     0 < cfg_MaxValueLength c \<and> cfg_MaxValueLength c \<le> 1048576 \<and>
     cfg_AuditLevel c \<in> set validAuditLevels"
  by (auto simp: ValidateConfiguration_def first_err_ok has_prefix_def)

lemma parseStringList_lines:
  "x \<in> set (parseStringList s) \<Longrightarrow> x \<noteq> [] \<and> hd x \<noteq> CHR ''#''"
  by (cases x) (auto simp: parseStringList_def has_prefix_def split: if_splits)

section \<open>Properties\<close>

text \<open>
  A configuration that passes its validation never both allows and denies a key: no key
  with an allowed prefix is a system annotation of the validator made of it.
\<close>

theorem valid_config_no_conflict:
  assumes "ValidateConfiguration c = Inr ()" and "a \<in> set (cfg_AllowedPrefixes c)"
    and "has_prefix key a"
  shows "\<not> IsSystemAnnotation (validator_of_config c) key"
proof
  assume "IsSystemAnnotation (validator_of_config c) key"
  then obtain d where d: "d \<in> set (cfg_DeniedPrefixes c)" "prefix d key"
    by (auto simp: IsSystemAnnotation_def validator_of_config_def list_ex_iff has_prefix_def)
  then have "prefix d a \<or> prefix a d"
    using assms(3) prefix_same_cases by (auto simp: has_prefix_def)
  then show False using assms(1,2) d(1) by (auto simp: ValidateConfiguration_ok)
qed

definition sample_config :: security_config where
  "sample_config = config_of_data
     [(''allowed-prefixes'', ''example.com/''), (''denied-prefixes'', ''kubernetes.io/'')]"

lemma sample_config_eq:
  "sample_config = \<lparr>cfg_AllowedPrefixes = [''example.com/''],
     cfg_DeniedPrefixes = [''kubernetes.io/''], cfg_RequiredPrefix = [], cfg_MaxKeyLength = 253,
     cfg_MaxValueLength = 65536, cfg_AuditEnabled = True, cfg_AuditLevel = ''info'',
     cfg_CreateSecurityEvents = True\<rparr>"
  by (simp add: sample_config_def config_of_data_def config_int_def data_or_empty_def
      parseBool_def parseString_def mget_Cons parseStringList_def trim_space_all_graphic
      graphic_def has_prefix_def)

theorem valid_config_no_conflict_witness:
  "\<not> IsSystemAnnotation (validator_of_config sample_config) ''example.com/x''"
  by (rule valid_config_no_conflict[where a = "''example.com/''"])
     (simp_all add: sample_config_eq ValidateConfiguration_ok validAuditLevels_def has_prefix_def)

text \<open>
  The validator of the process is the default one exactly if one of the two ConfigMaps
  cannot be read.  A security ConfigMap without the three prefix entries gives a validator
  that denies no prefix: it accepts every key of the DNS grammar up to the length bound, those
  of the Kubernetes system included.
\<close>

theorem startup_validator_policy:
  "(\<exists>e. getConfigMap ''annotation-scheduler-security-config'' = Inl e \<or>
        getConfigMap ''annotation-scheduler-audit-config'' = Inl e) \<and>
     startup_validator getConfigMap = NewAnnotationValidator \<or>
   (\<exists>d a. getConfigMap ''annotation-scheduler-security-config'' = Inr d \<and>
      getConfigMap ''annotation-scheduler-audit-config'' = Inr a \<and>
      startup_validator getConfigMap = validator_of_config (config_of_data d) \<and>
      (mhas d ''allowed-prefixes'' \<or> mhas d ''denied-prefixes'' \<or> mhas d ''required-prefix'' \<or>
       (is_ok (ValidateAnnotationKey (startup_validator getConfigMap) key) \<longleftrightarrow>
          dns_key key \<and> int (length key) \<le> config_int d ''max-key-length'' 253)))"
proof (cases "getConfigMap ''annotation-scheduler-security-config''")
  case (Inl e)
  then show ?thesis
    by (auto simp: startup_validator_def CreateValidatorFromConfig_def LoadSecurityConfig_def)
next
  case d: (Inr d)
  show ?thesis
  proof (cases "getConfigMap ''annotation-scheduler-audit-config''")
    case (Inl e)
    with d show ?thesis
      by (auto simp: startup_validator_def CreateValidatorFromConfig_def LoadSecurityConfig_def)
  next
    case (Inr a)
    with d have av: "startup_validator getConfigMap = validator_of_config (config_of_data d)"
      by (simp add: startup_validator_def CreateValidatorFromConfig_def LoadSecurityConfig_def)
    have ok: "is_ok r \<longleftrightarrow> r = Inr ()" for r :: "goerr + unit" by (cases r) auto
    have "is_ok (ValidateAnnotationKey (startup_validator getConfigMap) key) \<longleftrightarrow>
          dns_key key \<and> int (length key) \<le> config_int d ''max-key-length'' 253"
      if "\<not> mhas d ''allowed-prefixes''" "\<not> mhas d ''denied-prefixes''" "\<not> mhas d ''required-prefix''"
      using that dns_key_chars[of key]
      by (auto simp: ok ValidateAnnotationKey_ok av validator_of_config_def config_of_data_def
          mhas_iff IsSystemAnnotation_def)
    with d Inr av show ?thesis by blast
  qed
qed

end
