(* ===== verification/Manager_Setup.thy ===== *)
theory Manager_Setup
  imports Rule_Reconciler Security_Config
begin

text \<open>
  How the process is put together: \<open>SetupWithManager\<close> and \<open>StartPerformanceOptimizations\<close> of the
  controller, and the part of \<open>cmd/main.go\<close> that builds the reconciler and its readiness check.
  The rest of \<open>main\<close> is in \<open>Process_Start\<close>.
\<close>

section \<open>The fields of the reconciler\<close>

text \<open>\<open>None\<close> is nil; the recovery manager is its error handler.\<close>

record 'l reconciler_fields =
  rf_Scheduler :: "time_scheduler option"
  rf_ResourceManager :: "'l resource_manager option"
  rf_Metrics :: "execution_metrics option"
  rf_ErrorHandler :: "retry_config option"
  rf_RecoveryManager :: "retry_config option"
  rf_SecurityValidator :: "annotation_validator option"
  rf_AuditLogger :: bool

text \<open>The goroutines that are started, with the intervals of their tickers.\<close>

datatype routine = SchedulerStart | MetricsLogging | StateRecovery
  | CacheCleanup duration | LimiterCleanup duration duration | OrphanCleanup

definition or_default :: "'a option \<Rightarrow> 'a \<Rightarrow> 'a option" where
  "or_default p x = (case p of None \<Rightarrow> Some x | Some y \<Rightarrow> Some y)"

definition SetupWithManager :: "'l limiter_lib \<Rightarrow> 'l reconciler_fields \<Rightarrow> 'l reconciler_fields \<times> routine list" where
  "SetupWithManager lib f =
     (let f1 = f\<lparr>rf_ErrorHandler := or_default (rf_ErrorHandler f) (NewErrorHandler (Some DefaultRetryConfig))\<rparr>;
          f2 = f1\<lparr>rf_RecoveryManager := or_default (rf_RecoveryManager f1) (the (rf_ErrorHandler f1))\<rparr>;
          f3 = f2\<lparr>rf_ResourceManager := or_default (rf_ResourceManager f2) (NewResourceManager lib)\<rparr>;
          f4 = f3\<lparr>rf_Metrics := or_default (rf_Metrics f3) no_executions\<rparr>
      in case rf_Scheduler f4 of
           None \<Rightarrow> (f4\<lparr>rf_Scheduler := Some NewTimeScheduler\<rparr>, [SchedulerStart, MetricsLogging, StateRecovery])
         | Some s \<Rightarrow> (f4, []))"

definition StartPerformanceOptimizations :: "'l reconciler_fields \<Rightarrow> routine list" where
  "StartPerformanceOptimizations f =
     (case rf_ResourceManager f of
        None \<Rightarrow> []
      | Some rm \<Rightarrow>
          (if rm_Cache rm \<noteq> None then [CacheCleanup (10 * time_minute)] else []) @
          (if rm_RateLimiter rm \<noteq> None then [LimiterCleanup (15 * time_minute) (1 * time_hour)] else [])) @
     [OrphanCleanup]"

section \<open>The process\<close>

text \<open>The reconciler that \<open>main\<close> builds, with the validator that it loaded.\<close>

definition main_fields :: "'l limiter_lib \<Rightarrow> annotation_validator \<Rightarrow> 'l reconciler_fields" where
  "main_fields lib securityValidator =
     (let errorHandler = NewErrorHandler None in
      \<lparr>rf_Scheduler = Some NewTimeScheduler, rf_ResourceManager = Some (NewResourceManager lib),
       rf_Metrics = Some no_executions, rf_ErrorHandler = Some errorHandler,
       rf_RecoveryManager = Some errorHandler, rf_SecurityValidator = Some securityValidator,
       rf_AuditLogger = True\<rparr>)"

definition readinessCheck :: "'l reconciler_fields \<Rightarrow> goerr + unit" where
  "readinessCheck f =
     and_then (check_that (rf_Scheduler f \<noteq> None) (Errorf ''scheduler not initialized''))
    (and_then (check_that (rf_ResourceManager f \<noteq> None) (Errorf ''resource manager not initialized''))
      (check_that (rf_SecurityValidator f \<noteq> None) (Errorf ''security validator not initialized'')))"

text \<open>
  The routines that run after \<open>main\<close> has called \<open>SetupWithManager\<close> and
  \<open>StartPerformanceOptimizations\<close>, and the reconciler and state it starts with.
\<close>

definition main_routines :: "'l limiter_lib \<Rightarrow> annotation_validator \<Rightarrow> routine list" where
  "main_routines lib securityValidator =
     (case SetupWithManager lib (main_fields lib securityValidator) of
        (f, started) \<Rightarrow> started @ StartPerformanceOptimizations f)"

definition fields_reconciler :: "'l reconciler_fields \<Rightarrow> reconciler" where
  "fields_reconciler f = \<lparr>rec_ErrorHandler = rf_ErrorHandler f, rec_RecoveryManager = rf_RecoveryManager f,
     rec_AuditLogger = rf_AuditLogger f, rec_SecurityValidator = rf_SecurityValidator f\<rparr>"

definition main_reconciler :: "annotation_validator \<Rightarrow> reconciler" where
  "main_reconciler securityValidator = \<lparr>rec_ErrorHandler = Some DefaultRetryConfig,
     rec_RecoveryManager = Some DefaultRetryConfig, rec_AuditLogger = True,
     rec_SecurityValidator = Some securityValidator\<rparr>"

definition main_controller :: "'l limiter_lib \<Rightarrow> 'l controller" where
  "main_controller lib = \<lparr>ct_Scheduler = NewTimeScheduler, ct_ResourceManager = NewResourceManager lib,
     ct_Metrics = Some no_executions\<rparr>"

definition main_executor :: "annotation_validator \<Rightarrow> task_executor" where
  "main_executor securityValidator = SetReconciler (main_reconciler securityValidator) (NewTaskExecutor None)"

section \<open>Lemmas\<close>

lemma main_setup:
  "SetupWithManager lib (main_fields lib sv) = (main_fields lib sv, [])"
  by (simp add: SetupWithManager_def main_fields_def or_default_def Let_def)

lemma main_fields_reconciler: "fields_reconciler (main_fields lib sv) = main_reconciler sv"
  by (simp add: fields_reconciler_def main_fields_def main_reconciler_def NewErrorHandler_def)

lemma main_executor_handler [simp]:
  "te_errorHandler (main_executor sv) = Some DefaultRetryConfig"
  "te_reconciler (main_executor sv) = Some (main_reconciler sv)"
  by (simp_all add: te_errorHandler_def main_executor_def SetReconciler_def NewTaskExecutor_def main_reconciler_def)

lemma main_reconciler_sel [simp]:
  "rec_ErrorHandler (main_reconciler sv) = Some DefaultRetryConfig"
  "rec_RecoveryManager (main_reconciler sv) = Some DefaultRetryConfig"
  "rec_AuditLogger (main_reconciler sv)"
  "rec_SecurityValidator (main_reconciler sv) = Some sv"
  by (simp_all add: main_reconciler_def)

end
