(* ===== verification/State_Recovery.thy ===== *)
theory State_Recovery
  imports Error_Handler Cluster_Objects Go_Time
begin

text \<open>
  \<open>internal/errors/recovery.go\<close>: the pass over all rules after a restart of the controller.  A
  live rule gets a condition \<open>Recovered\<close>, is checked, and gets a condition \<open>MissedExecution\<close> if
  its start time went by without an execution.  The API client and the pauses between retries
  are parameters, as for the error handler.
\<close>

section \<open>Retries\<close>

text \<open>The manager is its error handler.  The context, the clock and the client are one record.\<close>

record 'w recovery_env =
  rv_api :: "'w api"
  rv_pause :: "duration \<Rightarrow> 'w \<Rightarrow> goerr option \<times> 'w"

abbreviation rv_now :: "'w recovery_env \<Rightarrow> 'w \<Rightarrow> gotime" where "rv_now env w \<equiv> api_now (rv_api env) w"

definition rv_clock :: "'w recovery_env \<Rightarrow> 's \<times> 'w \<Rightarrow> 64 word" where
  "rv_clock env = (\<lambda>(s, w). word_of_int (rv_now env w))"

definition rv_wait :: "'w recovery_env \<Rightarrow> ('s \<times> 'w) pause" where
  "rv_wait env = (\<lambda>d (s, w). case rv_pause env d w of (e, w1) \<Rightarrow> (e, s, w1))"

section \<open>The rules\<close>

definition list_rules_op :: "'w recovery_env \<Rightarrow> (rule list \<times> 'w) operation" where
  "list_rules_op env = (\<lambda>(rules, w). case api_listRules (rv_api env) w of
     (Inl e, w1) \<Rightarrow> (Inl (Wrapf ''failed to list AnnotationScheduleRules: '' e), rules, w1)
   | (Inr rs, w1) \<Rightarrow> (Inr (), rs, w1))"

definition getAllRules :: "'w recovery_env \<Rightarrow> retry_config \<Rightarrow> 'w \<Rightarrow> (goerr + rule list) \<times> 'w" where
  "getAllRules env eh w =
     (case RetryWithBackoff eh (list_rules_op env) (rv_wait env) (rv_clock env)
             ''list-annotation-schedule-rules'' ([], w) of
        (Inl e, _, w1) \<Rightarrow> (Inl e, w1)
      | (Inr _, rules, w1) \<Rightarrow> (Inr rules, w1))"

section \<open>Conditions\<close>

text \<open>The loop that replaces the first condition of the type, or appends the new one.\<close>

fun replace_condition :: "condition \<Rightarrow> condition list \<Rightarrow> condition list" where
  "replace_condition c [] = [c]"
| "replace_condition c (x # xs) =
     (if cond_Type x = cond_Type c then c # xs else x # replace_condition c xs)"

definition with_condition :: "condition \<Rightarrow> rule \<Rightarrow> rule" where
  "with_condition c r = r\<lparr>rule_Status := (rule_Status r)
     \<lparr>st_Conditions := replace_condition c (st_Conditions (rule_Status r))\<rparr>\<rparr>"

text \<open>The closure of both updates: fetch the rule, put the condition, write the status.\<close>

definition put_condition_op :: "'w recovery_env \<Rightarrow> nsname \<Rightarrow> (gotime \<Rightarrow> condition) \<Rightarrow> (unit \<times> 'w) operation" where
  "put_condition_op env name c = (\<lambda>(_, w). case api_getRule (rv_api env) name w of
     (Inl e, w1) \<Rightarrow> (Inl e, (), w1)
   | (Inr latestRule, w1) \<Rightarrow>
       (case api_updateStatus (rv_api env) (with_condition (c (rv_now env w1)) latestRule) w1 of
          (Inl e, w2) \<Rightarrow> (Inl e, (), w2) | (Inr _, w2) \<Rightarrow> (Inr (), (), w2)))"

definition retry_unless_gone :: "retry_config \<Rightarrow> goerr \<Rightarrow> int \<Rightarrow> bool" where
  "retry_unless_gone eh err attempt =
     (if is_reason NotFound err then False else ShouldRetry eh (Some err) attempt)"

definition updateRuleStatusForRecovery :: "'w recovery_env \<Rightarrow> retry_config \<Rightarrow> rule \<Rightarrow> 'w \<Rightarrow>
    (goerr + unit) \<times> 'w" where
  "updateRuleStatusForRecovery env eh r w =
     (case RetryWithBackoffAndCondition eh
             (put_condition_op env (rule_Namespace r, rule_Name r)
                (\<lambda>now. \<lparr>cond_Type = ''Recovered'', cond_Status = ConditionTrue,
                   cond_Reason = ''ControllerRestart'',
                   cond_Message = ''Rule state recovered after controller restart'',
                   cond_LastTransitionTime = now\<rparr>))
             (retry_unless_gone eh) (rv_wait env) (rv_clock env)
             (''update-rule-status-recovery-'' @ rule_Namespace r @ ''-'' @ rule_Name r) ((), w) of
        (res, _, w1) \<Rightarrow> (res, w1))"

definition updateRuleStatusForMissedExecution :: "'w recovery_env \<Rightarrow> retry_config \<Rightarrow> rule \<Rightarrow> gotime \<Rightarrow> 'w \<Rightarrow>
    (goerr + unit) \<times> 'w" where
  "updateRuleStatusForMissedExecution env eh r missedTime w =
     (case RetryWithBackoffAndCondition eh
             (put_condition_op env (rule_Namespace r, rule_Name r)
                (\<lambda>now. \<lparr>cond_Type = ''MissedExecution'', cond_Status = ConditionTrue,
                   cond_Reason = ''ControllerDowntime'',
                   cond_Message = ''Missed execution at '' @ format_RFC3339 missedTime @
                     '' due to controller downtime'',
                   cond_LastTransitionTime = now\<rparr>))
             (retry_unless_gone eh) (rv_wait env) (rv_clock env)
             (''update-rule-status-missed-execution-'' @ rule_Namespace r @ ''-'' @ rule_Name r) ((), w) of
        (res, _, w1) \<Rightarrow> (res, w1))"

section \<open>Checks\<close>

definition validateRuleForRecovery :: "rule \<Rightarrow> goerr + unit" where
  "validateRuleForRecovery r =
     (let sched = spec_Schedule (rule_Spec r)
      in and_then (check_that (sc_Type sched \<noteq> []) (Errorf ''schedule type is empty''))
        (and_then (check_that (\<not> (sc_Type sched \<noteq> ''datetime'' \<and> sc_Type sched \<noteq> ''cron''))
             (Errorf (''invalid schedule type: '' @ sc_Type sched)))
        (and_then (check_that (length (spec_Annotations (rule_Spec r)) \<noteq> 0)
             (Errorf ''no annotations specified''))
        (and_then (check_that (length (spec_TargetResources (rule_Spec r)) \<noteq> 0)
             (Errorf ''no target resources specified''))
        (if sc_Type sched = ''datetime''
         then check_that (\<not> (sc_StartTime sched = None \<and> sc_EndTime sched = None))
                (Errorf ''datetime schedule must specify at least startTime or endTime'')
         else if sc_Type sched = ''cron''
         then and_then (check_that (sc_CronExpression sched \<noteq> [])
                  (Errorf ''cron schedule must specify cronExpression''))
                (check_that (sc_Action sched \<noteq> []) (Errorf ''cron schedule must specify action''))
         else Inr ())))))"

definition checkForMissedExecutions :: "'w recovery_env \<Rightarrow> retry_config \<Rightarrow> rule \<Rightarrow> 'w \<Rightarrow>
    (goerr + unit) \<times> 'w" where
  "checkForMissedExecutions env eh r w =
     (let sched = spec_Schedule (rule_Spec r) in
      case sc_StartTime sched of
        None \<Rightarrow> (Inr (), w)
      | Some startTime \<Rightarrow>
          if sc_Type sched \<noteq> ''datetime'' then (Inr (), w)
          else if startTime < rv_now env w \<and> st_LastExecutionTime (rule_Status r) = None
          then updateRuleStatusForMissedExecution env eh r startTime w
          else (Inr (), w))"

section \<open>Recovery\<close>

definition recoverRule :: "'w recovery_env \<Rightarrow> retry_config \<Rightarrow> rule \<Rightarrow> 'w \<Rightarrow> (goerr + unit) \<times> 'w" where
  "recoverRule env eh r w =
     (if rule_DeletionTimestamp r \<noteq> None then (Inr (), w)
      else case updateRuleStatusForRecovery env eh r w of
        (Inl e, w1) \<Rightarrow> (Inl (Wrapf ''failed to update rule status for recovery: '' e), w1)
      | (Inr _, w1) \<Rightarrow>
          (case validateRuleForRecovery r of
             Inl e \<Rightarrow> (Inl (Wrapf ''rule validation failed during recovery: '' e), w1)
           | Inr _ \<Rightarrow> (Inr (), snd (checkForMissedExecutions env eh r w1))))"

record recovery_result =
  rr_RulesProcessed :: nat
  rr_RulesRecovered :: nat
  rr_RulesFailed :: nat
  rr_RecoveryDuration :: duration
  rr_Errors :: "goerr list"

definition empty_recovery :: recovery_result where
  "empty_recovery = \<lparr>rr_RulesProcessed = 0, rr_RulesRecovered = 0, rr_RulesFailed = 0,
     rr_RecoveryDuration = 0, rr_Errors = []\<rparr>"

fun recover_rules :: "'w recovery_env \<Rightarrow> retry_config \<Rightarrow> rule list \<Rightarrow> recovery_result \<Rightarrow> 'w \<Rightarrow>
    recovery_result \<times> 'w" where
  "recover_rules env eh [] result w = (result, w)"
| "recover_rules env eh (r # rs) result w =
     (case recoverRule env eh r w of
        (Inl e, w1) \<Rightarrow> recover_rules env eh rs
          (result\<lparr>rr_RulesFailed := rr_RulesFailed result + 1,
             rr_Errors := rr_Errors result @
               [Wrapf (''failed to recover rule '' @ rule_Namespace r @ ''/'' @ rule_Name r @ '': '') e]\<rparr>) w1
      | (Inr _, w1) \<Rightarrow> recover_rules env eh rs
          (result\<lparr>rr_RulesRecovered := rr_RulesRecovered result + 1\<rparr>) w1)"

text \<open>The result is returned beside the error, as in the source.\<close>

definition RecoverControllerState :: "'w recovery_env \<Rightarrow> retry_config \<Rightarrow> 'w \<Rightarrow>
    (recovery_result \<times> goerr option) \<times> 'w" where
  "RecoverControllerState env eh w =
     (let startTime = rv_now env w in
      case getAllRules env eh w of
        (Inl e, w1) \<Rightarrow> ((empty_recovery, Some (Wrapf ''failed to get rules for recovery: '' e)), w1)
      | (Inr rules, w1) \<Rightarrow>
          (case recover_rules env eh rules (empty_recovery\<lparr>rr_RulesProcessed := length rules\<rparr>) w1 of
             (result, w2) \<Rightarrow>
               ((result\<lparr>rr_RecoveryDuration := rv_now env w2 - startTime\<rparr>, None), w2)))"

section \<open>Panics\<close>

text \<open>
  A deferred \<open>RecoverFromPanic\<close> ends a panic; the function around it then returns the zero value
  of its result, \<open>zero\<close>.  The result of \<open>SafeExecute\<close> has no name, so it is the nil error.
\<close>

definition RecoverFromPanic :: "'a \<Rightarrow> 'a may_panic \<Rightarrow> 'a" where
  "RecoverFromPanic zero r = (case r of Ret x \<Rightarrow> x | Panic m \<Rightarrow> zero)"

definition SafeExecute :: "('w \<Rightarrow> (goerr + unit) may_panic \<times> 'w) \<Rightarrow> 'w \<Rightarrow> (goerr + unit) \<times> 'w" where
  "SafeExecute fn w = (case fn w of (r, w1) \<Rightarrow> (RecoverFromPanic (Inr ()) r, w1))"

definition SafeExecuteWithContext :: "('c \<Rightarrow> 'w \<Rightarrow> (goerr + unit) may_panic \<times> 'w) \<Rightarrow> 'c \<Rightarrow> 'w \<Rightarrow>
    (goerr + unit) \<times> 'w" where
  "SafeExecuteWithContext fn ctx w = (case fn ctx w of (r, w1) \<Rightarrow> (RecoverFromPanic (Inr ()) r, w1))"

section \<open>Lemmas\<close>

lemma recover_rules_counts:
  assumes "recover_rules env eh rs result w = (result', w')"
  shows "rr_RulesRecovered result' + rr_RulesFailed result' =
      rr_RulesRecovered result + rr_RulesFailed result + length rs"
    and "length (rr_Errors result') + rr_RulesFailed result =
      length (rr_Errors result) + rr_RulesFailed result'"
    and "rr_RulesProcessed result' = rr_RulesProcessed result"
proof -
  have "rr_RulesRecovered result' + rr_RulesFailed result' =
      rr_RulesRecovered result + rr_RulesFailed result + length rs \<and>
    length (rr_Errors result') + rr_RulesFailed result =
      length (rr_Errors result) + rr_RulesFailed result' \<and>
    rr_RulesProcessed result' = rr_RulesProcessed result"
    using assms
  proof (induction rs arbitrary: result w)
    case (Cons r rs)
    obtain res w1 where r: "recoverRule env eh r w = (res, w1)" by fastforce
    show ?case
    proof (cases res)
      case (Inl e)
      show ?thesis
        using Cons.prems r Inl
        by (simp only: recover_rules.simps prod.case sum.case) (drule Cons.IH, simp)
    next
      case (Inr u)
      show ?thesis
        using Cons.prems r Inr
        by (simp only: recover_rules.simps prod.case sum.case) (drule Cons.IH, simp)
    qed
  qed simp
  then show "rr_RulesRecovered result' + rr_RulesFailed result' =
      rr_RulesRecovered result + rr_RulesFailed result + length rs"
    and "length (rr_Errors result') + rr_RulesFailed result =
      length (rr_Errors result) + rr_RulesFailed result'"
    and "rr_RulesProcessed result' = rr_RulesProcessed result" by simp_all
qed

lemma recover_without_annotations:
  assumes "rule_DeletionTimestamp r = None" and "spec_Annotations (rule_Spec r) = []"
  shows "\<exists>e w'. recoverRule env eh r w = (Inl e, w')"
proof -
  have "\<exists>e. validateRuleForRecovery r = Inl e"
    using assms(2) by (auto simp: validateRuleForRecovery_def and_then_def check_that_def Let_def)
  then show ?thesis
    using assms(1) by (auto simp: recoverRule_def split: prod.splits sum.splits)
qed

section \<open>Properties\<close>


text \<open>
  A function that panics under \<open>SafeExecute\<close> is reported as a success: the deferred recovery
  ends the panic and the result is the nil error.  Otherwise the result of the function is kept.
\<close>

lemma safe_execute_hides_panics:
  "(case fn w of
      (Ret r, w1) \<Rightarrow> SafeExecute fn w = (r, w1)
    | (Panic m, w1) \<Rightarrow> SafeExecute fn w = (Inr (), w1)) \<and>
   SafeExecuteWithContext (\<lambda>c. fn) ctx w = SafeExecute fn w"
  by (simp add: SafeExecute_def SafeExecuteWithContext_def RecoverFromPanic_def split: prod.splits may_panic.splits)

end
