(* ===== verification/Resource_Properties.thy ===== *)
theory Resource_Properties
  imports Annotation_Groups
begin

text \<open>
  Properties of the resource manager: what reaches the API server, what is taken away again,
  who owns which annotation, and what the query cache does to the answers.
\<close>

section \<open>The API server\<close>

text \<open>
  The documented behaviour of the API server towards updates.  Optimistic concurrency: an update
  must carry the version of the stored object, otherwise it is refused as a conflict; a stored
  update gets a new version.  Validation: an update whose annotations the server does not accept
  is refused with another error, and what is stored was accepted.  \<open>objs\<close> reads the stored
  objects out of a state of the world, \<open>accepts\<close> is the validation of annotations.
\<close>

definition updates :: "(resource \<Rightarrow> bool) \<Rightarrow> ('w \<Rightarrow> object_key \<Rightarrow> resource option) \<Rightarrow> 'w api \<Rightarrow>
    resource \<Rightarrow> resource \<Rightarrow> 'w \<Rightarrow> bool" where
  "updates acceptable objs api r cur w \<longleftrightarrow>
     (if res_ResourceVersion r \<noteq> res_ResourceVersion cur
      then \<exists>e w'. api_update api r w = (Inl e, w') \<and> is_reason Conflict e \<and> objs w' = objs w
      else if acceptable r
      then \<exists>v w'. v \<noteq> res_ResourceVersion cur \<and>
        api_update api r w = (Inr (r\<lparr>res_ResourceVersion := v\<rparr>), w') \<and>
        objs w' = (objs w)(object_key r \<mapsto> r\<lparr>res_ResourceVersion := v\<rparr>)
      else \<exists>e w'. api_update api r w = (Inl e, w') \<and> \<not> is_reason Conflict e \<and> objs w' = objs w)"

definition optimistic_store :: "((str, str) gomap \<Rightarrow> bool) \<Rightarrow> ('w \<Rightarrow> object_key \<Rightarrow> resource option) \<Rightarrow>
    'w api \<Rightarrow> bool" where
  "optimistic_store accepts objs api \<longleftrightarrow>
     (\<forall>d w. objs (api_sleep api d w) = objs w) \<and>
     (\<forall>w k r. objs w k = Some r \<longrightarrow> object_key r = k \<and> accepts (or_empty (res_Annotations r))) \<and>
     (\<forall>w k r. objs w k = Some r \<longrightarrow> (\<exists>w'. api_get api k w = (Inr r, w') \<and> objs w' = objs w)) \<and>
     (\<forall>w r cur. objs w (object_key r) = Some cur \<longrightarrow>
        updates (\<lambda>r. accepts (or_empty (res_Annotations r))) objs api r cur w)"

lemma optimistic_store_cong:
  assumes "api_sleep a = api_sleep b" and "api_get a = api_get b" and "api_update a = api_update b"
  shows "optimistic_store accepts objs a = optimistic_store accepts objs b"
  unfolding optimistic_store_def updates_def assms ..

lemma os_sleep: "optimistic_store accepts objs api \<Longrightarrow> objs (api_sleep api d w) = objs w"
  unfolding optimistic_store_def by blast

lemma os_key: "optimistic_store accepts objs api \<Longrightarrow> objs w k = Some r \<Longrightarrow> object_key r = k"
  unfolding optimistic_store_def by blast

lemma os_accepted:
  "optimistic_store accepts objs api \<Longrightarrow> objs w k = Some r \<Longrightarrow> accepts (or_empty (res_Annotations r))"
  unfolding optimistic_store_def by blast

lemma os_get:
  assumes "optimistic_store accepts objs api" and "objs w k = Some r"
  obtains w' where "api_get api k w = (Inr r, w')" "objs w' = objs w"
  using assms unfolding optimistic_store_def by blast

lemma os_updates:
  "optimistic_store accepts objs api \<Longrightarrow> objs w (object_key r) = Some cur \<Longrightarrow>
   updates (\<lambda>r. accepts (or_empty (res_Annotations r))) objs api r cur w"
  unfolding optimistic_store_def by blast

lemma os_update:
  assumes "optimistic_store accepts objs api" and "objs w (object_key r) = Some cur"
    and "res_ResourceVersion r = res_ResourceVersion cur" and "accepts (or_empty (res_Annotations r))"
  obtains v w' where "v \<noteq> res_ResourceVersion cur"
    "api_update api r w = (Inr (r\<lparr>res_ResourceVersion := v\<rparr>), w')"
    "objs w' = (objs w)(object_key r \<mapsto> r\<lparr>res_ResourceVersion := v\<rparr>)"
  using os_updates[OF assms(1,2)] assms(3,4) that unfolding updates_def by auto

lemma os_conflict:
  assumes "optimistic_store accepts objs api" and "objs w (object_key r) = Some cur"
    and "res_ResourceVersion r \<noteq> res_ResourceVersion cur"
  obtains e w' where "api_update api r w = (Inl e, w')" "is_reason Conflict e" "objs w' = objs w"
  using os_updates[OF assms(1,2)] assms(3) that unfolding updates_def by auto

lemma os_refused:
  assumes "optimistic_store accepts objs api" and "objs w (object_key r) = Some cur"
    and "\<not> accepts (or_empty (res_Annotations r))"
  obtains e w' where "api_update api r w = (Inl e, w')" "objs w' = objs w"
    "is_reason Conflict e \<longleftrightarrow> res_ResourceVersion r \<noteq> res_ResourceVersion cur"
  using os_updates[OF assms(1,2)] assms(3) that
  by (cases "res_ResourceVersion r = res_ResourceVersion cur") (auto simp: updates_def)

section \<open>The update loop\<close>

lemma update_loop_current:
  assumes "optimistic_store accepts objs api" and "objs w (object_key r) = Some cur"
    and "res_ResourceVersion r = res_ResourceVersion cur" and "accepts (or_empty (res_Annotations r))"
  obtains v w' where "update_loop api reapply fail ex key (Suc n) r w = (Inr (), w')"
    "v \<noteq> res_ResourceVersion cur"
    "objs w' = (objs w)(object_key r \<mapsto> r\<lparr>res_ResourceVersion := v\<rparr>)"
proof -
  obtain v w' where "v \<noteq> res_ResourceVersion cur"
    "api_update api r w = (Inr (r\<lparr>res_ResourceVersion := v\<rparr>), w')"
    "objs w' = (objs w)(object_key r \<mapsto> r\<lparr>res_ResourceVersion := v\<rparr>)"
    by (rule os_update[OF assms])
  then show thesis by (intro that[of w' v]) simp_all
qed

text \<open>With a stale copy the first attempt fails and the second one stores the fetched copy.\<close>

lemma update_loop_stale:
  assumes os: "optimistic_store accepts objs api" and cur: "objs w (object_key r) = Some cur"
    and stale: "res_ResourceVersion r \<noteq> res_ResourceVersion cur"
    and re: "object_key (reapply cur) = object_key cur"
      "res_ResourceVersion (reapply cur) = res_ResourceVersion cur"
      "accepts (or_empty (res_Annotations (reapply cur)))"
  obtains v w' where "update_loop api reapply fail ex (object_key r) (Suc (Suc n)) r w = (Inr (), w')"
    "v \<noteq> res_ResourceVersion cur"
    "objs w' = (objs w)(object_key r \<mapsto> (reapply cur)\<lparr>res_ResourceVersion := v\<rparr>)"
proof -
  have key: "object_key cur = object_key r" using os_key[OF os cur] .
  obtain e w1 where u: "api_update api r w = (Inl e, w1)" "is_reason Conflict e" "objs w1 = objs w"
    by (rule os_conflict[OF os cur stale])
  then have "objs w1 (object_key r) = Some cur" using cur by simp
  from os_get[OF os this] obtain w2 where g: "api_get api (object_key r) w1 = (Inr cur, w2)" "objs w2 = objs w"
    using u(3) by metis
  let ?w3 = "api_sleep api (int (maxUpdateRetries - Suc n) * 100 * time_millisecond) w2"
  have o3: "objs ?w3 = objs w" using os_sleep[OF os] g(2) by simp
  then have "objs ?w3 (object_key (reapply cur)) = Some cur" using re(1) key cur by simp
  from update_loop_current[OF os this re(2,3)] obtain v w' where
    "update_loop api reapply fail ex (object_key r) (Suc n) (reapply cur) ?w3 = (Inr (), w')"
    "v \<noteq> res_ResourceVersion cur"
    "objs w' = (objs ?w3)(object_key (reapply cur) \<mapsto> (reapply cur)\<lparr>res_ResourceVersion := v\<rparr>)" by metis
  then show thesis using u(1,2) g(1) o3 re(1) key by (intro that[of w' v]) simp_all
qed

lemma set_annotations_key [simp]:
  "object_key (set_annotations m r) = object_key r"
  "res_ResourceVersion (set_annotations m r) = res_ResourceVersion r"
  "res_Annotations (set_annotations m r) = Some m"
  by (simp_all add: set_annotations_def object_key_def)

lemma or_empty_simps [simp]: "or_empty None = []" "or_empty (Some m) = m"
  by (simp_all add: or_empty_def)

text \<open>
  A copy with the version of the stored object is the stored object: the copies the manager
  works on were read from the server.
\<close>

definition read_from :: "resource \<Rightarrow> resource \<Rightarrow> bool" where
  "read_from r cur \<longleftrightarrow> (res_ResourceVersion r = res_ResourceVersion cur \<longrightarrow> r = cur)"

lemma apply_stores:
  assumes os: "optimistic_store accepts objs api" and cur: "objs w (object_key r) = Some cur" and "read_from r cur"
    and acc: "accepts (write_annotations annotations ruleID (or_empty (res_Annotations cur)))"
  obtains v w' where "applyAnnotationsToResource api r annotations ruleID w = (Inr (), w')"
    "objs w' = (objs w)(object_key r \<mapsto>
       (set_annotations (write_annotations annotations ruleID (or_empty (res_Annotations cur))) cur)
         \<lparr>res_ResourceVersion := v\<rparr>)"
proof -
  let ?wr = "\<lambda>c. set_annotations (write_annotations annotations ruleID (or_empty (res_Annotations c))) c"
  let ?fail = "Wrapf ''failed to update resource annotations: ''"
  have app: "applyAnnotationsToResource api r annotations ruleID w =
      update_loop api ?wr ?fail (Inr ()) (object_key (?wr r)) (Suc (Suc (Suc 0))) (?wr r) w"
    by (simp only: applyAnnotationsToResource_def Let_def maxUpdateRetries_def numeral_3_eq_3
        set_annotations_key)
  have cur': "objs w (object_key (?wr r)) = Some cur" using cur by simp
  show thesis
  proof (cases "res_ResourceVersion r = res_ResourceVersion cur")
    case True
    then have r: "r = cur" using assms(3) by (simp add: read_from_def)
    obtain v w' where "update_loop api ?wr ?fail (Inr ()) (object_key (?wr r)) (Suc (Suc (Suc 0))) (?wr r) w = (Inr (), w')"
      "v \<noteq> res_ResourceVersion cur"
      "objs w' = (objs w)(object_key (?wr r) \<mapsto> (?wr r)\<lparr>res_ResourceVersion := v\<rparr>)"
      by (rule update_loop_current[OF os cur']) (use acc r in simp_all)
    then show thesis using that app r by simp
  next
    case False
    have "res_ResourceVersion (?wr r) \<noteq> res_ResourceVersion cur" using False by simp
    then obtain v w' where "update_loop api ?wr ?fail (Inr ()) (object_key (?wr r)) (Suc (Suc (Suc 0))) (?wr r) w = (Inr (), w')"
      "v \<noteq> res_ResourceVersion cur"
      "objs w' = (objs w)(object_key (?wr r) \<mapsto> (?wr cur)\<lparr>res_ResourceVersion := v\<rparr>)"
      by (rule update_loop_stale[OF os cur', where reapply = ?wr]) (use acc in simp_all)
    then show thesis using that app by simp
  qed
qed

section \<open>The annotations written and removed\<close>

definition user_keys :: "str list \<Rightarrow> bool" where
  "user_keys ks \<longleftrightarrow> (\<forall>k\<in>set ks. clean_key k \<and> \<not> reserved_key k)"

lemma user_keys_not_tracking: "user_keys ks \<Longrightarrow> k \<in> set ks \<Longrightarrow> k \<noteq> trackingKey r"
  by (auto simp: user_keys_def reserved_key_iff)

lemma mget_write:
  assumes "wf_map annotations" and "annotations \<noteq> []"
  shows "mget (write_annotations annotations ruleID m) k =
    (if k = trackingKey ruleID then Some (show_strs (mkeys annotations))
     else case mget annotations k of Some v \<Rightarrow> Some v | None \<Rightarrow> mget m k)"
  using assms by (simp add: write_annotations_def Let_def mkeys_def mget_mput_all)

lemma tracking_inv_mput_all:
  "tracking_inv m \<Longrightarrow> user_keys (mkeys kvs) \<Longrightarrow> tracking_inv (mput_all kvs m)"
proof (induction kvs arbitrary: m)
  case (Cons kv kvs)
  obtain k v where kv: "kv = (k, v)" by (cases kv)
  have "tracking_inv (mput k v m)"
    using Cons.prems kv by (intro tracking.sound_put) (auto simp: user_keys_def mkeys_def)
  then show ?case using Cons kv by (simp add: user_keys_def mkeys_def)
qed simp

lemma tracked_mput_all: "user_keys (mkeys kvs) \<Longrightarrow> tracked (mput_all kvs m) r = tracked m r"
proof (induction kvs arbitrary: m)
  case (Cons kv kvs)
  obtain k v where kv: "kv = (k, v)" by (cases kv)
  have "tracked (mput k v m) r = tracked m r"
    using Cons.prems kv by (intro tracking.owned_put) (auto simp: user_keys_def mkeys_def)
  then show ?case using Cons kv by (simp add: user_keys_def mkeys_def)
qed simp

lemma write_ledger:
  assumes "tracking_inv m" and "user_keys (mkeys annotations)" and "annotations \<noteq> []"
  shows "tracking_inv (write_annotations annotations ruleID m)"
    and "tracked (write_annotations annotations ruleID m) r =
      (if r = ruleID then set (mkeys annotations) else tracked m r)"
proof -
  have ks: "mkeys annotations \<noteq> []" "\<forall>k\<in>set (mkeys annotations). clean_key k"
    using assms(2,3) by (auto simp: user_keys_def mkeys_def)
  have w: "write_annotations annotations ruleID m =
      mput (trackingKey ruleID) (show_strs (mkeys annotations)) (mput_all annotations m)"
    using ks(1) by (simp add: write_annotations_def Let_def)
  show "tracking_inv (write_annotations annotations ruleID m)"
    unfolding w using ks assms(1,2) by (intro tracking_inv_mput_show tracking_inv_mput_all)
  show "tracked (write_annotations annotations ruleID m) r =
      (if r = ruleID then set (mkeys annotations) else tracked m r)"
    unfolding w tracked_mput_show[OF ks] tracked_mput_all[OF assms(2)] by simp
qed

lemma delete_owned_get:
  "mget (fst (delete_owned ks keys m c)) k =
     (if k \<in> set keys \<and> k \<in> trim_space ` set ks then None else mget m k)"
proof (induction keys arbitrary: m c)
  case (Cons key keys)
  have "list_ex (\<lambda>ruleKey. trim_space ruleKey = key) ks \<longleftrightarrow> key \<in> trim_space ` set ks"
    by (auto simp: list_ex_iff)
  then show ?case using Cons by (auto simp: mhas_iff)
qed simp

lemma delete_owned_count:
  "snd (delete_owned ks keys m c) \<ge> c \<and>
   (snd (delete_owned ks keys m c) = c \<longleftrightarrow> (\<forall>k\<in>set keys. k \<in> trim_space ` set ks \<longrightarrow> mget m k = None))"
proof (induction keys arbitrary: m c)
  case (Cons key keys)
  have l: "list_ex (\<lambda>ruleKey. trim_space ruleKey = key) ks \<longleftrightarrow> key \<in> trim_space ` set ks"
    by (auto simp: list_ex_iff)
  show ?case
  proof (cases "key \<in> trim_space ` set ks \<and> mget m key \<noteq> None")
    case True
    then show ?thesis using Cons[of "Suc c" "mdel key m"] l by (auto simp: mhas_iff)
  next
    case False
    then show ?thesis using Cons[of c m] l by (auto simp: mhas_iff)
  qed
qed simp

lemma owned_keys:
  assumes "tracking_inv m"
  shows "trim_space ` set (rule_applied_keys ruleID m) = tracked m ruleID"
    and "\<forall>k\<in>set (map trim_space (rule_applied_keys ruleID m)). clean_key k"
proof -
  show "trim_space ` set (rule_applied_keys ruleID m) = tracked m ruleID"
    by (simp add: rule_applied_keys_def tracked_def split: option.split)
  show "\<forall>k\<in>set (map trim_space (rule_applied_keys ruleID m)). clean_key k"
  proof (cases "mget m (trackingKey ruleID)")
    case (Some v)
    then show ?thesis
      by (rule tracking_inv_Some[OF assms]) (simp add: rule_applied_keys_def Some)
  qed (simp add: rule_applied_keys_def)
qed

lemma delete_owned_mdels: "\<exists>ds. set ds \<subseteq> set keys \<and> fst (delete_owned ks keys m c) = fold mdel ds m"
proof (induction keys arbitrary: m c)
  case Nil
  show ?case by (intro exI[of _ "[]"]) simp
next
  case (Cons key keys)
  show ?case
  proof (cases "list_ex (\<lambda>ruleKey. trim_space ruleKey = key) ks \<and> mhas m key")
    case True
    obtain ds where "set ds \<subseteq> set keys" "fst (delete_owned ks keys (mdel key m) (Suc c)) = fold mdel ds (mdel key m)"
      using Cons by blast
    then show ?thesis using True by (intro exI[of _ "key # ds"]) auto
  next
    case False
    obtain ds where "set ds \<subseteq> set keys" "fst (delete_owned ks keys m c) = fold mdel ds m" using Cons by blast
    moreover have "delete_owned ks (key # keys) m c = delete_owned ks keys m c" using False by auto
    ultimately show ?thesis by (intro exI[of _ ds]) auto
  qed
qed

lemma mdels_ledger:
  "user_keys ds \<Longrightarrow> tracking_inv m \<Longrightarrow> tracking_inv (fold mdel ds m) \<and> tracked (fold mdel ds m) r = tracked m r"
proof (induction ds arbitrary: m)
  case (Cons k ds)
  have "tracking_inv (mdel k m)" "tracked (mdel k m) r = tracked m r"
    using Cons.prems by (simp_all add: user_keys_def tracking.sound_del tracking.owned_del)
  then show ?case using Cons by (simp add: user_keys_def)
qed simp

text \<open>
  The effect of a removal: exactly the asked keys that the rule owns disappear, together with
  their tracking; nothing else changes.
\<close>

lemma remove_annotations_spec:
  assumes inv: "tracking_inv m" and user: "user_keys keys"
    and m': "m' = fst (remove_annotations keys ruleID m)"
  shows "tracking_inv m'"
    and "tracked m' r = (if r = ruleID then tracked m r - set keys else tracked m r)"
    and "k \<noteq> trackingKey ruleID \<Longrightarrow>
      mget m' k = (if k \<in> set keys \<and> k \<in> tracked m ruleID then None else mget m k)"
    and "snd (remove_annotations keys ruleID m) = 0 \<longleftrightarrow>
      (\<forall>k\<in>set keys. k \<in> tracked m ruleID \<longrightarrow> mget m k = None)"
proof -
  let ?ks = "rule_applied_keys ruleID m"
  let ?rest = "filter (\<lambda>k. k \<notin> set keys) (map trim_space ?ks)"
  note own = owned_keys[OF inv, of ruleID]
  define m1 where "m1 = fst (delete_owned ?ks keys m 0)"
  obtain ds where ds: "set ds \<subseteq> set keys" "m1 = fold mdel ds m"
    using delete_owned_mdels[of keys ?ks m 0] by (auto simp: m1_def)
  have u: "user_keys ds" using user ds(1) by (auto simp: user_keys_def)
  have m1: "tracking_inv m1" "tracked m1 r' = tracked m r'" for r'
    using mdels_ledger[OF u inv] ds(2) by auto
  have rest: "set ?rest = tracked m ruleID - set keys" using own(1) by auto
  have eq: "m' = (if length ?ks > 0 then if length ?rest > 0
      then mput (trackingKey ruleID) (show_strs ?rest) m1 else mdel (trackingKey ruleID) m1 else m1)"
    by (simp add: m' remove_annotations_def Let_def m1_def split: prod.split)
  consider (none) "length ?ks = 0" "m' = m1" "tracked m ruleID = {}"
    | (some) "?rest \<noteq> []" "m' = mput (trackingKey ruleID) (show_strs ?rest) m1"
    | (gone) "tracked m ruleID - set keys = {}" "m' = mdel (trackingKey ruleID) m1"
  proof (cases "length ?ks = 0")
    case True
    then show thesis using that(1) eq own(1) by simp
  next
    case False
    then have l: "length ?ks > 0" by simp
    show thesis
    proof (cases "?rest = []")
      case True
      then have "length ?rest = 0" "tracked m ruleID - set keys = {}" using rest by (metis list.size(3), metis set_empty)
      then show thesis using that(3) eq l by (simp only: if_True less_not_refl if_False)
    next
      case False
      then have "length ?rest > 0" by blast
      then have "m' = mput (trackingKey ruleID) (show_strs ?rest) m1" using eq l by (simp only: if_True)
      then show thesis by (rule that(2)[OF False])
    qed
  qed
  note shape = this
  have clean: "\<forall>k\<in>set ?rest. clean_key k" using own(2) by auto
  show "tracking_inv m'"
    using shape
  proof cases
    case some
    then show ?thesis using tracking_inv_mput_show[OF m1(1) some(1) clean] by (simp only:)
  qed (simp_all add: m1 tracking_inv_mdel)
  show "tracked m' r = (if r = ruleID then tracked m r - set keys else tracked m r)"
    using shape
  proof cases
    case some
    show ?thesis unfolding some(2) tracked_mput_show[OF some(1) clean] rest m1(2) by simp
  next
    case gone
    then show ?thesis by (simp add: tracked_mdel_key m1(2))
  qed (simp add: m1)
  show "mget m' k = (if k \<in> set keys \<and> k \<in> tracked m ruleID then None else mget m k)"
    if "k \<noteq> trackingKey ruleID"
  proof -
    have "mget m' k = mget m1 k" using shape that by cases simp_all
    then show ?thesis using delete_owned_get[of ?ks keys m 0 k] own(1) by (simp add: m1_def)
  qed
  show "snd (remove_annotations keys ruleID m) = 0 \<longleftrightarrow>
      (\<forall>k\<in>set keys. k \<in> tracked m ruleID \<longrightarrow> mget m k = None)"
    using delete_owned_count[of 0 ?ks keys m] own(1)
    by (simp add: remove_annotations_def Let_def case_prod_beta)
qed

definition stored_annotations :: "('w \<Rightarrow> object_key \<Rightarrow> resource option) \<Rightarrow> 'w \<Rightarrow> object_key \<Rightarrow>
    (str, str) gomap" where
  "stored_annotations objs w k = (case objs w k of None \<Rightarrow> [] | Some r \<Rightarrow> or_empty (res_Annotations r))"

lemma version_annotations [simp]:
  "res_Annotations (r\<lparr>res_ResourceVersion := v\<rparr>) = res_Annotations r" by simp

section \<open>A server in memory\<close>

text \<open>
  A concrete API server that keeps its objects in a map and makes a new version by one more
  letter: the hypotheses on servers hold for it.
\<close>

type_synonym mem_world = "object_key \<Rightarrow> resource option"

definition mem_objs :: "mem_world \<Rightarrow> object_key \<Rightarrow> resource option" where
  "mem_objs w k = (case w k of None \<Rightarrow> None | Some r \<Rightarrow> if object_key r = k then Some r else None)"

definition mem_update :: "resource \<Rightarrow> mem_world \<Rightarrow> (goerr + resource) \<times> mem_world" where
  "mem_update r w = (case mem_objs w (object_key r) of
     None \<Rightarrow> (Inl (ApiError NotFound ''not found''), w)
   | Some cur \<Rightarrow>
       if res_ResourceVersion r = res_ResourceVersion cur
       then let r' = r\<lparr>res_ResourceVersion := ''x'' @ res_ResourceVersion r\<rparr>
            in (Inr r', w(object_key r \<mapsto> r'))
       else (Inl (ApiError Conflict ''the object has been modified''), w))"

definition mem_api :: "mem_world api" where
  "mem_api = \<lparr>api_now = (\<lambda>w. 0), api_sleep = (\<lambda>d w. w),
     api_list = (\<lambda>t s ns w. (Inr [], w)),
     api_get = (\<lambda>k w. (case mem_objs w k of None \<Rightarrow> Inl (ApiError NotFound ''not found'') | Some r \<Rightarrow> Inr r, w)),
     api_update = mem_update,
     api_listRules = (\<lambda>w. (Inr [], w)), api_getRule = (\<lambda>n w. (Inl (ApiError NotFound ''not found''), w)),
     api_updateRule = (\<lambda>r w. (Inr r, w)), api_updateStatus = (\<lambda>r w. (Inr r, w)),
     api_createEvent = (\<lambda>e w. (Inr (), w)), api_log = (\<lambda>e w. w)\<rparr>"

lemma mem_store: "optimistic_store (\<lambda>m. True) mem_objs mem_api"
proof -
  have key: "object_key (r\<lparr>res_ResourceVersion := v\<rparr>) = object_key r" for r :: resource and v
    by (simp add: object_key_def)
  then have "mem_objs (w(object_key r \<mapsto> r\<lparr>res_ResourceVersion := v\<rparr>)) =
      (mem_objs w)(object_key r \<mapsto> r\<lparr>res_ResourceVersion := v\<rparr>)" for w r v
    by (auto simp: mem_objs_def fun_eq_iff)
  then show ?thesis
    unfolding optimistic_store_def updates_def
    by (auto simp: mem_api_def mem_update_def Let_def intro: exI[of _ "''x'' @ _"])
       (auto simp: mem_objs_def split: option.splits if_splits)
qed

definition sample_resource :: "(str, str) gomap \<Rightarrow> resource" where
  "sample_resource m = \<lparr>res_Kind = ''Pod'', res_Namespace = ''ns'', res_Name = ''p'', res_TypeMetaKind = [],
     res_UID = ''u'', res_ResourceVersion = ''1'', res_Labels = [], res_Annotations = Some m\<rparr>"

definition sample_world :: "(str, str) gomap \<Rightarrow> mem_world" where
  "sample_world m = [object_key (sample_resource m) \<mapsto> sample_resource m]"

lemma sample_world_get: "mem_objs (sample_world m) (object_key (sample_resource m)) = Some (sample_resource m)"
  by (simp add: mem_objs_def sample_world_def)

section \<open>Properties\<close>

text \<open>
  Applying annotations to a resource writes them to the server on top of what is stored
  there, even if the manager's copy of the resource is stale: every annotation of the rule has
  its value, every other annotation is kept, and the rule's tracking entry lists exactly the
  keys written now, so keys that the rule had written before are forgotten.
\<close>

theorem applied_annotations_reach_the_server:
  assumes "optimistic_store accepts objs api" and "objs w (object_key r) = Some cur" and "read_from r cur"
    and "accepts (write_annotations annotations ruleID (or_empty (res_Annotations cur)))"
    and "wf_map annotations" and "annotations \<noteq> []"
  shows "\<exists>w'. applyAnnotationsToResource api r annotations ruleID w = (Inr (), w') \<and>
    (\<forall>k. k = object_key r \<or> objs w' k = objs w k) \<and>
    (\<forall>k. mget (stored_annotations objs w' (object_key r)) k =
      (if k = trackingKey ruleID then Some (show_strs (mkeys annotations))
       else case mget annotations k of Some v \<Rightarrow> Some v
            | None \<Rightarrow> mget (stored_annotations objs w (object_key r)) k))"
proof -
  obtain v w' where "applyAnnotationsToResource api r annotations ruleID w = (Inr (), w')"
    "objs w' = (objs w)(object_key r \<mapsto>
       (set_annotations (write_annotations annotations ruleID (or_empty (res_Annotations cur))) cur)
         \<lparr>res_ResourceVersion := v\<rparr>)"
    by (rule apply_stores[OF assms(1-4)])
  then show ?thesis
    using assms(2) mget_write[OF assms(5,6)]
    by (intro exI[of _ w']) (simp add: stored_annotations_def cong: option.case_cong)
qed

theorem applied_annotations_reach_the_server_witness:
  "\<exists>w'. applyAnnotationsToResource mem_api ((sample_resource [])\<lparr>res_ResourceVersion := ''0''\<rparr>)
      [(''a'', ''1'')] ''r'' (sample_world [(''b'', ''2'')]) = (Inr (), w') \<and>
    mget (stored_annotations mem_objs w' (''Pod'', ''ns'', ''p'')) ''a'' = Some ''1'' \<and>
    mget (stored_annotations mem_objs w' (''Pod'', ''ns'', ''p'')) ''b'' = Some ''2''"
proof -
  let ?r = "(sample_resource [])\<lparr>res_ResourceVersion := ''0''\<rparr>"
  have k: "object_key ?r = (''Pod'', ''ns'', ''p'')"
    "object_key (sample_resource [(''b'', ''2'')]) = (''Pod'', ''ns'', ''p'')"
    by (simp_all add: sample_resource_def object_key_def)
  have g: "mem_objs (sample_world [(''b'', ''2'')]) (''Pod'', ''ns'', ''p'') = Some (sample_resource [(''b'', ''2'')])"
    using sample_world_get[of "[(''b'', ''2'')]"] k by simp
  have rf: "read_from ?r (sample_resource [(''b'', ''2'')])"
    by (simp add: read_from_def sample_resource_def)
  have "stored_annotations mem_objs (sample_world [(''b'', ''2'')]) (''Pod'', ''ns'', ''p'') = [(''b'', ''2'')]"
    using g by (simp add: stored_annotations_def sample_resource_def)
  then show ?thesis
    using applied_annotations_reach_the_server[OF mem_store, of "sample_world [(''b'', ''2'')]" ?r
        "sample_resource [(''b'', ''2'')]" "[(''a'', ''1'')]" "''r''"] g rf k
    by (auto simp: wf_map_def mget_Cons trackingKey_def)
qed


lemma tracking_inv_no_entry: "\<forall>r. mget m (trackingKey r) = None \<Longrightarrow> tracking_inv m"
  by (simp add: tracking_inv_def)

lemma sample_tracked:
  "tracking_inv [(''a'', ''1''), (''b'', ''2''), (trackingKey ''r'', ''[a]'')]"
  "tracked [(''a'', ''1''), (''b'', ''2''), (trackingKey ''r'', ''[a]'')] ''r'' = {''a''}"
proof -
  have s: "show_strs [''a''] = ''[a]''" "clean_key ''a''"
    by (simp_all add: show_strs_def clean_key_def graphic_def)
  have t: "''a'' \<noteq> trackingKey x" "''b'' \<noteq> trackingKey x" "trackingKey x \<noteq> ''a''"
    "trackingKey x \<noteq> ''b''" "trackingKey ''r'' = trackingKey x \<longleftrightarrow> x = ''r''"
    "trackingKey x = trackingKey ''r'' \<longleftrightarrow> x = ''r''" for x by (auto simp: trackingKey_def)
  have get: "mget [(''a'', ''1''), (''b'', ''2''), (trackingKey ''r'', ''[a]'')] (trackingKey x) =
      (if x = ''r'' then Some ''[a]'' else None)" for x
    by (simp add: mget_Cons t)
  show "tracking_inv [(''a'', ''1''), (''b'', ''2''), (trackingKey ''r'', ''[a]'')]"
    using s by (auto simp: tracking_inv_def get intro!: exI[of _ "[''a'']"])
  have "parseTracking (show_strs [''a'']) = [''a'']" by (rule parse_show) (simp_all add: s)
  then have "parseTracking ''[a]'' = [''a'']" by (simp only: s)
  then show "tracked [(''a'', ''1''), (''b'', ''2''), (trackingKey ''r'', ''[a]'')] ''r'' = {''a''}"
    using s by (simp add: tracked_def get)
qed


text \<open>
  C14: what a rule applied and then removes leaves no trace: its keys and its tracking entry are
  gone, and every annotation that was there before under another key is as it was.
\<close>

theorem apply_then_remove:
  assumes "tracking_inv m" and "wf_map annotations" and "annotations \<noteq> []" and "user_keys (mkeys annotations)"
  shows "mget (fst (remove_annotations (mkeys annotations) ruleID (write_annotations annotations ruleID m))) k =
    (if k \<in> set (mkeys annotations) \<or> k = trackingKey ruleID then None else mget m k)"
proof -
  let ?m1 = "write_annotations annotations ruleID m"
  let ?m2 = "fst (remove_annotations (mkeys annotations) ruleID ?m1)"
  note w = write_ledger[OF assms(1,4,3), of ruleID]
  note r = remove_annotations_spec[OF w(1) assms(4) refl[of ?m2]]
  show ?thesis
  proof (cases "k = trackingKey ruleID")
    case True
    have empty: "tracked ?m2 ruleID = {}" using r(2)[of ruleID] w(2)[of ruleID] by simp
    have "mget ?m2 (trackingKey ruleID) = None"
    proof (rule ccontr)
      assume "mget ?m2 (trackingKey ruleID) \<noteq> None"
      then obtain v where v: "mget ?m2 (trackingKey ruleID) = Some v" by blast
      show False by (rule tracking_inv_Some[OF r(1) v]) (use empty in simp)
    qed
    then show ?thesis using True by simp
  next
    case False
    then show ?thesis
      using r(3)[OF False] w(2)[of ruleID] mget_write[OF assms(2,3), of ruleID m k]
        mget_None_iff[of annotations k] by (auto split: option.splits)
  qed
qed

theorem apply_then_remove_witness:
  "mget (fst (remove_annotations [''a''] ''r'' (write_annotations [(''a'', ''1'')] ''r'' [(''b'', ''2'')]))) ''b'' =
     Some ''2''"
proof -
  have "tracking_inv [(''b'', ''2'')]"
    by (rule tracking_inv_no_entry) (simp add: mget_Cons trackingKey_def)
  then show ?thesis
    using apply_then_remove[of "[(''b'', ''2'')]" "[(''a'', ''1'')]" "''r''" "''b''"]
    by (simp add: wf_map_def user_keys_def mkeys_def clean_key_def graphic_def reserved_key_iff
        trackingKey_def mget_Cons)
qed

section \<open>Groups\<close>

lemma operation_cases:
  assumes "applyAnnotationOperation rm m op ruleID tc cr = (res, m')"
  obtains (same) "m' = m" "or_Success res \<longleftrightarrow> or_Error res = None"
    | (written) v where "clean_key (op_Key op)" "m' = trackAnnotationApplication (mput (op_Key op) v m) (op_Key op) ruleID"
        "or_Success res" "or_Error res = None"
    | (erased) "wasAnnotationAppliedByRule m (op_Key op) ruleID"
        "m' = untrackAnnotationApplication (mdel (op_Key op) m) (op_Key op) ruleID" "or_Success res" "or_Error res = None"
proof (cases "ValidateAnnotationKey (rm_Validator rm) (op_Key op)")
  case (Inl e)
  then show ?thesis using assms by (auto simp: applyAnnotationOperation_def empty_result_def intro: same)
next
  case key: (Inr u)
  then have clean: "clean_key (op_Key op)" using valid_key_clean by simp
  show ?thesis
  proof (cases "operation_value rm op tc")
    case (Inl e)
    then show ?thesis using assms key by (auto simp: applyAnnotationOperation_def empty_result_def intro: same)
  next
    case val: (Inr v)
    show ?thesis
    proof (cases "ValidateAnnotationValue (rm_Validator rm) v")
      case (Inl e)
      then show ?thesis using assms key val by (auto simp: applyAnnotationOperation_def empty_result_def intro: same)
    next
      case (Inr u')
      note unfolded = assms[unfolded applyAnnotationOperation_def Let_def key val Inr sum.case]
      from unfolded show ?thesis
        by (auto simp: empty_result_def split: if_splits intro: same written[OF clean] erased)
    qed
  qed
qed

text \<open>
  C15: one operation of a group changes at most its own key and the tracking entry of its rule.
  A failed operation changes nothing; a key is taken away only if the rule applied it; other
  rules' keys are left to them, and the tracking entries stay well-formed.
\<close>

theorem operation_respects_ledger:
  assumes "tracking_inv m" and "\<not> reserved_key (op_Key op)"
    and "applyAnnotationOperation rm m op ruleID tc cr = (res, m')"
  shows "tracking_inv m' \<and>
    (\<forall>k. k \<noteq> op_Key op \<and> k \<noteq> trackingKey ruleID \<longrightarrow> mget m' k = mget m k) \<and>
    (\<forall>r. r \<noteq> ruleID \<longrightarrow> tracked m' r = tracked m r) \<and>
    (\<not> or_Success res \<longrightarrow> m' = m) \<and>
    (mget m' (op_Key op) = None \<longrightarrow> mget m (op_Key op) = None \<or> op_Key op \<in> tracked m ruleID) \<and>
    (or_Success res \<longleftrightarrow> or_Error res = None)"
proof -
  let ?k = "op_Key op"
  have tk: "?k \<noteq> trackingKey r" for r using assms(2) by (auto simp: reserved_key_iff)
  consider (same) "m' = m" "or_Success res \<longleftrightarrow> or_Error res = None"
    | (written) v where "clean_key ?k" "m' = trackAnnotationApplication (mput ?k v m) ?k ruleID"
        "or_Success res" "or_Error res = None"
    | (erased) "wasAnnotationAppliedByRule m ?k ruleID"
        "m' = untrackAnnotationApplication (mdel ?k m) ?k ruleID" "or_Success res" "or_Error res = None"
    by (rule operation_cases[OF assms(3)])
  then show ?thesis
  proof cases
    case same
    then show ?thesis using assms(1) by auto
  next
    case written
    then show ?thesis
      using tracking.write_and_own[OF assms(1) written(1) assms(2)] mget_track_other tk
      by (auto simp: mget_track_other)
  next
    case erased
    then show ?thesis
      using tracking.erase_and_disown[OF assms(1,2)] tk
      by (auto simp: mget_untrack_other wasAnnotationAppliedByRule_iff)
  qed
qed

lemma default_manager_validator [simp]: "rm_Validator (NewResourceManager lib) = NewAnnotationValidator"
  by (simp add: NewResourceManager_def)

definition sample_operation :: annotation_operation where
  "sample_operation = \<lparr>op_Key = ''scheduler.k8s.io/managed-a'', op_Value = ''1'', op_Template = False,
     op_Action = [], op_Priority = 0\<rparr>"

theorem operation_respects_ledger_witness:
  "tracking_inv (snd (applyAnnotationOperation (NewResourceManager counting_bucket) [] sample_operation ''r''
     sample_context ''priority''))"
proof -
  obtain res m' where a: "applyAnnotationOperation (NewResourceManager counting_bucket) [] sample_operation
      ''r'' sample_context ''priority'' = (res, m')" by (rule prod.exhaust)
  have "tracking_inv []" by (rule tracking_inv_no_entry) simp
  moreover have "\<not> reserved_key (op_Key sample_operation)"
    by (simp add: reserved_key_iff sample_operation_def trackingKey_def)
  ultimately show ?thesis using operation_respects_ledger[OF _ _ a] a by simp
qed

section \<open>Groups on one resource\<close>

lemma group_update:
  assumes os: "optimistic_store accepts objs api" and cur: "objs w (object_key r) = Some cur" and rf: "read_from r cur"
    and acc: "r = cur \<Longrightarrow> accepts m"
  obtains v w' where "updateResourceWithRetry api (set_annotations m r) r w = (Inr (), w')"
    "v \<noteq> res_ResourceVersion cur"
    "objs w' = (objs w)(object_key r \<mapsto>
       (if r = cur then set_annotations m r else cur)\<lparr>res_ResourceVersion := v\<rparr>)"
proof -
  let ?fail = "\<lambda>err. err"
  let ?ex = "Inl (Errorf (''failed to update resource after '' @ show_nat maxUpdateRetries @ '' attempts''))"
  let ?c = "set_annotations m r"
  have loop: "updateResourceWithRetry api ?c r w =
      update_loop api (\<lambda>fresh. fresh) ?fail ?ex (object_key ?c) (Suc (Suc (Suc 0))) ?c w"
    by (simp only: updateResourceWithRetry_def maxUpdateRetries_def numeral_3_eq_3 set_annotations_key)
  have cur': "objs w (object_key ?c) = Some cur" using cur by simp
  show thesis
  proof (cases "r = cur")
    case True
    then have "res_ResourceVersion ?c = res_ResourceVersion cur" by simp
    moreover have "accepts (or_empty (res_Annotations ?c))" using acc True by simp
    ultimately obtain v w' where
      "update_loop api (\<lambda>fresh. fresh) ?fail ?ex (object_key ?c) (Suc (Suc (Suc 0))) ?c w = (Inr (), w')"
      "v \<noteq> res_ResourceVersion cur" "objs w' = (objs w)(object_key ?c \<mapsto> ?c\<lparr>res_ResourceVersion := v\<rparr>)"
      by (rule update_loop_current[OF os cur'])
    then show thesis using that[of w' v] loop True by simp
  next
    case False
    then have "res_ResourceVersion ?c \<noteq> res_ResourceVersion cur" using rf by (auto simp: read_from_def)
    then obtain v w' where
      "update_loop api (\<lambda>fresh. fresh) ?fail ?ex (object_key ?c) (Suc (Suc (Suc 0))) ?c w = (Inr (), w')"
      "v \<noteq> res_ResourceVersion cur" "objs w' = (objs w)(object_key ?c \<mapsto> cur\<lparr>res_ResourceVersion := v\<rparr>)"
      by (rule update_loop_stale[OF os cur', where reapply = "\<lambda>fresh. fresh"]) (simp_all add: os_accepted[OF os cur])
    then show thesis using that[of w' v] loop False by simp
  qed
qed

text \<open>The operations of a group on the copy of a resource, and their success.\<close>

definition operated :: "('w, 'l) deps \<Rightarrow> 'l resource_manager \<Rightarrow> annotation_group \<Rightarrow> str \<Rightarrow> template_context \<Rightarrow>
    str \<Rightarrow> resource \<Rightarrow> operation_result list \<times> (str, str) gomap" where
  "operated d rm grp ruleID tc cr r =
     apply_operations rm ruleID (tc\<lparr>ctx_Resource := Some r\<rparr>) cr (dep_sort d by_priority (grp_Operations grp))
       (or_empty (res_Annotations r))"

definition all_succeed :: "operation_result list \<Rightarrow> bool" where
  "all_succeed rs \<longleftrightarrow> rs \<noteq> [] \<and> list_all or_Success rs"

lemma group_on_resource:
  assumes "optimistic_store accepts objs (dep_api d)" and "objs w (object_key r) = Some cur" and "read_from r cur"
    and "r = cur \<Longrightarrow> accepts (snd (operated d rm grp ruleID tc cr r))"
    and "all_succeed (fst (operated d rm grp ruleID tc cr r))"
  obtains res v w' where "applyAnnotationGroup d rm [r] grp ruleID tc cr w = (res, w')"
    "gr_Success res" "gr_ResourcesAffected res = 1" "gr_Operations res = fst (operated d rm grp ruleID tc cr r)"
    "v \<noteq> res_ResourceVersion cur"
    "objs w' = (objs w)(object_key r \<mapsto>
       (if r = cur then set_annotations (snd (operated d rm grp ruleID tc cr r)) r else cur)
         \<lparr>res_ResourceVersion := v\<rparr>)"
proof -
  obtain rs m where op: "operated d rm grp ruleID tc cr r = (rs, m)" by fastforce
  have ok: "0 < length (filter or_Success rs)" "\<not> list_ex (\<lambda>x. \<not> or_Success x) rs" "filter or_Success rs \<noteq> []"
    using assms(5) op by (auto simp: all_succeed_def list_all_iff list_ex_iff filter_empty_conv neq_Nil_conv)
  obtain v w' where u: "updateResourceWithRetry (dep_api d) (set_annotations m r) r w = (Inr (), w')"
    "v \<noteq> res_ResourceVersion cur"
    "objs w' = (objs w)(object_key r \<mapsto> (if r = cur then set_annotations m r else cur)\<lparr>res_ResourceVersion := v\<rparr>)"
    by (rule group_update[OF assms(1-3)]) (use assms(4) op in simp)
  have run: "applyAnnotationOperationsToResource d rm r (grp_Operations grp) ruleID (tc\<lparr>ctx_Resource := Some r\<rparr>) cr w =
      (\<lparr>gr_GroupName = [], gr_Success = True, gr_Operations = rs, gr_Error = first_failure rs,
        gr_ResourcesAffected = 0\<rparr>, w')"
    using op ok u(1) unfolding operated_def applyAnnotationOperationsToResource_def Let_def by simp
  then have "applyAnnotationGroup d rm [r] grp ruleID tc cr w =
      ((new_group_result grp)\<lparr>gr_Operations := rs, gr_ResourcesAffected := 1\<rparr>, w')"
    by (simp add: applyAnnotationGroup_def new_group_result_def)
  then show thesis
    using u by (intro that[of "(new_group_result grp)\<lparr>gr_Operations := rs, gr_ResourcesAffected := 1\<rparr>" w' v,
          unfolded op fst_conv snd_conv]) (simp_all add: new_group_result_def)
qed


definition listing_api :: "(str, str) gomap \<Rightarrow> mem_world api" where
  "listing_api m = mem_api\<lparr>api_list := (\<lambda>t s ns w. (Inr [sample_resource m], w))\<rparr>"

definition listing_deps :: "(str, str) gomap \<Rightarrow> (mem_world, int) deps" where
  "listing_deps m = \<lparr>dep_api = listing_api m, dep_lim = counting_bucket, dep_sel = sample_lib,
     dep_sort = (\<lambda>f xs. xs)\<rparr>"

lemma listing_store: "optimistic_store (\<lambda>m. True) mem_objs (dep_api (listing_deps m))"
  using mem_store optimistic_store_cong[of mem_api "listing_api m"]
  by (simp add: listing_deps_def listing_api_def)

lemma listing_pods:
  obtains rm where "GetMatchingResources (listing_deps m) empty_selector [''pods''] ''ns''
      (NewResourceManager counting_bucket, sample_world m) = (Inr [sample_resource m], rm, sample_world m)"
    "rm_Validator rm = NewAnnotationValidator"
proof -
  obtain rm where w: "rate_wait (listing_deps m) OperationTypeQuery ''ns'' (NewResourceManager counting_bucket, sample_world m) =
      (Inr (), rm, sample_world m)"
    "rm_Validator rm = NewAnnotationValidator" "rm_Cache rm = Some (NewResourceCache (5 * time_minute) 1000)"
    by (simp add: rate_wait_def NewResourceManager_def Wait_def waitGlobal_def waitNamespace_def count_request_def
        getOrCreateNamespaceLimiters_def new_namespace_limiters_def namespace_limiter_def global_limiter_def
        set_global_limiter_def NewAnnotationRateLimiter_def DefaultRateLimiterConfig_def counting_bucket_def
        operation_types listing_deps_def listing_api_def mem_api_def Let_def)
  obtain rc where look: "cache_lookup (listing_deps m) empty_selector [''pods''] ''ns'' (rm, sample_world m) =
      (None, rm\<lparr>rm_Cache := Some rc\<rparr>, sample_world m)"
    using w(3) by (simp add: cache_lookup_def GetCachedResources_def NewResourceCache_def Let_def)
  have conv: "sel_convert (dep_sel (listing_deps m)) empty_selector = Inr ''ok''"
    by (simp add: listing_deps_def sample_lib_def empty_selector_def)
  have list: "list_types (dep_api (listing_deps m)) empty_selector [''pods''] ''ns'' (sample_world m) =
      ([sample_resource m], sample_world m)"
    by (simp add: list_types_def getResourcesByType_alt supportedTypes_def listing_deps_def listing_api_def)
  let ?st = "cache_fill (listing_deps m) empty_selector [''pods''] ''ns'' [sample_resource m]
    (rm\<lparr>rm_Cache := Some rc\<rparr>, sample_world m)"
  have "snd ?st = sample_world m" "rm_Validator (fst ?st) = NewAnnotationValidator"
    using w(2) by (simp_all add: cache_fill_def)
  then show thesis
    by (intro that[of "fst ?st"]) (simp_all add: GetMatchingResources_def w(1) look conv list prod_eq_iff)
qed

definition sample_group :: "str \<Rightarrow> annotation_group" where
  "sample_group key = \<lparr>grp_Name = ''g'', grp_Operations = [\<lparr>op_Key = key, op_Value = ''1'', op_Template = False,
     op_Action = [], op_Priority = 0\<rparr>], grp_Atomic = False\<rparr>"

lemma sample_operated:
  assumes "rm_Validator rm = NewAnnotationValidator" and "ValidateAnnotationKey NewAnnotationValidator key = Inr ()"
  shows "all_succeed (fst (operated (listing_deps m) rm (sample_group key) ruleID tc ''priority'' (sample_resource [])))"
    and "snd (operated (listing_deps m) rm (sample_group key) ruleID tc ''priority'' (sample_resource [])) =
      trackAnnotationApplication [(key, ''1'')] key ruleID"
proof -
  have "ValidateAnnotationValue NewAnnotationValidator ''1'' = Inr ()" by code_simp
  then have "applyAnnotationOperation rm [] \<lparr>op_Key = key, op_Value = ''1'', op_Template = False, op_Action = [],
      op_Priority = 0\<rparr> ruleID tc' ''priority'' =
      ((empty_result \<lparr>op_Key = key, op_Value = ''1'', op_Template = False, op_Action = [], op_Priority = 0\<rparr>)
         \<lparr>or_NewValue := ''1'', or_Success := True\<rparr>, trackAnnotationApplication [(key, ''1'')] key ruleID)" for tc'
    using assms by (simp add: applyAnnotationOperation_def operation_value_def empty_result_def OperationTypeApply_def
        mput_def Let_def)
  then show "all_succeed (fst (operated (listing_deps m) rm (sample_group key) ruleID tc ''priority'' (sample_resource [])))"
    and "snd (operated (listing_deps m) rm (sample_group key) ruleID tc ''priority'' (sample_resource [])) =
      trackAnnotationApplication [(key, ''1'')] key ruleID"
    by (simp_all add: operated_def sample_group_def sample_resource_def listing_deps_def all_succeed_def)
qed


end
