(* ===== verification/Orphan_Cleanup.thy ===== *)
theory Orphan_Cleanup
  imports Resource_Properties
begin

text \<open>
  \<open>internal/resource/cleanup.go\<close>: the periodic removal of the tracking annotations whose rule
  no longer exists.  The loop over the batches is a partial function: it ends if the batch size
  is positive, as the constructor makes it.
\<close>

section \<open>The cleanup manager\<close>

record orphaned_annotation_cleanup =
  oac_cleanupInterval :: duration
  oac_maxAge :: duration
  oac_batchSize :: nat

definition NewOrphanedAnnotationCleanup :: orphaned_annotation_cleanup where
  "NewOrphanedAnnotationCleanup = \<lparr>oac_cleanupInterval = 30 * time_minute,
     oac_maxAge = 24 * time_hour, oac_batchSize = 100\<rparr>"

definition cleanup_types :: "str list" where
  "cleanup_types = [''pods'', ''deployments'', ''statefulsets'', ''daemonsets'']"

definition getValidRuleIDs :: "'w api \<Rightarrow> 'w \<Rightarrow> (goerr + str list) \<times> 'w" where
  "getValidRuleIDs api w =
     (case api_listRules api w of
        (Inl e, w1) \<Rightarrow> (Inl (Wrapf ''failed to list annotation schedule rules: '' e), w1)
      | (Inr rules, w1) \<Rightarrow>
          (Inr (remdups (map (\<lambda>r. rule_Namespace r @ ''/'' @ rule_Name r) rules)), w1))"

section \<open>Resources with scheduler annotations\<close>

definition rule_key_prefix :: str where "rule_key_prefix = ''scheduler.k8s.io/rule-''"

definition hasSchedulerAnnotations :: "resource \<Rightarrow> bool" where
  "hasSchedulerAnnotations r =
     (case res_Annotations r of
        None \<Rightarrow> False
      | Some m \<Rightarrow> list_ex (\<lambda>key. has_prefix key rule_key_prefix) (mkeys m))"

definition getPodsWithSchedulerAnnotations :: "'w api \<Rightarrow> list_options \<Rightarrow> 'w \<Rightarrow> (goerr + resource list) \<times> 'w" where
  "getPodsWithSchedulerAnnotations api listOpts w =
     (case api_list api ''pods'' (fst listOpts) (snd listOpts) w of
        (Inl e, w1) \<Rightarrow> (Inl (Wrapf ''failed to list pods: '' e), w1)
      | (Inr items, w1) \<Rightarrow> (Inr (filter hasSchedulerAnnotations items), w1))"

definition getDeploymentsWithSchedulerAnnotations :: "'w api \<Rightarrow> list_options \<Rightarrow> 'w \<Rightarrow> (goerr + resource list) \<times> 'w" where
  "getDeploymentsWithSchedulerAnnotations api listOpts w =
     (case api_list api ''deployments'' (fst listOpts) (snd listOpts) w of
        (Inl e, w1) \<Rightarrow> (Inl (Wrapf ''failed to list deployments: '' e), w1)
      | (Inr items, w1) \<Rightarrow> (Inr (filter hasSchedulerAnnotations items), w1))"

definition getStatefulSetsWithSchedulerAnnotations :: "'w api \<Rightarrow> list_options \<Rightarrow> 'w \<Rightarrow> (goerr + resource list) \<times> 'w" where
  "getStatefulSetsWithSchedulerAnnotations api listOpts w =
     (case api_list api ''statefulsets'' (fst listOpts) (snd listOpts) w of
        (Inl e, w1) \<Rightarrow> (Inl (Wrapf ''failed to list statefulsets: '' e), w1)
      | (Inr items, w1) \<Rightarrow> (Inr (filter hasSchedulerAnnotations items), w1))"

definition getDaemonSetsWithSchedulerAnnotations :: "'w api \<Rightarrow> list_options \<Rightarrow> 'w \<Rightarrow> (goerr + resource list) \<times> 'w" where
  "getDaemonSetsWithSchedulerAnnotations api listOpts w =
     (case api_list api ''daemonsets'' (fst listOpts) (snd listOpts) w of
        (Inl e, w1) \<Rightarrow> (Inl (Wrapf ''failed to list daemonsets: '' e), w1)
      | (Inr items, w1) \<Rightarrow> (Inr (filter hasSchedulerAnnotations items), w1))"

definition getResourcesWithSchedulerAnnotations :: "'w api \<Rightarrow> str \<Rightarrow> 'w \<Rightarrow> (goerr + resource list) \<times> 'w" where
  "getResourcesWithSchedulerAnnotations api resourceType w =
     (let listOpts = (None, [])
      in if resourceType = ''pods'' then getPodsWithSchedulerAnnotations api listOpts w
         else if resourceType = ''deployments'' then getDeploymentsWithSchedulerAnnotations api listOpts w
         else if resourceType = ''statefulsets'' then getStatefulSetsWithSchedulerAnnotations api listOpts w
         else if resourceType = ''daemonsets'' then getDaemonSetsWithSchedulerAnnotations api listOpts w
         else (Inl (Errorf (''unsupported resource type: '' @ resourceType)), w))"

lemma getResourcesWithSchedulerAnnotations_alt:
  "getResourcesWithSchedulerAnnotations api resourceType w =
     (if resourceType \<in> set cleanup_types
      then (case api_list api resourceType None [] w of
              (Inl e, w1) \<Rightarrow> (Inl (Wrapf (''failed to list '' @ resourceType @ '': '') e), w1)
            | (Inr rs, w1) \<Rightarrow> (Inr (filter hasSchedulerAnnotations rs), w1))
      else (Inl (Errorf (''unsupported resource type: '' @ resourceType)), w))"
  unfolding getResourcesWithSchedulerAnnotations_def Let_def getPodsWithSchedulerAnnotations_def getDeploymentsWithSchedulerAnnotations_def getStatefulSetsWithSchedulerAnnotations_def getDaemonSetsWithSchedulerAnnotations_def
  by (auto simp: cleanup_types_def split: prod.split sum.split)

section \<open>One resource\<close>

text \<open>
  The rule ID that the loop reconstructs from a key: the parts between dashes without the first
  two and the last; \<open>None\<close> for a key with fewer than three parts.
\<close>

definition reconstructed_id :: "str \<Rightarrow> str option" where
  "reconstructed_id key =
     (let parts = split_on (CHR ''-'') key
      in if length parts \<ge> 3 then Some (join_with ''-'' (butlast (drop 2 parts))) else None)"

definition orphaned_key :: "str list \<Rightarrow> str \<Rightarrow> bool" where
  "orphaned_key validRuleIDs key =
     (has_prefix key rule_key_prefix \<and>
      (case reconstructed_id key of None \<Rightarrow> False | Some ruleID \<Rightarrow> ruleID \<notin> set validRuleIDs))"

definition cleanupResourceAnnotations :: "'w api \<Rightarrow> str list \<Rightarrow> resource \<Rightarrow> 'w \<Rightarrow> (goerr + bool) \<times> 'w" where
  "cleanupResourceAnnotations api validRuleIDs r w =
     (case res_Annotations r of
        None \<Rightarrow> (Inr False, w)
      | Some annotations \<Rightarrow>
          (let orphanedKeys = filter (orphaned_key validRuleIDs) (mkeys annotations)
           in if length orphanedKeys = 0 then (Inr False, w)
              else (case api_update api (set_annotations (mdel_all orphanedKeys annotations) r) w of
                      (Inl e, w1) \<Rightarrow> (Inl (Wrapf ''failed to update resource: '' e), w1)
                    | (Inr _, w1) \<Rightarrow> (Inr True, w1))))"

text \<open>A batch counts the resources it cleaned; errors are logged and skipped.\<close>

fun cleanupResourceBatch :: "'w api \<Rightarrow> str list \<Rightarrow> resource list \<Rightarrow> nat \<Rightarrow> 'w \<Rightarrow> nat \<times> 'w" where
  "cleanupResourceBatch api validRuleIDs [] cleanedCount w = (cleanedCount, w)"
| "cleanupResourceBatch api validRuleIDs (r # rs) cleanedCount w =
     (case cleanupResourceAnnotations api validRuleIDs r w of
        (Inl e, w1) \<Rightarrow> cleanupResourceBatch api validRuleIDs rs cleanedCount w1
      | (Inr cleaned, w1) \<Rightarrow>
          cleanupResourceBatch api validRuleIDs rs (if cleaned then cleanedCount + 1 else cleanedCount) w1)"

section \<open>All resources\<close>

partial_function (option) batch_loop :: "'w api \<Rightarrow> nat \<Rightarrow> str list \<Rightarrow> resource list \<Rightarrow> nat \<Rightarrow> nat \<Rightarrow> 'w \<Rightarrow>
    (nat \<times> 'w) option" where
  "batch_loop api batchSize validRuleIDs resources i cleanedCount w =
     (if i < length resources
      then (let end = (if i + batchSize > length resources then length resources else i + batchSize);
                batch = take (end - i) (drop i resources);
                res = cleanupResourceBatch api validRuleIDs batch 0 w
            in batch_loop api batchSize validRuleIDs resources (i + batchSize)
                 (cleanedCount + fst res) (snd res))
      else Some (cleanedCount, w))"

definition cleanupResourceType :: "'w api \<Rightarrow> orphaned_annotation_cleanup \<Rightarrow> str list \<Rightarrow> str \<Rightarrow> 'w \<Rightarrow>
    ((goerr + nat) \<times> 'w) option" where
  "cleanupResourceType api oac validRuleIDs resourceType w =
     (case getResourcesWithSchedulerAnnotations api resourceType w of
        (Inl e, w1) \<Rightarrow> Some (Inl (Wrapf ''failed to get resources with scheduler annotations: '' e), w1)
      | (Inr resources, w1) \<Rightarrow>
          map_option (\<lambda>(cleanedCount, w2). (Inr cleanedCount, w2))
            (batch_loop api (oac_batchSize oac) validRuleIDs resources 0 0 w1))"

fun cleanup_all :: "'w api \<Rightarrow> orphaned_annotation_cleanup \<Rightarrow> str list \<Rightarrow> str list \<Rightarrow> 'w \<Rightarrow> 'w option" where
  "cleanup_all api oac validRuleIDs [] w = Some w"
| "cleanup_all api oac validRuleIDs (t # ts) w =
     (case cleanupResourceType api oac validRuleIDs t w of
        None \<Rightarrow> None
      | Some (_, w1) \<Rightarrow> cleanup_all api oac validRuleIDs ts w1)"

definition CleanupOrphanedAnnotations :: "'w api \<Rightarrow> orphaned_annotation_cleanup \<Rightarrow> 'w \<Rightarrow>
    ((goerr + unit) \<times> 'w) option" where
  "CleanupOrphanedAnnotations api oac w =
     (case getValidRuleIDs api w of
        (Inl e, w1) \<Rightarrow> Some (Inl (Wrapf ''failed to get valid rule IDs: '' e), w1)
      | (Inr validRuleIDs, w1) \<Rightarrow>
          map_option (\<lambda>w2. (Inr (), w2)) (cleanup_all api oac validRuleIDs cleanup_types w1))"

fun type_stats :: "'w api \<Rightarrow> str list \<Rightarrow> (str, nat) gomap \<Rightarrow> 'w \<Rightarrow> (str, nat) gomap \<times> 'w" where
  "type_stats api [] stats w = (stats, w)"
| "type_stats api (t # ts) stats w =
     (case getResourcesWithSchedulerAnnotations api t w of
        (Inl e, w1) \<Rightarrow> type_stats api ts stats w1
      | (Inr rs, w1) \<Rightarrow> type_stats api ts (mput (t @ ''_with_scheduler_annotations'') (length rs) stats) w1)"

definition GetCleanupStats :: "'w api \<Rightarrow> 'w \<Rightarrow> (goerr + (str, nat) gomap) \<times> 'w" where
  "GetCleanupStats api w =
     (case type_stats api cleanup_types [] w of
        (stats, w1) \<Rightarrow>
          (case getValidRuleIDs api w1 of
             (Inl e, w2) \<Rightarrow> (Inr stats, w2)
           | (Inr validRuleIDs, w2) \<Rightarrow> (Inr (mput ''valid_rules'' (length validRuleIDs) stats), w2)))"

section \<open>Batches\<close>

lemma cleanup_batch_count:
  "cleanupResourceBatch api ids rs c w =
     (c + fst (cleanupResourceBatch api ids rs 0 w), snd (cleanupResourceBatch api ids rs 0 w))"
proof (induction rs arbitrary: c w)
  case (Cons r rs)
  obtain res w1 where r: "cleanupResourceAnnotations api ids r w = (res, w1)" by fastforce
  show ?case
  proof (cases res)
    case (Inl e)
    then show ?thesis using r Cons.IH[of c w1] by simp
  next
    case (Inr cleaned)
    show ?thesis using r Inr Cons.IH[of "Suc c" w1] Cons.IH[of c w1] Cons.IH[of "Suc 0" w1]
      by (cases cleaned) simp_all
  qed
qed simp

lemma cleanup_batch_append:
  "cleanupResourceBatch api ids (xs @ ys) c w =
     (case cleanupResourceBatch api ids xs c w of (c1, w1) \<Rightarrow> cleanupResourceBatch api ids ys c1 w1)"
  by (induction xs arbitrary: c w) (auto split: prod.splits sum.splits)

lemma cleanup_batches:
  assumes "0 < batchSize"
  shows "batch_loop api batchSize ids rs i c w = Some (cleanupResourceBatch api ids (drop i rs) c w)"
proof (induction "length rs - i" arbitrary: i c w rule: less_induct)
  case less
  show ?case
  proof (cases "i < length rs")
    case False
    then show ?thesis by (simp add: batch_loop.simps)
  next
    case True
    let ?batch = "take batchSize (drop i rs)"
    let ?res = "cleanupResourceBatch api ids ?batch 0 w"
    have batch: "take ((if i + batchSize > length rs then length rs else i + batchSize) - i) (drop i rs) = ?batch"
      using True by simp
    have split: "drop i rs = ?batch @ drop (i + batchSize) rs"
      by (metis add.commute append_take_drop_id drop_drop)
    have "batch_loop api batchSize ids rs i c w =
        batch_loop api batchSize ids rs (i + batchSize) (c + fst ?res) (snd ?res)"
      using True by (subst batch_loop.simps) (simp only: if_True Let_def batch)
    also have "\<dots> = Some (cleanupResourceBatch api ids (drop (i + batchSize) rs) (c + fst ?res) (snd ?res))"
      using True assms by (intro less) linarith
    also have "\<dots> = Some (cleanupResourceBatch api ids (drop i rs) c w)"
      using cleanup_batch_append[of api ids ?batch "drop (i + batchSize) rs" c w]
        cleanup_batch_count[of api ids ?batch c w] unfolding split[symmetric]
      by (simp add: prod.case_eq_if)
    finally show ?thesis .
  qed
qed

lemma cleanup_all_returns: "0 < oac_batchSize oac \<Longrightarrow> \<exists>w1. cleanup_all api oac ids ts w = Some w1"
  by (induction ts arbitrary: w)
    (auto simp: cleanupResourceType_def cleanup_batches split: sum.splits prod.splits option.splits)

section \<open>Keys\<close>

lemma split_on_middle:
  "split_on c (s @ c # t) = split_on c s @ split_on c t"
proof (induction s)
  case (Cons x s)
  obtain y ys where "split_on c s = y # ys" using split_on_not_Nil[of c s] by (cases "split_on c s") auto
  then show ?case using Cons by simp
qed simp

lemma reconstructed_tracking:
  "reconstructed_id (trackingKey ruleID) = Some (join_with ''-'' (tl (split_on (CHR ''-'') ruleID)))"
proof -
  have "split_on (CHR ''-'') (trackingKey ruleID) =
      ''scheduler.k8s.io/rule'' # split_on (CHR ''-'') ruleID @ [''annotations'']"
    using split_on_middle[of "CHR ''-''" "''scheduler.k8s.io/rule-'' @ ruleID" "''annotations''"]
      split_on_middle[of "CHR ''-''" "''scheduler.k8s.io/rule''" ruleID]
    by (simp add: trackingKey_def)
  moreover obtain y ys where "split_on (CHR ''-'') ruleID = y # ys"
    using split_on_not_Nil[of "CHR ''-''" ruleID] by (cases "split_on (CHR ''-'') ruleID") auto
  ultimately show ?thesis by (simp add: reconstructed_id_def Let_def)
qed

lemma prefix_tracking: "has_prefix (trackingKey ruleID) rule_key_prefix"
  by (simp add: has_prefix_def trackingKey_def rule_key_prefix_def)

lemma orphaned_tracking:
  "orphaned_key ids (trackingKey ruleID) \<longleftrightarrow>
     join_with ''-'' (tl (split_on (CHR ''-'') ruleID)) \<notin> set ids"
  by (simp add: orphaned_key_def prefix_tracking reconstructed_tracking)

section \<open>Properties\<close>

text \<open>
  C26: with a positive batch size the cleanup of a resource type ends, and the batches together
  do what one pass over all resources does: no resource is left out or visited twice, and a
  resource that cannot be updated does not keep the others from being cleaned.
\<close>

theorem cleanup_batches_cover_all:
  assumes "0 < oac_batchSize oac" and "getResourcesWithSchedulerAnnotations api t w = (Inr resources, w1)"
  shows "cleanupResourceType api oac ids t w =
      Some (case cleanupResourceBatch api ids resources 0 w1 of (n, w2) \<Rightarrow> (Inr n, w2)) \<and>
    (\<exists>res w2. CleanupOrphanedAnnotations api oac w = Some (res, w2))"
proof
  show "cleanupResourceType api oac ids t w =
      Some (case cleanupResourceBatch api ids resources 0 w1 of (n, w2) \<Rightarrow> (Inr n, w2))"
    using assms by (simp add: cleanupResourceType_def cleanup_batches)
  show "\<exists>res w2. CleanupOrphanedAnnotations api oac w = Some (res, w2)"
    using cleanup_all_returns[OF assms(1), of api]
    by (auto simp: CleanupOrphanedAnnotations_def split: sum.splits prod.splits)
qed

theorem cleanup_batches_cover_all_witness:
  "\<exists>w1. getResourcesWithSchedulerAnnotations mem_api ''pods'' (sample_world []) = (Inr [], w1) \<and>
     cleanupResourceType mem_api NewOrphanedAnnotationCleanup [''ns/r''] ''pods'' (sample_world []) = Some (Inr 0, w1)"
proof -
  have "getResourcesWithSchedulerAnnotations mem_api ''pods'' (sample_world []) = (Inr [], sample_world [])"
    by (simp add: getResourcesWithSchedulerAnnotations_alt cleanup_types_def mem_api_def)
  then show ?thesis
    using cleanup_batches_cover_all[of NewOrphanedAnnotationCleanup mem_api "''pods''" "sample_world []" "[]"]
    by (simp add: NewOrphanedAnnotationCleanup_def)
qed


definition live_rule :: rule where
  "live_rule = \<lparr>rule_Name = ''r'', rule_Namespace = ''ns'', rule_DeletionTimestamp = None,
     rule_Finalizers = [], rule_Spec = undefined, rule_Status = undefined\<rparr>"

definition live_api :: "mem_world api" where
  "live_api = mem_api\<lparr>api_listRules := (\<lambda>w. (Inr [live_rule], w))\<rparr>"


end
