(* ===== verification/Pass_Invariant.thy ===== *)
theory Pass_Invariant
  imports Manager_Setup State_Recovery Orphan_Cleanup
begin

text \<open>
  What every activity of the controller keeps.  The locale \<open>pass_invariant\<close> has four predicates: \<open>ok\<close>
  of the rules that are stored, \<open>T\<close> of the times the clock shows, \<open>V\<close> of the resource manager and
  \<open>P\<close> of the scheduler.  It asks for their laws under the elementary operations, and gives that a
  pass of \<open>Reconcile\<close>, an execution, a recovery and a cleanup keep them, whatever errors and retries
  there are.
\<close>

section \<open>Retries\<close>

lemma retry_loop_inv:
  assumes "I s" and "\<And>s. I s \<Longrightarrow> I (snd (operation s))" and "\<And>d s. I s \<Longrightarrow> I (snd (pause d s))"
  shows "I (snd (retry_loop eh again operation pause nanos name attempt lastErr s))"
  using assms
proof (induction eh again operation pause nanos name attempt lastErr s rule: retry_loop.induct)
  case (1 eh again operation pause nanos name attempt lastErr s)
  obtain r s1 where op: "operation s = (r, s1)" by fastforce
  then have s1: "I s1" using 1(3)[OF 1(2)] by simp
  obtain c s2 where p: "pause (CalculateDelay (nanos s1) eh (attempt + 1)) s1 = (c, s2)" by fastforce
  then have s2: "I s2" using 1(4)[OF s1, of "CalculateDelay (nanos s1) eh (attempt + 1)"] by simp
  note ih = 1(1)[OF _ op[symmetric] _ _ _ p[symmetric] _ s2 1(3,4)]
  show ?case
    using op p s1 s2 1(2) ih by (subst retry_loop.simps) (auto split: sum.split option.split)
qed

lemma retried_inv:
  assumes "I s" and "\<And>s. I s \<Longrightarrow> I (snd (op s))" and "\<And>d x w. I (x, w) \<Longrightarrow> I (x, snd (env_pause env d w))"
  shows "I (snd (retried env eh name op s))"
  unfolding retried_def RetryWithBackoff_def using assms
  by (auto split: option.split prod.split intro!: retry_loop_inv[where I = I]) (metis snd_conv)

lemma retried_ok:
  assumes "op s = (Inr (), s1)"
  shows "retried env (Some DefaultRetryConfig) name op s = (Inr (), s1)"
  using assms by (simp add: retried_def RetryWithBackoff_def retry_loop.simps DefaultRetryConfig_def)

lemma retried_permanent:
  assumes "op s = (Inl e, s1)" and "\<not> ShouldRetry DefaultRetryConfig (Some e) 0"
  shows "retried env (Some DefaultRetryConfig) name op s =
    (Inl (attempts_error DefaultRetryConfig name (Some e)), s1)"
proof -
  have "0 \<le> MaxRetries DefaultRetryConfig" by (simp add: DefaultRetryConfig_def)
  then show ?thesis
    using assms by (simp add: retried_def RetryWithBackoff_def retry_loop.simps[of DefaultRetryConfig])
qed

lemma attempts_error_reason [simp]:
  "is_reason x (attempts_error eh name (Some e)) = is_reason x e"
  by (simp add: attempts_error_def Let_def)

lemma not_found_permanent: "is_reason NotFound e \<Longrightarrow> \<not> ShouldRetry DefaultRetryConfig (Some e) 0"
  by (simp add: ShouldRetry_def CategorizeError_def DefaultRetryConfig_def)

section \<open>The active rule\<close>

definition activated :: "gotime \<Rightarrow> rule \<Rightarrow> rule" where
  "activated now r = setCondition now ConditionTypeReady ConditionTrue ReasonRuleReady ''Rule is ready and scheduled''
    (if st_Phase (rule_Status r) \<in> {[], PhasePending}
     then updateRuleStatus now controller_PhaseActive ''Rule is active and scheduled'' r else r)"

lemma updateRuleActiveStatus_eq: "updateRuleActiveStatus env rc r w = (activated (env_now env w) r, w)"
  by (simp add: updateRuleActiveStatus_def activated_def Let_def) (simp add: phases)

section \<open>The two halves of a pass\<close>

text \<open>
  A pass takes the mutex of the scheduler twice: to schedule the rule and, after it has released
  it, to ask for the next execution.  \<open>reconcile_begin\<close> is a pass up to the end of the scheduling:
  it gives the result of a pass that ends there, or the rule for the rest, \<open>reconcile_finish\<close>.
\<close>

definition reconcile_schedule :: "('w, 'l) env \<Rightarrow> reconciler \<Rightarrow> nsname \<Rightarrow> rule \<Rightarrow> 'l controller \<times> 'w \<Rightarrow>
    (outcome may_panic + rule) \<times> 'l controller \<times> 'w" where
  "reconcile_schedule env rc req r = (\<lambda>(ct, w).
     case ensureFinalizer env rc req r w of
       ((r1, finalizerResult, finalizerErr), w1) \<Rightarrow>
     if finalizerErr \<noteq> None \<or> cr_RequeueAfter finalizerResult > 0 \<or> cr_Requeue finalizerResult
     then (Inl (Ret (finalizerResult, finalizerErr)), ct, w1)
     else case validateAndUpdateRuleOnFailure env rc ct r1 w1 of
       ((Some _, _), w2) \<Rightarrow> (Inl (Ret (no_requeue, None)), ct, w2)
     | ((None, r2), w2) \<Rightarrow>
     (case scheduleRuleWithErrorHandling env rc r2 (ct, w2) of
       (Panic m, ct3, w3) \<Rightarrow> (Inl (Panic m), ct3, w3)
     | (Ret (r3, scheduleResult, scheduleErr), ct3, w3) \<Rightarrow>
     if scheduleErr \<noteq> None then (Inl (Ret (scheduleResult, scheduleErr)), ct3, w3)
     else (Inr r3, ct3, w3)))"

definition reconcile_finish :: "('w, 'l) env \<Rightarrow> reconciler \<Rightarrow> 'l controller \<Rightarrow> rule \<Rightarrow> 'w \<Rightarrow> outcome \<times> 'w" where
  "reconcile_finish env rc ct3 r3 w3 =
     (case processNextExecutionTime env ct3 r3 w3 of
       ((r4, nextExecResult, nextExecErr), w4) \<Rightarrow>
     if nextExecErr \<noteq> None \<or> cr_RequeueAfter nextExecResult > 0
     then ((nextExecResult, nextExecErr), w4)
     else case updateRuleActiveStatus env rc r4 w4 of
       (r5, w5) \<Rightarrow>
     (case updateRuleStatusWithErrorHandling env rc r5 w5 of
       ((statusResult, statusErr), w6) \<Rightarrow>
     if statusErr \<noteq> None then ((statusResult, statusErr), w6)
     else ((requeue_after (10 * time_minute), None), w6)))"

definition reconcile_begin :: "('w, 'l) env \<Rightarrow> reconciler \<Rightarrow> nsname \<Rightarrow> 'l controller \<times> 'w \<Rightarrow>
    (outcome may_panic + rule) \<times> 'l controller \<times> 'w" where
  "reconcile_begin env rc req st =
     (case fetchRule env rc req st of
        ((rule, fetchResult, fetchErr), st1) \<Rightarrow>
      if fetchErr \<noteq> None then (Inl (Ret (fetchResult, fetchErr)), st1)
      else case rule of
        None \<Rightarrow> (Inl (Panic nil_deref), st1)
      | Some r \<Rightarrow>
          if rule_DeletionTimestamp r \<noteq> None
          then (case handleDeletion env rc r st1 of (res, st2) \<Rightarrow> (Inl (Ret res), st2))
          else reconcile_schedule env rc req r st1)"

text \<open>A panic becomes an error if there is a recovery manager.\<close>

definition pass_outcome :: "reconciler \<Rightarrow> outcome may_panic \<Rightarrow> outcome may_panic" where
  "pass_outcome rc x = (case x of
     Panic m \<Rightarrow> if rec_RecoveryManager rc \<noteq> None
       then Ret (requeue_after (5 * time_minute), Some (Errorf (''panic in reconcile: '' @ m))) else Panic m
   | Ret res \<Rightarrow> Ret res)"

lemma reconcile_live_halves:
  "reconcile_live env rc req r st =
     (case reconcile_schedule env rc req r st of
        (Inl x, st1) \<Rightarrow> (x, st1)
      | (Inr r3, ct3, w3) \<Rightarrow> (case reconcile_finish env rc ct3 r3 w3 of (res, w4) \<Rightarrow> (Ret res, ct3, w4)))"
proof -
  obtain ct w where st: "st = (ct, w)" by fastforce
  obtain r1 fr fe w1 where 1: "ensureFinalizer env rc req r w = ((r1, fr, fe), w1)" by (metis prod.exhaust)
  obtain ve r2 w2 where 2: "validateAndUpdateRuleOnFailure env rc ct r1 w1 = ((ve, r2), w2)" by (metis prod.exhaust)
  obtain x ct3 w3 where 3: "scheduleRuleWithErrorHandling env rc r2 (ct, w2) = (x, ct3, w3)" by (metis prod.exhaust)
  show ?thesis
  proof (cases ve; cases x)
    fix y assume "ve = None" "x = Ret y"
    then obtain r3 sr se where y: "x = Ret (r3, sr, se)" by (metis prod.exhaust)
    obtain r4 nr ne w4 where 4: "processNextExecutionTime env ct3 r3 w3 = ((r4, nr, ne), w4)" by (metis prod.exhaust)
    obtain r5 w5 where 5: "updateRuleActiveStatus env rc r4 w4 = (r5, w5)" by fastforce
    obtain sr' se' w6 where 6: "updateRuleStatusWithErrorHandling env rc r5 w5 = ((sr', se'), w6)" by (metis prod.exhaust)
    show ?thesis
      using \<open>ve = None\<close> y by (simp add: st reconcile_live_def reconcile_schedule_def reconcile_finish_def 1 2 3 4 5 6)
  qed (simp_all add: st reconcile_live_def reconcile_schedule_def 1 2 3)
qed

lemma Reconcile_halves:
  "Reconcile env rc req st =
     (case reconcile_begin env rc req st of
        (Inl x, st1) \<Rightarrow> (pass_outcome rc x, st1)
      | (Inr r3, ct3, w3) \<Rightarrow> (case reconcile_finish env rc ct3 r3 w3 of (res, w4) \<Rightarrow> (Ret res, ct3, w4)))"
proof -
  have "doReconcile env rc req st =
     (case reconcile_begin env rc req st of
        (Inl x, st1) \<Rightarrow> (x, st1)
      | (Inr r3, ct3, w3) \<Rightarrow> (case reconcile_finish env rc ct3 r3 w3 of (res, w4) \<Rightarrow> (Ret res, ct3, w4)))"
    by (simp add: doReconcile_def reconcile_begin_def reconcile_live_halves split: prod.split option.split)
  then show ?thesis
    by (auto simp: Reconcile_def safeReconcile_def pass_outcome_def split: prod.split sum.split may_panic.split)
qed

section \<open>Calls that do not touch rules\<close>

text \<open>\<open>I\<close> is a property of the world that the calls for resources, events and the log keep.\<close>

definition calm :: "('w \<Rightarrow> bool) \<Rightarrow> 'w api \<Rightarrow> bool" where
  "calm I api \<longleftrightarrow> (\<forall>w. I w \<longrightarrow>
     (\<forall>d. I (api_sleep api d w)) \<and> (\<forall>t s ns. I (snd (api_list api t s ns w))) \<and>
     (\<forall>k. I (snd (api_get api k w))) \<and> (\<forall>r. I (snd (api_update api r w))) \<and>
     (\<forall>e. I (snd (api_createEvent api e w))) \<and> (\<forall>e. I (api_log api e w)))"

lemma calmD:
  assumes "calm I api" and "I w"
  shows "I (api_sleep api d w)" "I (snd (api_list api t s ns w))" "I (snd (api_get api k w))"
    "I (snd (api_update api r w))" "I (api_log api e w)"
  using assms unfolding calm_def by blast+

lemma calm_audit:
  assumes "calm I api" and "I w"
  shows "I (LogAnnotationApply api i n ns r a b e w)" "I (LogAnnotationRemove api i n ns r ks b e w)"
    "I (LogValidationFailure api i n ns a err w)" "I (LogRuleCreation api i n ns a w)"
    "I (LogRuleDeletion api i n ns a w)"
  using calmD(5)[OF assms]
  by (simp_all add: LogAnnotationApply_def LogAnnotationRemove_def LogValidationFailure_def
      LogRuleCreation_def LogRuleDeletion_def logEvent_def)

lemma calm_audit_all:
  assumes "\<And>r w. I w \<Longrightarrow> I (f r w)" and "I w"
  shows "I (audit_all f rs w)"
proof -
  have "I (fold f rs w)" using assms(2) by (induction rs arbitrary: w) (simp_all add: assms(1))
  then show ?thesis by (simp add: audit_all_def)
qed

lemma calm_update_loop:
  assumes "calm I api" and "I w"
  shows "I (snd (update_loop api reapply fail ex key n r w))"
  using assms(2)
proof (induction n arbitrary: r w)
  case (Suc n)
  obtain u w1 where u: "api_update api r w = (u, w1)" by fastforce
  obtain g w2 where g: "api_get api key w1 = (g, w2)" by fastforce
  have "I w1" using calmD(4)[OF assms(1) Suc.prems, of r] u by simp
  then have "I w2" using calmD(3)[OF assms(1), of w1 key] g by simp
  then have "I (api_sleep api d w2)" for d by (rule calmD(1)[OF assms(1)])
  then show ?case using u g \<open>I w1\<close> \<open>I w2\<close> Suc.IH by (auto split: sum.split)
qed simp

lemma calm_resource:
  assumes "calm I api" and "I w"
  shows "I (snd (applyAnnotationsToResource api r a i w))" "I (snd (updateResourceWithRetry api c r w))"
    "I (snd (removeAnnotationsFromResource api r ks i w))" "I (snd (removeAnnotationKeysFromResource api r ks i w))"
  using calm_update_loop[OF assms] calmD(4)[OF assms] assms(2)
  by (auto simp: applyAnnotationsToResource_def updateResourceWithRetry_def removeAnnotationsFromResource_def
      removeAnnotationKeysFromResource_def Let_def split: option.split sum.split prod.split)
     (metis snd_conv)+

lemma calm_rate_wait:
  assumes "calm I (dep_api d)" and "I w" shows "I (snd (snd (rate_wait d t ns (rm, w))))"
  using assms(2) calmD(1)[OF assms]
  by (auto simp: rate_wait_def split: option.split prod.split)

lemma calm_list_types:
  assumes "calm I api" and "I w" shows "I (snd (list_types api sel ts ns w))"
proof -
  have "I (snd (getResourcesByType api t sel ns v))" if "I v" for t v
    using that calmD(2)[OF assms(1) that, of t "Some sel" ns]
    by (auto simp: getResourcesByType_alt split: prod.splits sum.splits)
  then have "I (snd (for_each (\<lambda>t. getResourcesByType api t sel ns) ts w))"
    by (intro for_each_inv[where I = I] assms(2))
  then show ?thesis by (simp add: list_types_def prod.case_eq_if)
qed

lemma calm_query:
  assumes "calm I (dep_api d)" and "I w"
  shows "I (snd (snd (GetMatchingResources d sel ts ns (rm, w))))"
proof -
  obtain r1 rm1 w1 where 1: "rate_wait d OperationTypeQuery ns (rm, w) = (r1, rm1, w1)" using prod_cases3 by blast
  obtain r2 rm2 w2 where 2: "cache_lookup d sel ts ns (rm1, w1) = (r2, rm2, w2)" using prod_cases3 by blast
  obtain rs w3 where 3: "list_types (dep_api d) sel ts ns w2 = (rs, w3)" by fastforce
  have "I w1" using calm_rate_wait[OF assms, of OperationTypeQuery ns rm] 1 by simp
  moreover have "w2 = w1" using 2 by (auto simp: cache_lookup_def split: option.splits prod.splits)
  ultimately have "I w2" "I w3" using calm_list_types[OF assms(1), of w2 sel ts ns] 3 by simp_all
  then show ?thesis
    using 1 2 3 \<open>I w1\<close>
    by (simp add: GetMatchingResources_def cache_fill_def split: sum.split option.split)
qed

text \<open>The query and the loop that the four operations on all matching resources share.\<close>

lemma calm_apply:
  assumes "calm I (dep_api d)" and "I w"
  shows "I (snd (snd (ApplyAnnotations d sel a ts ns i (rm, w))))"
proof -
  obtain r1 rm1 w1 where 1: "rate_wait d OperationTypeApply ns (rm, w) = (r1, rm1, w1)" using prod_cases3 by blast
  obtain r2 rm2 w2 where 2: "GetMatchingResources d sel ts ns (rm1, w1) = (r2, rm2, w2)" using prod_cases3 by blast
  have w1: "I w1" using calm_rate_wait[OF assms, of OperationTypeApply ns rm] 1 by simp
  then have w2: "I w2" using calm_query[OF assms(1), of w1 sel ts ns rm1] 2 by simp
  have "I (snd (apply_and_audit (dep_api d) a ns i r v))" if "I v" for r v
    using calm_resource(1)[OF assms(1) that, of r a i] calm_audit(1)[OF assms(1)]
    by (auto simp: apply_and_audit_def split: prod.splits sum.splits)
  then have "I (snd (for_each (apply_and_audit (dep_api d) a ns i) rs w2))" for rs
    using w2 by (intro for_each_inv[where I = I])
  then show ?thesis
    using 1 2 w1 w2 assms(2) calm_audit(3)[OF assms(1) w1]
    by (auto simp: ApplyAnnotations_def prod.case_eq_if split: sum.split)
qed

lemma calm_remove:
  assumes "calm I (dep_api d)" and "I w"
  shows "I (snd (snd (RemoveAnnotations d sel ks ts ns i (rm, w))))"
proof -
  obtain r1 rm1 w1 where 1: "rate_wait d OperationTypeRemove ns (rm, w) = (r1, rm1, w1)" using prod_cases3 by blast
  obtain r2 rm2 w2 where 2: "GetMatchingResources d sel ts ns (rm1, w1) = (r2, rm2, w2)" using prod_cases3 by blast
  have w1: "I w1" using calm_rate_wait[OF assms, of OperationTypeRemove ns rm] 1 by simp
  then have w2: "I w2" using calm_query[OF assms(1), of w1 sel ts ns rm1] 2 by simp
  have "I (snd (remove_and_audit (dep_api d) ks ns i r v))" if "I v" for r v
    using calm_resource(3)[OF assms(1) that, of r ks i] calm_audit(2)[OF assms(1)]
    by (auto simp: remove_and_audit_def split: prod.splits sum.splits)
  then have "I (snd (for_each (remove_and_audit (dep_api d) ks ns i) rs w2))" for rs
    using w2 by (intro for_each_inv[where I = I])
  then show ?thesis
    using 1 2 w1 w2 assms(2)
    by (auto simp: RemoveAnnotations_def prod.case_eq_if split: sum.split)
qed

lemma calm_group_loop:
  assumes "calm I (dep_api d)" and "I w"
  shows "I (snd (group_loop d rm g i tc cr rs res w))"
  using assms(2)
proof (induction rs arbitrary: res w)
  case (Cons r rs)
  obtain rr w1 where 1: "applyAnnotationOperationsToResource d rm r (grp_Operations g) i
      (tc\<lparr>ctx_Resource := Some r\<rparr>) cr w = (rr, w1)" by fastforce
  have "I w1"
    using 1 calm_resource(2)[OF assms(1) Cons.prems] Cons.prems
    by (auto simp: applyAnnotationOperationsToResource_def Let_def split: prod.splits sum.splits if_splits)
       (metis snd_conv)+
  then show ?case using 1 Cons.IH by (simp add: Let_def)
qed simp

lemma calm_remove_group_loop:
  assumes "calm I api" and "I w"
  shows "I (snd (remove_group_loop api ks i rs res w))"
  using assms(2)
proof (induction rs arbitrary: res w)
  case (Cons r rs)
  obtain x w1 where 1: "removeAnnotationKeysFromResource api r ks i w = (x, w1)" by fastforce
  then have "I w1" using calm_resource(4)[OF assms(1) Cons.prems, of r ks i] by simp
  then show ?case using 1 Cons.IH by (cases x) simp_all
qed simp

lemma calm_groups:
  assumes "calm I (dep_api d)" and "I w"
  shows "I (snd (snd (ApplyAnnotationGroups d sel gs ts ns i tc cr (rm, w))))"
    and "I (snd (snd (RemoveAnnotationGroups d sel gs ts ns i (rm, w))))"
proof -
  obtain r1 rm1 w1 where 1: "GetMatchingResources d sel ts ns (rm, w) = (r1, rm1, w1)" using prod_cases3 by blast
  have w1: "I w1" using calm_query[OF assms, of sel ts ns rm] 1 by simp
  have "I (snd (for_each (\<lambda>g. applyAnnotationGroup d rm1 rs g i tc cr) gs w1))" for rs
    using w1 by (intro for_each_inv[where I = I]) (simp_all add: applyAnnotationGroup_def calm_group_loop[OF assms(1)])
  then show "I (snd (snd (ApplyAnnotationGroups d sel gs ts ns i tc cr (rm, w))))"
    using 1 w1 assms(2) by (auto simp: ApplyAnnotationGroups_def prod.case_eq_if split: sum.split)
  have "I (snd (for_each (\<lambda>g. removeAnnotationGroup (dep_api d) rs g i) gs w1))" for rs
    using w1 by (intro for_each_inv[where I = I])
      (simp_all add: removeAnnotationGroup_def calm_remove_group_loop[OF assms(1)])
  then show "I (snd (snd (RemoveAnnotationGroups d sel gs ts ns i (rm, w))))"
    using 1 w1 assms(2) by (auto simp: RemoveAnnotationGroups_def prod.case_eq_if split: sum.split)
qed

section \<open>The policy of the resource manager\<close>

text \<open>The validator and the template engine are set once and never changed.\<close>

definition same_policy :: "'l resource_manager \<Rightarrow> 'l resource_manager \<Rightarrow> bool" where
  "same_policy rm rm' \<longleftrightarrow> rm_Validator rm' = rm_Validator rm \<and> rm_TemplateEngine rm' = rm_TemplateEngine rm"

lemma same_policy_simps [simp]:
  "same_policy rm rm" "same_policy rm (rm\<lparr>rm_Cache := c\<rparr>) " "same_policy rm (rm\<lparr>rm_RateLimiter := l\<rparr>)"
  "same_policy rm (rm1\<lparr>rm_Cache := c\<rparr>) = same_policy rm rm1"
  "same_policy rm (rm1\<lparr>rm_RateLimiter := l\<rparr>) = same_policy rm rm1"
  "same_policy rm (cache_invalidate ns rm1) = same_policy rm rm1"
  by (simp_all add: same_policy_def cache_invalidate_def)

lemma policy_wait: "same_policy rm rm1 \<Longrightarrow> same_policy rm (fst (snd (rate_wait d t ns (rm1, w))))"
  by (simp add: rate_wait_def prod.case_eq_if split: option.split)

lemma policy_query: "same_policy rm rm1 \<Longrightarrow> same_policy rm (fst (snd (GetMatchingResources d sel ts ns (rm1, w))))"
proof -
  assume a: "same_policy rm rm1"
  obtain r2 rm2 w2 where 1: "rate_wait d OperationTypeQuery ns (rm1, w) = (r2, rm2, w2)" using prod_cases3 by blast
  obtain r3 rm3 w3 where 2: "cache_lookup d sel ts ns (rm2, w2) = (r3, rm3, w3)" using prod_cases3 by blast
  obtain rs w4 where 3: "list_types (dep_api d) sel ts ns w3 = (rs, w4)" by fastforce
  have "same_policy rm rm2" using policy_wait[OF a, of d OperationTypeQuery ns w] 1 by simp
  moreover have "same_policy rm rm3"
    using 2 \<open>same_policy rm rm2\<close> by (auto simp: cache_lookup_def prod.case_eq_if split: option.splits)
  ultimately show ?thesis
    using 1 2 3 by (simp add: GetMatchingResources_def cache_fill_def split: sum.split option.split)
qed

lemma policy_apply: "same_policy rm (fst (snd (ApplyAnnotations d sel a ts ns i (rm, w))))"
proof -
  obtain r1 rm1 w1 where 1: "rate_wait d OperationTypeApply ns (rm, w) = (r1, rm1, w1)" using prod_cases3 by blast
  obtain r2 rm2 w2 where 2: "GetMatchingResources d sel ts ns (rm1, w1) = (r2, rm2, w2)" using prod_cases3 by blast
  have "same_policy rm rm1" using policy_wait[of rm rm d OperationTypeApply ns w] 1 by simp
  moreover from this have "same_policy rm rm2" using policy_query[of rm rm1 d sel ts ns w1] 2 by simp
  ultimately show ?thesis
    using 1 2 by (simp add: ApplyAnnotations_def prod.case_eq_if split: sum.split)
qed

lemma policy_remove: "same_policy rm (fst (snd (RemoveAnnotations d sel ks ts ns i (rm, w))))"
proof -
  obtain r1 rm1 w1 where 1: "rate_wait d OperationTypeRemove ns (rm, w) = (r1, rm1, w1)" using prod_cases3 by blast
  obtain r2 rm2 w2 where 2: "GetMatchingResources d sel ts ns (rm1, w1) = (r2, rm2, w2)" using prod_cases3 by blast
  have "same_policy rm rm1" using policy_wait[of rm rm d OperationTypeRemove ns w] 1 by simp
  moreover from this have "same_policy rm rm2" using policy_query[of rm rm1 d sel ts ns w1] 2 by simp
  ultimately show ?thesis
    using 1 2 by (simp add: RemoveAnnotations_def prod.case_eq_if split: sum.split)
qed

lemma policy_groups:
  "same_policy rm (fst (snd (ApplyAnnotationGroups d sel gs ts ns i tc cr (rm, w))))"
  "same_policy rm (fst (snd (RemoveAnnotationGroups d sel gs ts ns i (rm, w))))"
proof -
  obtain r2 rm2 w2 where 2: "GetMatchingResources d sel ts ns (rm, w) = (r2, rm2, w2)" using prod_cases3 by blast
  then have "same_policy rm rm2" using policy_query[of rm rm d sel ts ns w] by simp
  then show "same_policy rm (fst (snd (ApplyAnnotationGroups d sel gs ts ns i tc cr (rm, w))))"
    and "same_policy rm (fst (snd (RemoveAnnotationGroups d sel gs ts ns i (rm, w))))"
    using 2 by (simp_all add: ApplyAnnotationGroups_def RemoveAnnotationGroups_def prod.case_eq_if split: sum.split)
qed

section \<open>Admitted rules\<close>

text \<open>
  What the validation of a rule asks of its specification: known resource types, annotations or
  groups but not both, annotations that pass the validator of the resource manager and the
  configured one (\<open>sv\<close>), groups that pass the former, a known strategy, sound template variables.
\<close>

definition annotations_admitted ::
  "annotation_validator option \<Rightarrow> 'l resource_manager \<Rightarrow> (str, str) gomap \<Rightarrow> annotation_group list \<Rightarrow> bool" where
  "annotations_admitted sv rm annotations groups \<longleftrightarrow>
     (if annotations = [] then groups \<noteq> [] \<and> ValidateAnnotationGroups rm groups = Inr ()
      else groups = [] \<and> ValidateAnnotations (rm_Validator rm) annotations = Inr () \<and>
        (case sv of None \<Rightarrow> True | Some v \<Rightarrow> ValidateAnnotations v annotations = Inr ()))"

definition spec_admitted :: "annotation_validator option \<Rightarrow> 'l resource_manager \<Rightarrow> rule_spec \<Rightarrow> bool" where
  "spec_admitted sv rm s \<longleftrightarrow> set (spec_TargetResources s) \<subseteq> set supportedTypes \<and>
     annotations_admitted sv rm (spec_Annotations s) (spec_AnnotationGroups s) \<and>
     spec_ConflictResolution s \<in> insert [] (set validStrategies)"

lemma validateRule_admitted:
  assumes "fst (validateRule env rc ct r w) = Inr ()"
  shows "spec_admitted (rec_SecurityValidator rc) (ct_ResourceManager ct) (rule_Spec r)"
proof -
  obtain u where types: "validateResourceTypes r = Inr u"
    using assms by (auto simp: validateRule_def split: sum.splits)
  have config: "fst (validateAnnotationsConfig env rc ct r w) = Inr ()" and strategy: "validateConflictResolution r = Inr ()"
    using assms by (auto simp: validateRule_def prod.case_eq_if split: sum.splits)
  have "set (spec_TargetResources (rule_Spec r)) \<subseteq> set supportedTypes"
    using types by (auto simp: validateResourceTypes_def ValidateResourceTypes_def Let_def check_that_def
        filter_empty_conv split: if_splits)
  moreover have "annotations_admitted (rec_SecurityValidator rc) (ct_ResourceManager ct)
      (spec_Annotations (rule_Spec r)) (spec_AnnotationGroups (rule_Spec r))"
    using config by (auto simp: annotations_admitted_def validateAnnotationsConfig_def validateLegacyAnnotations_def
        validateAnnotationGroups_def Let_def split: if_splits option.splits sum.splits)
  moreover have "spec_ConflictResolution (rule_Spec r) \<in> insert [] (set validStrategies)"
    using strategy by (auto simp: validateConflictResolution_def Let_def list_ex_iff)
  ultimately show ?thesis by (simp add: spec_admitted_def)
qed

section \<open>The server of the rules\<close>

text \<open>
  What is asked of the server: where the property \<open>I\<close> of its state holds, the clock shows a time
  of \<open>T\<close>, the rules it gives are \<open>ok\<close>, and it keeps \<open>I\<close> when it stores a rule that is.
\<close>

definition rule_server ::
  "(rule \<Rightarrow> bool) \<Rightarrow> (gotime \<Rightarrow> bool) \<Rightarrow> ('w \<Rightarrow> bool) \<Rightarrow> ('w, 'l) env \<Rightarrow> bool" where
  "rule_server ok T I env \<longleftrightarrow> calm I (env_api env) \<and> (\<forall>w. I w \<longrightarrow> T (env_now env w)) \<and>
     (\<forall>d w. I w \<longrightarrow> I (snd (env_pause env d w))) \<and>
     (\<forall>w. I w \<longrightarrow> I (snd (api_listRules (env_api env) w))) \<and>
     (\<forall>n w x w1. I w \<and> api_getRule (env_api env) n w = (x, w1) \<longrightarrow> I w1 \<and> (\<forall>r. x = Inr r \<longrightarrow> ok r)) \<and>
     (\<forall>r w x w1. I w \<and> ok r \<and> api_updateRule (env_api env) r w = (x, w1) \<longrightarrow>
        I w1 \<and> (\<forall>r. x = Inr r \<longrightarrow> ok r)) \<and>
     (\<forall>r w x w1. I w \<and> ok r \<and> api_updateStatus (env_api env) r w = (x, w1) \<longrightarrow>
        I w1 \<and> (\<forall>r. x = Inr r \<longrightarrow> ok r))"

lemma rule_serverD:
  assumes "rule_server ok T I env"
  shows "calm I (env_api env)" "I w \<Longrightarrow> I (snd (env_pause env d w))"
    "I w \<Longrightarrow> I (snd (api_listRules (env_api env) w))"
    "I w \<Longrightarrow> api_getRule (env_api env) n w = (x, w1) \<Longrightarrow> I w1 \<and> (\<forall>r. x = Inr r \<longrightarrow> ok r)"
    "I w \<Longrightarrow> ok r \<Longrightarrow> api_updateRule (env_api env) r w = (x, w1) \<Longrightarrow> I w1 \<and> (\<forall>r. x = Inr r \<longrightarrow> ok r)"
    "I w \<Longrightarrow> ok r \<Longrightarrow> api_updateStatus (env_api env) r w = (x, w1) \<Longrightarrow> I w1 \<and> (\<forall>r. x = Inr r \<longrightarrow> ok r)"
    "I w \<Longrightarrow> T (env_now env w)"
  using assms[unfolded rule_server_def] by metis+

abbreviation holds_rule :: "(rule \<Rightarrow> bool) \<Rightarrow> ('w \<Rightarrow> bool) \<Rightarrow> rule \<times> 'w \<Rightarrow> bool" where
  "holds_rule ok I s \<equiv> ok (fst s) \<and> I (snd s)"

lemma get_rule_keeps:
  assumes "rule_server ok T I env" and "I w"
    and "retried env eh name (get_rule env req) (None, w) = (x, r, w1)"
  shows "I w1 \<and> (\<forall>r'. r = Some r' \<longrightarrow> ok r')"
proof -
  let ?J = "\<lambda>s. I (snd s) \<and> (\<forall>r'. fst s = Some r' \<longrightarrow> ok r')"
  have "?J (snd (get_rule env req s))" if "?J s" for s
  proof -
    obtain p v where s: "s = (p, v)" by fastforce
    obtain y v1 where y: "api_getRule (env_api env) req v = (y, v1)" by fastforce
    have "I v" using that s by simp
    from rule_serverD(4)[OF assms(1) this y] show ?thesis
      using s y by (cases y) (simp_all add: get_rule_def)
  qed
  then have "?J (snd (retried env eh name (get_rule env req) (None, w)))"
    using assms(2) rule_serverD(2)[OF assms(1)] by (intro retried_inv[where I = ?J]) auto
  then show ?thesis using assms(3) by simp
qed

lemma update_keeps:
  assumes "rule_server ok T I env" and "ok r" and "I w"
  shows "retried env eh name (update_rule env) (r, w) = (x, r1, w1) \<Longrightarrow> ok r1 \<and> I w1"
    and "retried env eh name (update_status env) (r, w) = (x, r1, w1) \<Longrightarrow> ok r1 \<and> I w1"
    and "update_status env (r, w) = (x, r1, w1) \<Longrightarrow> ok r1 \<and> I w1"
    and "update_rule env (r, w) = (x, r1, w1) \<Longrightarrow> ok r1 \<and> I w1"
proof -
  have u: "holds_rule ok I (snd (update_rule env s))" "holds_rule ok I (snd (update_status env s))"
    if hs: "holds_rule ok I s" for s
  proof -
    obtain p v where s: "s = (p, v)" "ok p" "I v" using hs by (cases s) simp
    obtain y v1 where y: "api_updateRule (env_api env) p v = (y, v1)" by fastforce
    obtain z v2 where z: "api_updateStatus (env_api env) p v = (z, v2)" by fastforce
    show "holds_rule ok I (snd (update_rule env s))"
      using rule_serverD(5)[OF assms(1) s(3,2) y] s y by (cases y) (simp_all add: update_rule_def)
    show "holds_rule ok I (snd (update_status env s))"
      using rule_serverD(6)[OF assms(1) s(3,2) z] s z by (cases z) (simp_all add: update_status_def)
  qed
  note run = retried_inv[where I = "holds_rule ok I" and s = "(r, w)" and env = env and eh = eh and name = name]
  show "ok r1 \<and> I w1" if "retried env eh name (update_rule env) (r, w) = (x, r1, w1)"
    using run[of "update_rule env"] u assms that rule_serverD(2)[OF assms(1)] by simp
  show "ok r1 \<and> I w1" if "retried env eh name (update_status env) (r, w) = (x, r1, w1)"
    using run[of "update_status env"] u assms that rule_serverD(2)[OF assms(1)] by simp
  show "ok r1 \<and> I w1" if "update_status env (r, w) = (x, r1, w1)"
    using u(2)[of "(r, w)"] assms that by simp
  show "ok r1 \<and> I w1" if "update_rule env (r, w) = (x, r1, w1)"
    using u(1)[of "(r, w)"] assms that by simp
qed

section \<open>The laws\<close>

abbreviation recovery_of :: "('w, 'l) env \<Rightarrow> 'w recovery_env" where
  "recovery_of env \<equiv> \<lparr>rv_api = env_api env, rv_pause = env_pause env\<rparr>"

abbreviation pass_ok :: "('w \<Rightarrow> bool) \<Rightarrow> ('l resource_manager \<Rightarrow> bool) \<Rightarrow> (time_scheduler \<Rightarrow> bool) \<Rightarrow>
    'l controller \<Rightarrow> 'w \<Rightarrow> bool" where
  "pass_ok I V P ct w \<equiv> I w \<and> V (ct_ResourceManager ct) \<and> P (ct_Scheduler ct)"

locale pass_invariant =
  fixes cron :: cron_parser and sv :: "annotation_validator option"
    and ok :: "rule \<Rightarrow> bool" and T :: "gotime \<Rightarrow> bool"
    and V :: "'l resource_manager \<Rightarrow> bool" and P :: "time_scheduler \<Rightarrow> bool"
  assumes ok_condition: "ok r \<Longrightarrow> ok (setCondition now ty st rsn msg r)"
    and ok_phase: "ok r \<Longrightarrow> p \<in> {PhasePending, controller_PhaseActive, PhaseCompleted, PhaseFailed} \<Longrightarrow>
      ok (updateRuleStatus now p msg r)"
    and ok_finalizers: "ok r \<Longrightarrow> ok (r\<lparr>rule_Finalizers := fs\<rparr>)"
    and ok_next: "ok r \<Longrightarrow> ok (upd_status (\<lambda>st. st\<lparr>st_NextExecutionTime := x\<rparr>) r)"
    and ok_executed: "ok r \<Longrightarrow> T t \<Longrightarrow> ok (executed_status now task e n t r)"
    and ok_recovered: "ok r \<Longrightarrow> ok (with_condition c r)"
    and V_policy: "same_policy rm rm' \<Longrightarrow> V rm \<Longrightarrow> V rm'"
    and P_schedule: "P s \<Longrightarrow> T now \<Longrightarrow> ok r \<Longrightarrow> V rm \<Longrightarrow> spec_admitted sv rm (rule_Spec r) \<Longrightarrow>
      P (snd (ScheduleRule cron now r s))"
    and P_unschedule: "P s \<Longrightarrow> P (snd (UnscheduleRule i s))"
begin

lemmas ok_laws = ok_condition ok_phase ok_finalizers ok_next ok_executed ok_recovered

lemma P_unscheduled: "P (ct_Scheduler ct) \<Longrightarrow> P (ct_Scheduler (unschedule i ct))"
  by (simp add: unschedule_def P_unschedule)

lemma unscheduled_manager: "ct_ResourceManager (unschedule i ct) = ct_ResourceManager ct"
  by (simp add: unschedule_def)

lemma fetch_keeps:
  assumes "rule_server ok T I env" and "pass_ok I V P ct w"
    and "fetchRule env rc req (ct, w) = ((r, res), ct1, w1)"
  shows "pass_ok I V P ct1 w1 \<and> (\<forall>r'. r = Some r' \<longrightarrow> ok r')"
proof -
  obtain x r' w' where run: "retried env (rec_ErrorHandler rc) (''get-rule-'' @ nsname_string req) (get_rule env req)
      (None, w) = (x, r', w')" using prod_cases3 by blast
  have "I w' \<and> (\<forall>r. r' = Some r \<longrightarrow> ok r)" using get_rule_keeps[OF assms(1) _ run] assms(2) by simp
  then show ?thesis
    using assms(2,3) run P_unscheduled[of ct "nsname_string req"]
    by (cases x) (auto simp: fetchRule_def unscheduled_manager split: if_splits)
qed

lemma finalizer_keeps:
  assumes "rule_server ok T I env" and "ok r" and "I w" and "ensureFinalizer env rc req r w = ((r1, res), w1)"
  shows "ok r1 \<and> I w1"
proof (cases "AnnotationScheduleRuleFinalizer \<in> set (rule_Finalizers r)")
  case True
  then show ?thesis using assms by (simp add: ensureFinalizer_def)
next
  case False
  let ?r = "r\<lparr>rule_Finalizers := rule_Finalizers r @ [AnnotationScheduleRuleFinalizer]\<rparr>"
  obtain x r' w' where run: "retried env (rec_ErrorHandler rc) (''add-finalizer-'' @ nsname_string req)
      (update_rule env) (?r, w) = (x, r', w')" using prod_cases3 by blast
  have "ok ?r" using assms(2) by (rule ok_finalizers)
  note keep = update_keeps(1)[OF assms(1) this assms(3) run]
  show ?thesis using assms(4) keep False run by (cases x) (simp_all add: ensureFinalizer_def Let_def)
qed

lemma validation_keeps:
  assumes "calm I (env_api env)" and "I w" shows "I (snd (validateRule env rc ct r w))"
proof -
  have "I (snd (validateLegacyAnnotations env rc ct r w))"
    using assms(2) calm_audit(3)[OF assms]
    by (simp add: validateLegacyAnnotations_def Let_def split: option.split sum.split)
  then have "I (snd (validateAnnotationsConfig env rc ct r w))"
    using assms(2) by (simp add: validateAnnotationsConfig_def Let_def)
  then show ?thesis
    using assms(2) by (simp add: validateRule_def prod.case_eq_if split: sum.split)
qed

lemma validation_status_keeps:
  assumes "rule_server ok T I env" and "ok r" and "I w"
    and "validateAndUpdateRuleOnFailure env rc ct r w = ((e, r1), w1)"
  shows "ok r1 \<and> I w1 \<and>
    (e = None \<longrightarrow> spec_admitted (rec_SecurityValidator rc) (ct_ResourceManager ct) (rule_Spec r1))"
proof -
  obtain x w' where v: "validateRule env rc ct r w = (x, w')" by fastforce
  have w': "I w'" using validation_keeps[OF rule_serverD(1)[OF assms(1)] assms(3), of rc ct r] v by simp
  show ?thesis
  proof (cases x)
    case (Inl err)
    let ?now = "env_now env w'"
    let ?r = "updateRuleStatus ?now PhaseFailed (''Validation failed: '' @ err_text err)
      (setCondition ?now ConditionTypeError ConditionTrue ReasonValidationFailed (err_text err)
        (setCondition ?now ConditionTypeValidated ConditionFalse ReasonValidationFailed
          (''Validation failed: '' @ err_text err) r))"
    obtain y r2 w2 where u: "update_status env (?r, w') = (y, r2, w2)" using prod_cases3 by blast
    have "ok ?r" using assms(2) by (simp add: ok_laws)
    note keep = update_keeps(3)[OF assms(1) this w' u]
    show ?thesis using assms(4) keep u by (auto simp: validateAndUpdateRuleOnFailure_def v Inl Let_def)
  next
    case (Inr u)
    have "spec_admitted (rec_SecurityValidator rc) (ct_ResourceManager ct) (rule_Spec r)"
      using validateRule_admitted[of env rc ct r w] v Inr by simp
    then show ?thesis
      using assms(2,4) w' Inr by (auto simp: validateAndUpdateRuleOnFailure_def v Let_def ok_laws)
  qed
qed

lemma schedule_keeps:
  assumes server: "rule_server ok T I env" and cron: "env_cron env = cron" and r: "ok r"
    and st: "pass_ok I V P ct w" and admitted: "spec_admitted sv (ct_ResourceManager ct) (rule_Spec r)"
    and run: "scheduleRuleWithErrorHandling env rc r (ct, w) = (x, ct1, w1)"
  shows "pass_ok I V P ct1 w1 \<and> (\<forall>r1 res. x = Ret (r1, res) \<longrightarrow> ok r1)"
proof -
  let ?J = "\<lambda>s. I (snd s) \<and> ct_ResourceManager (snd (fst s)) = ct_ResourceManager ct \<and> P (ct_Scheduler (snd (fst s)))"
  let ?name = "''schedule-rule-'' @ rule_Namespace r @ ''-'' @ rule_Name r"
  obtain y p c v where op: "retried env (rec_ErrorHandler rc) ?name (schedule_op env r) ((None, ct), w) =
      (y, (p, c), v)" by (metis prod.exhaust)
  have "?J (snd (schedule_op env r s))" if "?J s" for s
  proof -
    obtain m' c' v' where s: "s = ((m', c'), v')" by (metis prod.exhaust)
    have "P (snd (ScheduleRule cron (env_now env v') r (ct_Scheduler c')))"
      using that s st r admitted rule_serverD(7)[OF server] by (intro P_schedule[of _ _ r]) auto
    then show ?thesis
      using that s cron by (auto simp: schedule_op_def split: prod.splits may_panic.splits)
  qed
  then have "?J (snd (retried env (rec_ErrorHandler rc) ?name (schedule_op env r) ((None, ct), w)))"
    using st rule_serverD(2)[OF server] by (intro retried_inv[where I = ?J]) auto
  then have v: "pass_ok I V P c v" using op st by simp
  show ?thesis
  proof (cases p)
    case (Some m)
    then show ?thesis using run v op by (cases y) (auto simp: scheduleRuleWithErrorHandling_def)
  next
    case None
    show ?thesis
    proof (cases y)
      case (Inr u)
      then show ?thesis
        using r run v None op by (auto simp: scheduleRuleWithErrorHandling_def Let_def ok_laws)
    next
      case (Inl err)
      let ?now = "env_now env v"
      let ?r = "updateRuleStatus ?now PhaseFailed (''Scheduling failed: '' @ err_text err)
        (setCondition ?now ConditionTypeError ConditionTrue ReasonSchedulingFailed
          (''Scheduling failed: '' @ err_text err)
          (setCondition ?now ConditionTypeScheduled ConditionFalse ReasonSchedulingFailed (err_text err) r))"
      obtain z r2 w2 where u: "retried env (rec_ErrorHandler rc)
          (''update-status-scheduling-failed-'' @ rule_Namespace r @ ''-'' @ rule_Name r)
          (update_status env) (?r, v) = (z, r2, w2)" using prod_cases3 by blast
      have "ok ?r" using r by (simp add: ok_laws)
      note keep = update_keeps(2)[OF server this conjunct1[OF v] u]
      show ?thesis
        using run keep v None op Inl u by (auto simp: scheduleRuleWithErrorHandling_def Let_def)
    qed
  qed
qed

lemma next_time_keeps:
  assumes "rule_server ok T I env" and "ok r" and "I w"
    and "processNextExecutionTime env ct r w = ((r1, res), w1)"
  shows "ok r1 \<and> I w1"
proof -
  let ?now = "env_now env w"
  let ?r = "setCondition ?now ConditionTypeReady ConditionTrue ReasonRuleCompleted ''Rule schedule completed''
    (updateRuleStatus ?now PhaseCompleted ''Rule schedule completed'' r)"
  obtain z r2 w2 where u: "update_status env (?r, w) = (z, r2, w2)" using prod_cases3 by blast
  have "ok ?r" using assms(2) by (simp add: ok_laws)
  note keep = update_keeps(3)[OF assms(1) this assms(3) u]
  show ?thesis
    using assms(2-4) keep
    u by (auto simp: processNextExecutionTime_def Let_def ok_laws split: sum.splits option.splits)
qed

lemma deletion_keeps:
  assumes server: "rule_server ok T I env" and "ok r" and st: "pass_ok I V P ct w"
    and run: "handleDeletion env rc r (ct, w) = (res, ct', w')"
  shows "pass_ok I V P ct' w'"
proof (cases "AnnotationScheduleRuleFinalizer \<in> set (rule_Finalizers r)")
  case False
  then show ?thesis using st run by (simp add: handleDeletion_def)
next
  case True
  note calm = rule_serverD(1)[OF server]
  define w1 where "w1 = (if rec_AuditLogger rc then LogRuleDeletion (env_api env) (getRuleID r) (rule_Name r)
    (rule_Namespace r) (spec_Annotations (rule_Spec r)) w else w)"
  define ct1 where "ct1 = unschedule (getRuleID r) ct"
  have w1: "pass_ok I V P ct1 w1"
    using st calm_audit(5)[OF calm conjunct1[OF st]] P_unscheduled[of ct]
    by (simp add: w1_def ct1_def unscheduled_manager)
  obtain x ct2 w2 where clean: "cleanupRuleAnnotations env r (ct1, w1) = (x, ct2, w2)"
    using prod_cases3 by blast
  have "I (snd (snd (RemoveAnnotations (env_deps env) sel ks ts ns i (rm, w1))))" for sel ks ts ns i rm
    by (rule calm_remove[OF calm conjunct1[OF w1]])
  moreover have "V (fst (snd (RemoveAnnotations (env_deps env) sel ks ts ns i (ct_ResourceManager ct1, w1))))"
    for sel ks ts ns i
    using w1 by (intro V_policy[OF policy_remove]) simp
  ultimately have w2: "pass_ok I V P ct2 w2"
    using clean w1 by (auto simp: cleanupRuleAnnotations_def Let_def prod.case_eq_if split: if_splits)
  let ?r = "r\<lparr>rule_Finalizers := filter (\<lambda>f. f \<noteq> AnnotationScheduleRuleFinalizer) (rule_Finalizers r)\<rparr>"
  obtain z r3 w3 where u: "update_rule env (?r, w2) = (z, r3, w3)" using prod_cases3 by blast
  have "ok ?r" using assms(2) by (rule ok_finalizers)
  note keep = update_keeps(4)[OF server this conjunct1[OF w2] u]
  have "ct' = ct2 \<and> (w' = w2 \<or> w' = w3)"
    using run True clean u
    by (cases x; cases z) (simp_all add: handleDeletion_def Let_def w1_def[symmetric] ct1_def[symmetric])
  then show ?thesis using w2 keep by auto
qed

lemma schedule_part_keeps:
  assumes server: "rule_server ok T I env" and cron: "env_cron env = cron" and sv: "rec_SecurityValidator rc = sv"
    and r: "ok r" and st: "pass_ok I V P ct w" and run: "reconcile_schedule env rc req r (ct, w) = (res, ct', w')"
  shows "pass_ok I V P ct' w' \<and> (\<forall>r3. res = Inr r3 \<longrightarrow> ok r3)"
proof -
  obtain r1 fr fe w1 where 1: "ensureFinalizer env rc req r w = ((r1, fr, fe), w1)" by (metis prod.exhaust)
  note keep1 = finalizer_keeps[OF server r conjunct1[OF st] 1]
  obtain ve r2 w2 where 2: "validateAndUpdateRuleOnFailure env rc ct r1 w1 = ((ve, r2), w2)" by (metis prod.exhaust)
  note keep2 = validation_status_keeps[OF server conjunct1[OF keep1] conjunct2[OF keep1] 2]
  obtain x ct3 w3 where 3: "scheduleRuleWithErrorHandling env rc r2 (ct, w2) = (x, ct3, w3)" by (metis prod.exhaust)
  show ?thesis
  proof (cases "fe \<noteq> None \<or> cr_RequeueAfter fr > 0 \<or> cr_Requeue fr")
    case True
    then have "res = Inl (Ret (fr, fe)) \<and> ct' = ct \<and> w' = w1" using run by (simp add: reconcile_schedule_def 1)
    then show ?thesis using st keep1 by simp
  next
    case go1: False
    show ?thesis
    proof (cases ve)
      case (Some e)
      then have "res = Inl (Ret (no_requeue, None)) \<and> ct' = ct \<and> w' = w2"
        using run go1 by (simp add: reconcile_schedule_def 1 2)
      then show ?thesis using st keep2 by simp
    next
      case None
      have st2: "pass_ok I V P ct w2" using keep2 st by simp
      have "spec_admitted sv (ct_ResourceManager ct) (rule_Spec r2)" using keep2 None sv by simp
      note keep3 = schedule_keeps[OF server cron conjunct1[OF keep2] st2 this 3]
      show ?thesis
      proof (cases x)
        case (Panic m)
        then show ?thesis using run go1 None keep3 by (auto simp: reconcile_schedule_def 1 2 3)
      next
        case (Ret y)
        then obtain r3 sr se where "x = Ret (r3, sr, se)" by (metis prod.exhaust)
        then show ?thesis using run go1 None keep3 by (auto simp: reconcile_schedule_def 1 2 3 split: if_splits)
      qed
    qed
  qed
qed

lemma finish_keeps:
  assumes server: "rule_server ok T I env" and r3: "ok r3" and i3: "I w3"
    and run: "reconcile_finish env rc ct3 r3 w3 = (res, w')"
  shows "I w'"
proof -
  obtain r4 nr ne w4 where 4: "processNextExecutionTime env ct3 r3 w3 = ((r4, nr, ne), w4)" by (metis prod.exhaust)
  note keep4 = next_time_keeps[OF server r3 i3 4]
  let ?r5 = "activated (env_now env w4) r4"
  have 5: "updateRuleActiveStatus env rc r4 w4 = (?r5, w4)" by (rule updateRuleActiveStatus_eq)
  have r5: "ok ?r5" using keep4 by (simp add: activated_def ok_laws)
  obtain s w6 where 6: "updateRuleStatusWithErrorHandling env rc ?r5 w4 = (s, w6)" by fastforce
  obtain z r6 v6 where u: "retried env (rec_ErrorHandler rc)
      (''update-status-'' @ rule_Namespace ?r5 @ ''-'' @ rule_Name ?r5) (update_status env) (?r5, w4) = (z, r6, v6)"
    using prod_cases3 by blast
  have "I v6" using update_keeps(2)[OF server r5 conjunct2[OF keep4] u] by simp
  then have "I w6" using 6 u by (cases z) (simp_all add: updateRuleStatusWithErrorHandling_def)
  moreover have "w' \<in> {w4, w6}"
    using run by (cases s) (simp add: reconcile_finish_def 4 5 6 split: if_splits)
  ultimately show ?thesis using keep4 by auto
qed

lemma begin_keeps:
  assumes server: "rule_server ok T I env" and cron: "env_cron env = cron" and sv: "rec_SecurityValidator rc = sv"
    and st: "pass_ok I V P ct w" and run: "reconcile_begin env rc req (ct, w) = (x, ct', w')"
  shows "pass_ok I V P ct' w' \<and> (\<forall>r3. x = Inr r3 \<longrightarrow> ok r3)"
proof -
  obtain rule fr fe ct1 w1 where f: "fetchRule env rc req (ct, w) = ((rule, fr, fe), ct1, w1)" by (metis prod.exhaust)
  note keep1 = fetch_keeps[OF server st f]
  show ?thesis
  proof (cases rule)
    case None
    then show ?thesis using run f keep1 by (auto simp: reconcile_begin_def split: if_splits)
  next
    case (Some r)
    then have r: "ok r" using keep1 by simp
    obtain h cth wh where h: "handleDeletion env rc r (ct1, w1) = (h, cth, wh)" using prod_cases3 by blast
    obtain l ctl wl where l: "reconcile_schedule env rc req r (ct1, w1) = (l, ctl, wl)" using prod_cases3 by blast
    show ?thesis
      using run f Some h l keep1 deletion_keeps[OF server r conjunct1[OF keep1] h]
        schedule_part_keeps[OF server cron sv r conjunct1[OF keep1] l]
      by (auto simp: reconcile_begin_def split: if_splits)
  qed
qed

text \<open>A pass.\<close>

lemma reconcile_keeps:
  assumes server: "rule_server ok T I env" and cron: "env_cron env = cron" and sv: "rec_SecurityValidator rc = sv"
    and st: "pass_ok I V P ct w" and run: "Reconcile env rc req (ct, w) = (res, ct', w')"
  shows "pass_ok I V P ct' w'"
proof -
  obtain x ct1 w1 where b: "reconcile_begin env rc req (ct, w) = (x, ct1, w1)" using prod_cases3 by blast
  note keep = begin_keeps[OF server cron sv st b]
  show ?thesis
  proof (cases x)
    case (Inl y)
    then show ?thesis using run b keep by (simp add: Reconcile_halves)
  next
    case (Inr r)
    obtain y w2 where f: "reconcile_finish env rc ct1 r w1 = (y, w2)" by fastforce
    then show ?thesis
      using run b keep Inr finish_keeps[OF server _ _ f] by (simp add: Reconcile_halves)
  qed
qed

text \<open>Calls of the resource manager.\<close>

lemma manager_call_keeps:
  assumes server: "rule_server ok T I env" and st: "pass_ok I V P ct w"
    and f: "\<And>rm w. I w \<Longrightarrow> I (snd (snd (f (rm, w))))" "\<And>rm w. same_policy rm (fst (snd (f (rm, w))))"
    and run: "retry_on_manager env te name f nil (ct, w) = (r, (x, ct1), w1)"
  shows "pass_ok I V P ct1 w1"
proof -
  let ?J = "\<lambda>s. pass_ok I V P (snd (fst s)) (snd s)"
  have "?J (snd (on_manager f nil s))" if "?J s" for s
  proof -
    obtain y c v where s: "s = ((y, c), v)" by (metis prod.exhaust)
    obtain z rm v1 where z: "f (ct_ResourceManager c, v) = (z, rm, v1)" using prod_cases3 by blast
    have "I v1" using f(1)[of v "ct_ResourceManager c"] that s z by simp
    moreover have "V rm" using V_policy[OF f(2), of "ct_ResourceManager c" v] that s z by simp
    ultimately show ?thesis using that s z by (cases z) (simp_all add: on_manager_def)
  qed
  then have "?J (snd (retried env (te_errorHandler te) name (on_manager f nil) ((nil, ct), w)))"
    using st rule_serverD(2)[OF server] by (intro retried_inv[where I = ?J]) auto
  then show ?thesis using run by (simp add: retry_on_manager_def)
qed

text \<open>The call of an action on groups, and the two calls of one on plain annotations.\<close>

lemma one_call_keeps:
  assumes "rule_server ok T I env" and "pass_ok I V P ct w" and "\<And>rm w. I w \<Longrightarrow> I (snd (snd (f (rm, w))))"
    and "\<And>rm w. same_policy rm (fst (snd (f (rm, w))))"
    and "(case retry_on_manager env te n f nil (ct, w) of (r, (rs, c1), w1) \<Rightarrow> (x3 rs r, c1, w1)) = (x, ct1, v)"
  shows "pass_ok I V P ct1 v"
proof -
  obtain r rs c1 w1 where 1: "retry_on_manager env te n f nil (ct, w) = (r, (rs, c1), w1)" by (metis prod.exhaust)
  have "pass_ok I V P c1 w1" by (rule manager_call_keeps[OF assms(1-4) 1])
  then show ?thesis using assms(5) 1 by simp
qed

lemma two_calls_keep:
  assumes "rule_server ok T I env" and "pass_ok I V P ct w"
    and "\<And>rm w. I w \<Longrightarrow> I (snd (snd (f1 (rm, w))))" and "\<And>rm w. same_policy rm (fst (snd (f1 (rm, w))))"
    and "\<And>rm w. I w \<Longrightarrow> I (snd (snd (f2 (rm, w))))" and "\<And>rm w. same_policy rm (fst (snd (f2 (rm, w))))"
    and "\<And>rs r w. I w \<Longrightarrow> I (finish rs r w)"
    and "(case retry_on_manager env te n1 f1 nil1 (ct, w) of
      (Inl e, (_, c1), w1) \<Rightarrow> (x1 e, c1, w1)
    | (Inr _, (rs, c1), w1) \<Rightarrow>
        if length rs = 0 then (x2, c1, w1)
        else (case retry_on_manager env te n2 f2 () (c1, w1) of
                (r, (_, c2), w2) \<Rightarrow> (x3 rs r, c2, finish rs r w2))) = (x, ct1, v)"
  shows "pass_ok I V P ct1 v"
proof -
  obtain r rs c1 w1 where 1: "retry_on_manager env te n1 f1 nil1 (ct, w) = (r, (rs, c1), w1)" by (metis prod.exhaust)
  obtain r' u c2 w2 where 2: "retry_on_manager env te n2 f2 () (c1, w1) = (r', (u, c2), w2)" by (metis prod.exhaust)
  have keep1: "pass_ok I V P c1 w1" by (rule manager_call_keeps[OF assms(1-4) 1])
  have keep2: "pass_ok I V P c2 w2" by (rule manager_call_keeps[OF assms(1) keep1 assms(5,6) 2])
  have "(ct1, v) \<in> {(c1, w1), (c2, finish rs r' w2)}" using assms(8) 1 2 by (auto split: sum.splits if_splits)
  then show ?thesis using keep1 keep2 assms(7) by auto
qed

lemma apply_action_keeps:
  assumes "rule_server ok T I env" and "pass_ok I V P ct w" and "executeApplyAction env te task (ct, w) = (x, ct1, w1)"
  shows "pass_ok I V P ct1 w1"
proof -
  note calm = rule_serverD(1)[OF assms(1)]
  note query = calm_query[OF calm] policy_query[OF same_policy_simps(1)]
  consider "0 < length (task_AnnotationGroups task)"
    | "\<not> 0 < length (task_AnnotationGroups task)" "0 < length (task_Annotations task)"
    | "\<not> 0 < length (task_AnnotationGroups task)" "\<not> 0 < length (task_Annotations task)" by blast
  then show ?thesis
  proof cases
    case 1
    note run = assms(3)[unfolded executeApplyAction_def Let_def if_P[OF 1]]
    show ?thesis by (rule one_call_keeps[OF assms(1,2) calm_groups(1)[OF calm] policy_groups(1) run])
  next
    case 2
    note run = assms(3)[unfolded executeApplyAction_def Let_def if_not_P[OF 2(1)] if_P[OF 2(2)]]
    have fin: "I (if te_audits te then audit_all (\<lambda>res. LogAnnotationApply (env_api env) (task_RuleID task)
        (task_RuleName task) (task_RuleNamespace task) res (task_Annotations task) b e) rs v else v)"
      if "I v" for rs b e v
      using that calm_audit(1)[OF calm] by (simp add: calm_audit_all)
    show ?thesis
      by (rule two_calls_keep[OF assms(1,2) query calm_apply[OF calm] policy_apply fin run])
  next
    case 3
    then show ?thesis using assms(2,3) by (simp add: executeApplyAction_def)
  qed
qed

lemma remove_action_keeps:
  assumes "rule_server ok T I env" and "pass_ok I V P ct w" and "executeRemoveAction env te task (ct, w) = (x, ct1, w1)"
  shows "pass_ok I V P ct1 w1"
proof -
  note calm = rule_serverD(1)[OF assms(1)]
  note query = calm_query[OF calm] policy_query[OF same_policy_simps(1)]
  consider "0 < length (task_AnnotationGroups task)"
    | "\<not> 0 < length (task_AnnotationGroups task)" "0 < length (task_Annotations task)"
    | "\<not> 0 < length (task_AnnotationGroups task)" "\<not> 0 < length (task_Annotations task)" by blast
  then show ?thesis
  proof cases
    case 1
    note run = assms(3)[unfolded executeRemoveAction_def Let_def if_P[OF 1]]
    show ?thesis by (rule one_call_keeps[OF assms(1,2) calm_groups(2)[OF calm] policy_groups(2) run])
  next
    case 2
    note run = assms(3)[unfolded executeRemoveAction_def Let_def if_not_P[OF 2(1)] if_P[OF 2(2)]]
    have fin: "I (if te_audits te then audit_all (\<lambda>res. LogAnnotationRemove (env_api env) (task_RuleID task)
        (task_RuleName task) (task_RuleNamespace task) res (mkeys (task_Annotations task)) b e) rs v else v)"
      if "I v" for rs b e v
      using that calm_audit(2)[OF calm] by (simp add: calm_audit_all)
    show ?thesis
      by (rule two_calls_keep[OF assms(1,2) query calm_remove[OF calm] policy_remove fin run])
  next
    case 3
    then show ?thesis using assms(2,3) by (simp add: executeRemoveAction_def)
  qed
qed

lemma put_status_keeps:
  assumes "rule_server ok T I env" and "I w" and "\<And>r v. ok r \<Longrightarrow> ok (f r v)"
  shows "I (snd (snd (case api_getRule (env_api env) name w of
      (Inl e, w1) \<Rightarrow> (x1 e, (), w1)
    | (Inr r, w1) \<Rightarrow> (case api_updateStatus (env_api env) (f r w1) w1 of
        (Inl e, w2) \<Rightarrow> (x2 e, (), w2) | (Inr _, w2) \<Rightarrow> (x3, (), w2)))))"
proof -
  obtain y w1 where y: "api_getRule (env_api env) name w = (y, w1)" by fastforce
  note ok = rule_serverD(4)[OF assms(1,2) y]
  show ?thesis
  proof (cases y)
    case (Inl e)
    then show ?thesis using ok y by simp
  next
    case (Inr r)
    obtain z w2 where z: "api_updateStatus (env_api env) (f r w1) w1 = (z, w2)" by fastforce
    have "I w2" using rule_serverD(6)[OF assms(1) _ _ z] ok Inr assms(3) by simp
    then show ?thesis using y Inr z by (cases z) simp_all
  qed
qed

lemma status_update_keeps:
  assumes "rule_server ok T I env" and "I w" and "T t"
  shows "I (updateRuleStatusAfterExecution env te task e n t w)"
proof -
  let ?J = "\<lambda>s. I (snd s)"
  have "?J (snd (updateOperation (env_api env) task e n t name s))" if "?J s" for name s
  proof -
    obtain u v where s: "s = (u, v)" by (metis prod.exhaust)
    then have "I v" using that by simp
    then show ?thesis
      unfolding s updateOperation_def prod.case
      by (rule put_status_keeps[OF assms(1), where f = "\<lambda>r v. executed_status (api_now (env_api env) v) task e n t r"])
        (rule ok_executed[OF _ assms(3)])
  qed
  then have "?J (snd (retried env eh nm (updateOperation (env_api env) task e n t name) ((), w)))" for eh nm name
    using assms(2) rule_serverD(2)[OF assms(1)] by (intro retried_inv[where I = ?J]) auto
  then show ?thesis using assms(2) by (simp add: updateRuleStatusAfterExecution_def split: option.split)
qed

text \<open>An execution.\<close>

lemma execute_keeps:
  assumes server: "rule_server ok T I env" and st: "pass_ok I V P ct w"
    and run: "ExecuteTask env te task (ct, w) = (res, ct', w')"
  shows "pass_ok I V P ct' w'"
proof -
  let ?J = "\<lambda>s. pass_ok I V P (snd (fst s)) (snd s)"
  let ?name = "''execute-task-'' @ task_RuleID task @ ''-'' @ task_Action task"
  have step: "?J (snd (execute_action env te task s))" if "?J s" for s
  proof -
    obtain n c v where s: "s = ((n, c), v)" by (metis prod.exhaust)
    obtain x1 c1 v1 where a: "executeApplyAction env te task (c, v) = (x1, c1, v1)" using prod_cases3 by blast
    obtain x2 c2 v2 where r: "executeRemoveAction env te task (c, v) = (x2, c2, v2)" using prod_cases3 by blast
    have "pass_ok I V P c v" using that s by simp
    then show ?thesis
      using s a r apply_action_keeps[OF server _ a] remove_action_keeps[OF server _ r]
      by (simp add: execute_action_def prod.case_eq_if)
  qed
  obtain r1 n ct1 w1 where act: "retried env (te_errorHandler te) ?name (execute_action env te task) ((0, ct), w) =
      (r1, (n, ct1), w1)" by (metis prod.exhaust)
  have "?J (snd (retried env (te_errorHandler te) ?name (execute_action env te task) ((0, ct), w)))"
    using st step rule_serverD(2)[OF server] by (intro retried_inv[where I = ?J]) auto
  then have keep: "pass_ok I V P ct1 w1" using act by simp
  have "T (env_now env w)" using rule_serverD(7)[OF server] st by simp
  note upd = status_update_keeps[OF server conjunct1[OF keep] this]
  show ?thesis using run act keep upd by (auto simp: ExecuteTask_def Let_def)
qed

text \<open>Recovery and cleanup.\<close>

lemma recovery_run_keeps:
  assumes "rule_server ok T I env" and "I w" and "\<And>s. I (snd s) \<Longrightarrow> I (snd (snd (op s)))"
  shows "I (snd (snd (RetryWithBackoffAndCondition eh op again (rv_wait (recovery_of env))
      (rv_clock (recovery_of env)) name (x, w))))"
    and "I (snd (snd (RetryWithBackoff eh op (rv_wait (recovery_of env)) (rv_clock (recovery_of env)) name (x, w))))"
proof -
  let ?J = "\<lambda>s. I (snd s)"
  have pause: "?J (snd (rv_wait (recovery_of env) d s))" if "?J s" for d s
    using that rule_serverD(2)[OF assms(1)] by (simp add: rv_wait_def prod.case_eq_if)
  show "I (snd (snd (RetryWithBackoffAndCondition eh op again (rv_wait (recovery_of env))
      (rv_clock (recovery_of env)) name (x, w))))"
    unfolding RetryWithBackoffAndCondition_def using assms pause by (intro retry_loop_inv[where I = ?J]) auto
  show "I (snd (snd (RetryWithBackoff eh op (rv_wait (recovery_of env)) (rv_clock (recovery_of env)) name (x, w))))"
    unfolding RetryWithBackoff_def using assms pause by (intro retry_loop_inv[where I = ?J]) auto
qed

lemma put_condition_keeps:
  assumes "rule_server ok T I env" and "I (snd s)"
  shows "I (snd (snd (put_condition_op (recovery_of env) name c s)))"
proof -
  obtain u v where s: "s = (u, v)" by (metis prod.exhaust)
  then have "I v" using assms(2) by simp
  then show ?thesis
    unfolding s put_condition_op_def prod.case recovery_env.simps
    by (rule put_status_keeps[OF assms(1), where f = "\<lambda>r v. with_condition (c (env_now env v)) r"])
      (rule ok_recovered)
qed

lemma recover_rule_keeps:
  assumes "rule_server ok T I env" and "I w"
  shows "I (snd (recoverRule (recovery_of env) eh r w))"
proof -
  note run = recovery_run_keeps(1)[OF assms(1) _ put_condition_keeps[OF assms(1)]]
  have missed: "I (snd (checkForMissedExecutions (recovery_of env) eh r v))" if "I v" for v
    using run[OF that] that
    by (simp add: checkForMissedExecutions_def updateRuleStatusForMissedExecution_def Let_def
        prod.case_eq_if split: option.split)
  show ?thesis
    using run[OF assms(2)] assms(2) missed
    by (simp add: recoverRule_def updateRuleStatusForRecovery_def prod.case_eq_if split: sum.split)
qed

lemma recovery_keeps:
  assumes "rule_server ok T I env" and "I w"
  shows "I (snd (RecoverControllerState (recovery_of env) eh w))"
proof -
  have rules: "I (snd (recover_rules (recovery_of env) eh rs res v))" if "I v" for rs res v
    using that
  proof (induction rs arbitrary: res v)
    case (Cons r rs)
    obtain x v1 where x: "recoverRule (recovery_of env) eh r v = (x, v1)" by fastforce
    then have "I v1" using recover_rule_keeps[OF assms(1) Cons.prems, of eh r] by simp
    then show ?case using x Cons.IH by (cases x) simp_all
  qed simp
  have "I (snd (snd (list_rules_op (recovery_of env) s)))" if "I (snd s)" for s
    using rule_serverD(3)[OF assms(1) that]
    by (auto simp: list_rules_op_def prod.case_eq_if split: sum.split)
  then have "I (snd (getAllRules (recovery_of env) eh w))"
    using recovery_run_keeps(2)[OF assms(1,2), of "list_rules_op (recovery_of env)" eh _ "[]"]
    by (simp add: getAllRules_def prod.case_eq_if split: sum.split)
  then show ?thesis
    using rules by (simp add: RecoverControllerState_def Let_def prod.case_eq_if split: sum.split)
qed

lemma cleanup_keeps:
  assumes "rule_server ok T I env" and "I w" and "0 < oac_batchSize oac"
    and "CleanupOrphanedAnnotations (env_api env) oac w = Some (x, w1)"
  shows "I w1"
proof -
  note calm = rule_serverD(1)[OF assms(1)]
  have resource: "I (snd (cleanupResourceAnnotations (env_api env) ids r v))" if "I v" for ids r v
    using that calmD(4)[OF calm that]
    by (simp add: cleanupResourceAnnotations_def Let_def prod.case_eq_if split: option.split sum.split)
  have batch: "I (snd (cleanupResourceBatch (env_api env) ids rs c v))" if "I v" for ids rs c v
    using that
  proof (induction rs arbitrary: c v)
    case (Cons r rs)
    obtain y v1 where y: "cleanupResourceAnnotations (env_api env) ids r v = (y, v1)" by fastforce
    then have "I v1" using resource[OF Cons.prems, of ids r] by simp
    then show ?case using y Cons.IH by (cases y) simp_all
  qed simp
  have type: "I v1" if "I v" "cleanupResourceType (env_api env) oac ids t v = Some (y, v1)" for ids t v y v1
  proof -
    obtain z v2 where z: "getResourcesWithSchedulerAnnotations (env_api env) t v = (z, v2)" by fastforce
    have "I v2"
      using z that(1) calmD(2)[OF calm that(1), of t None "[]"]
      by (auto simp: getResourcesWithSchedulerAnnotations_alt split: if_splits prod.splits sum.splits)
    then show ?thesis
      using that(2) z batch[of v2 ids]
      by (cases z) (auto simp: cleanupResourceType_def cleanup_batches[OF assms(3)] prod.case_eq_if)
  qed
  have all: "I v1" if "I v" "cleanup_all (env_api env) oac ids ts v = Some v1" for ids ts v v1
    using that
  proof (induction ts arbitrary: v)
    case (Cons t ts)
    then show ?case by (auto split: option.splits) (blast dest: type)
  qed simp
  obtain z v where z: "api_listRules (env_api env) w = (z, v)" by fastforce
  then have "I v" using rule_serverD(3)[OF assms(1,2)] by simp
  then show ?thesis
    using assms(4) z all
    by (cases z) (auto simp: CleanupOrphanedAnnotations_def getValidRuleIDs_def)
qed

end

end
