(* ===== verification/Controller_Properties.thy ===== *)
theory Controller_Properties
  imports Pass_Invariant
begin

text \<open>
  Properties of the controller: what one pass of \<open>Reconcile\<close> does to the scheduler, to the status
  of the rule and to the resources, how executions are counted, and what the process runs.
\<close>

section \<open>One pass\<close>

text \<open>What \<open>Reconcile\<close> needs to get past the fetch, the finalizer and the validation.\<close>

definition fetched :: "('w, 'l) env \<Rightarrow> nsname \<Rightarrow> rule \<Rightarrow> 'w \<Rightarrow> 'w \<Rightarrow> bool" where
  "fetched env req r w w1 \<longleftrightarrow> api_getRule (env_api env) req w = (Inr r, w1)"

definition settled :: "('w, 'l) env \<Rightarrow> reconciler \<Rightarrow> 'l controller \<Rightarrow> rule \<Rightarrow> 'w \<Rightarrow> bool" where
  "settled env rc ct r w \<longleftrightarrow> rule_DeletionTimestamp r = None \<and>
     AnnotationScheduleRuleFinalizer \<in> set (rule_Finalizers r) \<and> fst (validateRule env rc ct r w) = Inr ()"

lemma fetchRule_ok:
  assumes "fetched env req r w w1"
  shows "fetchRule env (main_reconciler sv) req (ct, w) = ((Some r, no_requeue, None), ct, w1)"
proof -
  have "get_rule env req (None, w) = (Inr (), Some r, w1)"
    using assms by (simp add: get_rule_def fetched_def)
  note fetch = retried_ok[where op = "get_rule env req" and s = "(None, w)", OF this]
  show ?thesis by (simp add: fetchRule_def fetch)
qed

lemma validateLegacyAnnotations_ok:
  "fst (validateLegacyAnnotations env rc ct r w) = Inr () \<Longrightarrow>
   validateLegacyAnnotations env rc ct r w = (Inr (), w)"
  by (auto simp: validateLegacyAnnotations_def Let_def split: option.splits sum.splits)

lemma validateAnnotationsConfig_ok:
  "fst (validateAnnotationsConfig env rc ct r w) = Inr () \<Longrightarrow>
   validateAnnotationsConfig env rc ct r w = (Inr (), w)"
  using validateLegacyAnnotations_ok[of env rc ct r w]
  by (auto simp: validateAnnotationsConfig_def Let_def split: if_splits)

lemma validateRule_ok:
  assumes "fst (validateRule env rc ct r w) = Inr ()"
  shows "validateRule env rc ct r w = (Inr (), w)"
proof -
  obtain u where types: "validateResourceTypes r = Inr u"
    using assms by (auto simp: validateRule_def split: sum.splits)
  obtain x w1 where config: "validateAnnotationsConfig env rc ct r w = (x, w1)" by fastforce
  have "x = Inr ()" using assms types config by (auto simp: validateRule_def split: sum.splits)
  then have "w1 = w" using validateAnnotationsConfig_ok[of env rc ct r w] config by simp
  then show ?thesis using assms types config \<open>x = Inr ()\<close> by (simp add: validateRule_def)
qed

lemma mk_task_setCondition [simp]: "mk_task (setCondition n t st rsn msg r) = mk_task r"
  by (simp add: mk_task_def fun_eq_iff)

lemma ScheduleRule_setCondition [simp]:
  "ScheduleRule cron now (setCondition n t st rsn msg r) s = ScheduleRule cron now r s"
  unfolding ScheduleRule_def setCondition_frame mk_task_setCondition ..

definition validated :: "gotime \<Rightarrow> rule \<Rightarrow> rule" where
  "validated now r =
     setCondition now ConditionTypeError ConditionFalse ReasonValidationSucceeded ''No validation errors''
       (setCondition now ConditionTypeValidated ConditionTrue ReasonValidationSucceeded ''Rule validation passed'' r)"

lemma validated_frame [simp]:
  "rule_Name (validated now r) = rule_Name r" "rule_Namespace (validated now r) = rule_Namespace r"
  "rule_Spec (validated now r) = rule_Spec r" "getRuleID (validated now r) = getRuleID r"
  "st_Phase (rule_Status (validated now r)) = st_Phase (rule_Status r)"
  "ScheduleRule cron n (validated now r) s = ScheduleRule cron n r s"
  "conditions_ok r \<Longrightarrow> conditions_ok (validated now r)"
  by (simp_all add: validated_def)

text \<open>A pass over a settled rule comes to the scheduler in the world after the fetch.\<close>

lemma begin_settled:
  assumes "fetched env req r w w1" and "settled env (main_reconciler sv) ct r w1"
  shows "reconcile_begin env (main_reconciler sv) req (ct, w) =
    (case scheduleRuleWithErrorHandling env (main_reconciler sv) (validated (env_now env w1) r) (ct, w1) of
       (Panic m, ct3, w3) \<Rightarrow> (Inl (Panic m), ct3, w3)
     | (Ret (r3, scheduleResult, scheduleErr), ct3, w3) \<Rightarrow>
     if scheduleErr \<noteq> None then (Inl (Ret (scheduleResult, scheduleErr)), ct3, w3)
     else (Inr r3, ct3, w3))"
proof -
  have fin: "ensureFinalizer env (main_reconciler sv) req r w1 = ((r, no_requeue, None), w1)"
    using assms(2) by (simp add: ensureFinalizer_def settled_def)
  have "validateRule env (main_reconciler sv) ct r w1 = (Inr (), w1)"
    using assms(2) by (intro validateRule_ok) (simp add: settled_def)
  then have val: "validateAndUpdateRuleOnFailure env (main_reconciler sv) ct r w1 =
      ((None, validated (env_now env w1) r), w1)"
    by (simp add: validateAndUpdateRuleOnFailure_def validated_def Let_def)
  have del: "rule_DeletionTimestamp r = None" using assms(2) by (simp add: settled_def)
  show ?thesis
    by (simp add: reconcile_begin_def fetchRule_ok[OF assms(1)] del reconcile_schedule_def fin val no_requeue_def
        del: split_paired_All cong: may_panic.case_cong)
qed

section \<open>Conditions of a rule\<close>

definition status_of :: "str \<Rightarrow> rule \<Rightarrow> cond_status option" where
  "status_of t r = map_option cond_Status (find_condition t r)"

lemma status_of_setCondition [simp]:
  "status_of t (setCondition now t' st rsn msg r) = (if t = t' then Some st else status_of t r)"
  by (auto simp: status_of_def find_setCondition split: option.splits)

lemma status_of_frame [simp]:
  "status_of t (upd_status (\<lambda>st. st\<lparr>st_NextExecutionTime := x\<rparr>) r) = status_of t r"
  "status_of t (upd_status (\<lambda>st. st\<lparr>st_Phase := p\<rparr>) r) = status_of t r"
  by (simp_all add: status_of_def find_condition_def)

lemma status_of_updateRuleStatus [simp]:
  "status_of t (updateRuleStatus now p msg r) =
     (if t = ConditionTypeReady then Some (fst (phase_condition p)) else status_of t r)"
  by (simp add: updateRuleStatus_def prod.case_eq_if)

lemma NextExecution_updateRuleStatus [simp]:
  "st_NextExecutionTime (rule_Status (updateRuleStatus now p msg r)) = st_NextExecutionTime (rule_Status r)"
  by (simp add: updateRuleStatus_def prod.case_eq_if)

section \<open>Scheduling\<close>

definition scheduled :: "gotime \<Rightarrow> rule \<Rightarrow> rule" where
  "scheduled now r =
     setCondition now ConditionTypeError ConditionFalse ReasonSchedulingSucceeded ''No scheduling errors''
       (setCondition now ConditionTypeScheduled ConditionTrue ReasonSchedulingSucceeded ''Rule successfully scheduled'' r)"

lemma scheduled_frame [simp]:
  "rule_Spec (scheduled now r) = rule_Spec r" "getRuleID (scheduled now r) = getRuleID r"
  "rule_Name (scheduled now r) = rule_Name r" "rule_Namespace (scheduled now r) = rule_Namespace r"
  "st_Phase (rule_Status (scheduled now r)) = st_Phase (rule_Status r)"
  "conditions_ok r \<Longrightarrow> conditions_ok (scheduled now r)"
  "status_of c (scheduled now r) = (if c = ConditionTypeError then Some ConditionFalse
     else if c = ConditionTypeScheduled then Some ConditionTrue else status_of c r)"
  by (simp_all add: scheduled_def)

lemma status_of_validated [simp]:
  "status_of c (validated now r) = (if c = ConditionTypeError then Some ConditionFalse
     else if c = ConditionTypeValidated then Some ConditionTrue else status_of c r)"
  by (simp add: validated_def)

definition with_next :: "gotime \<Rightarrow> rule \<Rightarrow> rule" where
  "with_next t r = upd_status (\<lambda>st. st\<lparr>st_NextExecutionTime := Some t\<rparr>) r"

lemma with_next_frame [simp]:
  "rule_Spec (with_next t r) = rule_Spec r" "getRuleID (with_next t r) = getRuleID r"
  "rule_Name (with_next t r) = rule_Name r" "rule_Namespace (with_next t r) = rule_Namespace r"
  "st_Phase (rule_Status (with_next t r)) = st_Phase (rule_Status r)"
  "st_NextExecutionTime (rule_Status (with_next t r)) = Some t"
  "status_of c (with_next t r) = status_of c r"
  "conditions_ok (with_next t r) = conditions_ok r"
  by (simp_all add: with_next_def getRuleID_def conditions_ok_def)

lemma activated_frame [simp]:
  "rule_Spec (activated now r) = rule_Spec r" "getRuleID (activated now r) = getRuleID r"
  "rule_Name (activated now r) = rule_Name r" "rule_Namespace (activated now r) = rule_Namespace r"
  "st_NextExecutionTime (rule_Status (activated now r)) = st_NextExecutionTime (rule_Status r)"
  "st_Phase (rule_Status (activated now r)) =
     (if st_Phase (rule_Status r) \<in> {[], PhasePending} then controller_PhaseActive else st_Phase (rule_Status r))"
  "status_of c (activated now r) = (if c = ConditionTypeReady then Some ConditionTrue else status_of c r)"
  "conditions_ok r \<Longrightarrow> conditions_ok (activated now r)"
  by (simp_all add: activated_def)

lemma schedule_ok:
  assumes "ScheduleRule (env_cron env) (env_now env w) r (ct_Scheduler ct) = (Ret (Inr ()), s)"
  shows "scheduleRuleWithErrorHandling env (main_reconciler sv) r (ct, w) =
    (Ret (scheduled (env_now env w) r, no_requeue, None), ct\<lparr>ct_Scheduler := s\<rparr>, w)"
proof -
  have "schedule_op env r ((None, ct), w) = (Inr (), (None, ct\<lparr>ct_Scheduler := s\<rparr>), w)"
    using assms by (simp add: schedule_op_def)
  note run = retried_ok[where op = "schedule_op env r" and s = "((None, ct), w)", OF this]
  show ?thesis by (simp add: scheduleRuleWithErrorHandling_def run scheduled_def Let_def)
qed

lemma begin_scheduled:
  assumes "fetched env req r w w1" and "settled env (main_reconciler sv) ct r w1"
    and "ScheduleRule (env_cron env) (env_now env w1) r (ct_Scheduler ct) = (Ret (Inr ()), s)"
  shows "reconcile_begin env (main_reconciler sv) req (ct, w) =
    (Inr (scheduled (env_now env w1) (validated (env_now env w1) r)), ct\<lparr>ct_Scheduler := s\<rparr>, w1)"
proof -
  have "ScheduleRule (env_cron env) (env_now env w1) (validated (env_now env w1) r) (ct_Scheduler ct) = (Ret (Inr ()), s)"
    using assms(3) by simp
  from begin_settled[OF assms(1,2)] schedule_ok[OF this] show ?thesis by simp
qed

section \<open>What an execution leaves alone\<close>

text \<open>An execution works on the resource manager alone.\<close>

definition same_but_manager :: "'l controller \<Rightarrow> 'l controller \<Rightarrow> bool" where
  "same_but_manager ct ct' \<longleftrightarrow> ct_Scheduler ct' = ct_Scheduler ct \<and> ct_Metrics ct' = ct_Metrics ct"

lemma same_but_manager_simps [simp]:
  "same_but_manager ct ct" "same_but_manager ct (ct\<lparr>ct_ResourceManager := rm\<rparr>)"
  by (simp_all add: same_but_manager_def)

lemma same_but_manager_trans:
  "same_but_manager a b \<Longrightarrow> same_but_manager b c \<Longrightarrow> same_but_manager a c"
  by (simp add: same_but_manager_def)

lemma retry_on_manager_same:
  assumes "retry_on_manager env te name f nil (ct, w) = (r, (x, ct1), w1)"
  shows "same_but_manager ct ct1"
proof -
  let ?I = "\<lambda>((x, c), w). same_but_manager ct c"
  have "?I (snd (on_manager f nil s))" if "?I s" for s
  proof -
    obtain x' c' v' where s: "s = ((x', c'), v')" by (metis prod.exhaust)
    then show ?thesis
      using that same_but_manager_trans[of ct c' "c'\<lparr>ct_ResourceManager := rm\<rparr>" for rm]
      by (auto simp: on_manager_def split: prod.splits sum.splits)
  qed
  then have "?I (snd (retried env (te_errorHandler te) name (on_manager f nil) ((nil, ct), w)))"
    by (intro retried_inv[where I = ?I]) auto
  then show ?thesis using assms by (simp add: retry_on_manager_def)
qed

text \<open>
  The three ways of an action: groups, annotations, nothing.  The first two go through
  \<open>retry_on_manager\<close>; \<open>finish\<close> is what is done to the world at the end.
\<close>

lemma two_calls_same:
  assumes "(case retry_on_manager env te n1 f1 nil1 (ct, w) of
      (Inl e, (_, c1), w1) \<Rightarrow> (x1 e, c1, w1)
    | (Inr _, (rs, c1), w1) \<Rightarrow>
        if length rs = 0 then (x2, c1, w1)
        else (case retry_on_manager env te n2 f2 () (c1, w1) of
                (r, (_, c2), w2) \<Rightarrow> (x3 rs r, c2, finish rs r w2))) = (x, ct1, v)"
  shows "same_but_manager ct ct1"
proof -
  obtain r rs c1 w1 where 1: "retry_on_manager env te n1 f1 nil1 (ct, w) = (r, (rs, c1), w1)" by (metis prod.exhaust)
  obtain r' u c2 w2 where 2: "retry_on_manager env te n2 f2 () (c1, w1) = (r', (u, c2), w2)" by (metis prod.exhaust)
  have "ct1 = c1 \<or> ct1 = c2" using assms 1 2 by (auto split: sum.splits if_splits)
  then show ?thesis
    using retry_on_manager_same[OF 1] retry_on_manager_same[OF 2] same_but_manager_trans by metis
qed

lemma executeApplyAction_same:
  assumes "executeApplyAction env te task (ct, w) = (x, ct1, w1)"
  shows "same_but_manager ct ct1"
proof -
  consider "0 < length (task_AnnotationGroups task)"
    | "\<not> 0 < length (task_AnnotationGroups task)" "0 < length (task_Annotations task)"
    | "\<not> 0 < length (task_AnnotationGroups task)" "\<not> 0 < length (task_Annotations task)" by blast
  then show ?thesis
  proof cases
    case 1
    then show ?thesis
      using assms by (auto simp: executeApplyAction_def Let_def dest: retry_on_manager_same split: prod.splits)
  next
    case 2
    note run = assms[unfolded executeApplyAction_def Let_def if_not_P[OF 2(1)] if_P[OF 2(2)]]
    show ?thesis by (rule two_calls_same[OF run])
  next
    case 3
    then show ?thesis using assms by (simp add: executeApplyAction_def)
  qed
qed

lemma executeRemoveAction_same:
  assumes "executeRemoveAction env te task (ct, w) = (x, ct1, w1)"
  shows "same_but_manager ct ct1"
proof -
  consider "0 < length (task_AnnotationGroups task)"
    | "\<not> 0 < length (task_AnnotationGroups task)" "0 < length (task_Annotations task)"
    | "\<not> 0 < length (task_AnnotationGroups task)" "\<not> 0 < length (task_Annotations task)" by blast
  then show ?thesis
  proof cases
    case 1
    then show ?thesis
      using assms by (auto simp: executeRemoveAction_def Let_def dest: retry_on_manager_same split: prod.splits)
  next
    case 2
    note run = assms[unfolded executeRemoveAction_def Let_def if_not_P[OF 2(1)] if_P[OF 2(2)]]
    show ?thesis by (rule two_calls_same[OF run])
  next
    case 3
    then show ?thesis using assms by (simp add: executeRemoveAction_def)
  qed
qed

lemma execute_action_same:
  assumes "same_but_manager ct (snd (fst s))"
  shows "same_but_manager ct (snd (fst (snd (execute_action env te task s))))"
proof -
  obtain n c w where s: "s = ((n, c), w)" by (metis prod.exhaust)
  obtain x1 c1 w1 where a: "executeApplyAction env te task (c, w) = (x1, c1, w1)" using prod_cases3 by blast
  obtain x2 c2 w2 where r: "executeRemoveAction env te task (c, w) = (x2, c2, w2)" using prod_cases3 by blast
  have "same_but_manager ct c" using assms s by simp
  then show ?thesis
    using s a r same_but_manager_trans[OF _ executeApplyAction_same[OF a]]
      same_but_manager_trans[OF _ executeRemoveAction_same[OF r]]
    by (simp add: execute_action_def prod.case_eq_if)
qed

section \<open>A pass that schedules\<close>

lemma reconcile_scheduled:
  assumes "fetched env req r w w1" and "settled env (main_reconciler sv) ct r w1"
    and "ValidateSchedule (env_cron env) (spec_Schedule (rule_Spec r)) = Inr ()"
    and "CalculateNextExecution (env_cron env) (env_now env w1) (spec_Schedule (rule_Spec r))
           (st_LastExecutionTime (rule_Status r)) = Ret (Inr (Some t))"
    and "GetExecutionAction (spec_Schedule (rule_Spec r)) (st_LastExecutionTime (rule_Status r)) = Ret (Inr a)"
    and "\<And>x. \<exists>y w'. api_updateStatus (env_api env) x w1 = (Inr y, w')"
  shows "\<exists>x. Reconcile env (main_reconciler sv) req (ct, w) =
      (Ret (requeue_after (10 * time_minute), None),
       ct\<lparr>ct_Scheduler := (ct_Scheduler ct)
           \<lparr>ts_tasks := mput (getRuleID r) (mk_task r a t) (ts_tasks (ct_Scheduler ct))\<rparr>\<rparr>,
       snd (api_updateStatus (env_api env) x w1)) \<and>
    rule_Spec x = rule_Spec r \<and> getRuleID x = getRuleID r \<and>
    st_NextExecutionTime (rule_Status x) = Some t \<and>
    st_Phase (rule_Status x) =
      (if st_Phase (rule_Status r) \<in> {[], PhasePending} then controller_PhaseActive else st_Phase (rule_Status r)) \<and>
    map (\<lambda>c. status_of c x) [ConditionTypeValidated, ConditionTypeScheduled, ConditionTypeReady, ConditionTypeError] =
      [Some ConditionTrue, Some ConditionTrue, Some ConditionTrue, Some ConditionFalse]"
proof -
  let ?now = "env_now env w1"
  let ?s = "(ct_Scheduler ct)\<lparr>ts_tasks := mput (getRuleID r) (mk_task r a t) (ts_tasks (ct_Scheduler ct))\<rparr>"
  let ?r3 = "scheduled ?now (validated ?now r)"
  let ?x = "activated ?now (with_next t ?r3)"
  have "ScheduleRule (env_cron env) ?now r (ct_Scheduler ct) = (Ret (Inr ()), ?s)"
    using assms(3-5) by (simp add: ScheduleRule_def Let_def)
  note begun = begin_scheduled[OF assms(1,2) this]
  have next_time: "processNextExecutionTime env (ct\<lparr>ct_Scheduler := ?s\<rparr>) ?r3 w1 =
      ((with_next t ?r3, no_requeue, None), w1)"
    by (simp add: processNextExecutionTime_def GetNextExecutionTime_def mk_task_def with_next_def Let_def)
  obtain y w' where upd: "api_updateStatus (env_api env) ?x w1 = (Inr y, w')" using assms(6) by blast
  then have "update_status env (?x, w1) = (Inr (), y, w')" by (simp add: update_status_def)
  note run = retried_ok[where op = "update_status env" and s = "(?x, w1)", OF this]
  have status: "updateRuleStatusWithErrorHandling env (main_reconciler sv) ?x w1 = ((no_requeue, None), w')"
    unfolding updateRuleStatusWithErrorHandling_def main_reconciler_sel run by simp
  have "reconcile_finish env (main_reconciler sv) (ct\<lparr>ct_Scheduler := ?s\<rparr>) ?r3 w1 =
      ((requeue_after (10 * time_minute), None), w')"
    unfolding reconcile_finish_def next_time prod.case updateRuleActiveStatus_eq status by (simp add: no_requeue_def)
  then have "Reconcile env (main_reconciler sv) req (ct, w) =
      (Ret (requeue_after (10 * time_minute), None), ct\<lparr>ct_Scheduler := ?s\<rparr>, snd (api_updateStatus (env_api env) ?x w1))"
    unfolding Reconcile_halves begun upd by simp
  moreover have "map (\<lambda>c. status_of c ?x) [ConditionTypeValidated, ConditionTypeScheduled, ConditionTypeReady, ConditionTypeError] =
      [Some ConditionTrue, Some ConditionTrue, Some ConditionTrue, Some ConditionFalse]"
    by (simp add: condition_types)
  ultimately show ?thesis by (intro exI[of _ ?x]) simp
qed

section \<open>Properties\<close>

text \<open>
  C2: a pass over a valid rule that has a next execution puts exactly one task for it into the
  scheduler, for the time and the action that the parser gives, keeps the tasks of the other
  rules, and writes one status: the next execution time, the phase \<open>active\<close> if the rule was new
  or pending, and conditions that say valid, scheduled, ready and without error.
\<close>

theorem reconcile_schedules_the_rule:
  assumes "fetched env req r w w1" and "settled env (main_reconciler sv) ct r w1"
    and "ValidateSchedule (env_cron env) (spec_Schedule (rule_Spec r)) = Inr ()"
    and "CalculateNextExecution (env_cron env) (env_now env w1) (spec_Schedule (rule_Spec r))
           (st_LastExecutionTime (rule_Status r)) = Ret (Inr (Some t))"
    and "GetExecutionAction (spec_Schedule (rule_Spec r)) (st_LastExecutionTime (rule_Status r)) = Ret (Inr a)"
    and "\<And>x. \<exists>y w'. api_updateStatus (env_api env) x w1 = (Inr y, w')"
  shows "\<exists>x. Reconcile env (main_reconciler sv) req (ct, w) =
      (Ret (requeue_after (10 * time_minute), None),
       ct\<lparr>ct_Scheduler := (ct_Scheduler ct)
           \<lparr>ts_tasks := mput (getRuleID r) (mk_task r a t) (ts_tasks (ct_Scheduler ct))\<rparr>\<rparr>,
       snd (api_updateStatus (env_api env) x w1)) \<and>
    rule_Spec x = rule_Spec r \<and> getRuleID x = getRuleID r \<and>
    st_NextExecutionTime (rule_Status x) = Some t \<and>
    st_Phase (rule_Status x) =
      (if st_Phase (rule_Status r) \<in> {[], PhasePending} then controller_PhaseActive else st_Phase (rule_Status r)) \<and>
    map (\<lambda>c. status_of c x) [ConditionTypeValidated, ConditionTypeScheduled, ConditionTypeReady, ConditionTypeError] =
      [Some ConditionTrue, Some ConditionTrue, Some ConditionTrue, Some ConditionFalse]"
  using assms by (rule reconcile_scheduled)

text \<open>
  A server that holds one rule: the world is the stored rule.  The clock stands at ten hours.
\<close>

definition rule_api :: "rule api" where
  "rule_api = \<lparr>api_now = (\<lambda>w. 10 * time_hour), api_sleep = (\<lambda>d w. w), api_list = (\<lambda>t s ns w. (Inr [], w)),
     api_get = (\<lambda>k w. (Inl (ApiError NotFound ''not found''), w)), api_update = (\<lambda>r w. (Inr r, w)),
     api_listRules = (\<lambda>w. (Inr [w], w)),
     api_getRule = (\<lambda>n w. (if n = (rule_Namespace w, rule_Name w) then Inr w
                            else Inl (ApiError NotFound ''not found''), w)),
     api_updateRule = (\<lambda>r w. (Inr r, r)), api_updateStatus = (\<lambda>r w. (Inr r, r)),
     api_createEvent = (\<lambda>e w. (Inr (), w)), api_log = (\<lambda>e w. w)\<rparr>"

definition rule_env :: "(rule, int) env" where
  "rule_env = \<lparr>env_deps = \<lparr>dep_api = rule_api, dep_lim = counting_bucket, dep_sel = sample_lib,
       dep_sort = (\<lambda>f xs. xs)\<rparr>, env_cron = every_minute, env_pause = (\<lambda>d w. (None, w))\<rparr>"

definition dated_schedule :: "gotime \<Rightarrow> schedule_config" where
  "dated_schedule start = datetime_schedule start (Some (100 * time_hour))"

definition dated_rule :: "gotime \<Rightarrow> gotime option \<Rightarrow> rule" where
  "dated_rule start prev =
     (let r = sample_rule prev in r\<lparr>rule_Finalizers := [AnnotationScheduleRuleFinalizer],
        rule_Spec := (rule_Spec r)\<lparr>spec_Schedule := dated_schedule start\<rparr>\<rparr>)"

lemma dated_rule_sel [simp]:
  "getRuleID (dated_rule start prev) = ''ns/r''" "rule_DeletionTimestamp (dated_rule start prev) = None"
  "rule_Finalizers (dated_rule start prev) = [AnnotationScheduleRuleFinalizer]"
  "spec_Schedule (rule_Spec (dated_rule start prev)) = dated_schedule start"
  "st_LastExecutionTime (rule_Status (dated_rule start prev)) = prev"
  "st_Phase (rule_Status (dated_rule start prev)) = []"
  "rule_Namespace (dated_rule start prev) = ''ns''" "rule_Name (dated_rule start prev) = ''r''"
  "spec_Annotations (rule_Spec (dated_rule start prev)) = [(''scheduler.k8s.io/managed-a'', ''v'')]"
  "spec_AnnotationGroups (rule_Spec (dated_rule start prev)) = []"
  "spec_TargetResources (rule_Spec (dated_rule start prev)) = [''pods'']"
  "spec_TemplateVariables (rule_Spec (dated_rule start prev)) = []"
  "spec_ConflictResolution (rule_Spec (dated_rule start prev)) = []"
  by (simp_all add: dated_rule_def Let_def getRuleID_def nsname_string_def sample_rule_def)

lemma rule_env_sel [simp]:
  "env_now rule_env w = 10 * time_hour" "env_cron rule_env = every_minute"
  "api_updateStatus (env_api rule_env) x w = (Inr x, x)"
  by (simp_all add: rule_env_def rule_api_def)

lemma dated_fetched: "fetched rule_env (''ns'', ''r'') (dated_rule start prev) (dated_rule start prev) (dated_rule start prev)"
  by (simp add: fetched_def rule_env_def rule_api_def)

lemma sample_annotations_valid:
  "ValidateAnnotations NewAnnotationValidator [(''scheduler.k8s.io/managed-a'', ''v'')] = Inr ()"
  by code_simp

lemma main_controller_validator [simp]:
  "rm_Validator (ct_ResourceManager (main_controller lib)) = NewAnnotationValidator"
  by (simp add: main_controller_def)

lemma dated_settled:
  assumes "start \<le> 100 * time_hour" and "rm_Validator (ct_ResourceManager ct) = NewAnnotationValidator"
  shows "settled rule_env (main_reconciler NewAnnotationValidator) ct (dated_rule start prev) w"
proof -
  have "validateAnnotationsConfig rule_env (main_reconciler NewAnnotationValidator) ct
      (dated_rule start prev) w = (Inr (), w)"
    using assms(2) by (simp add: validateAnnotationsConfig_def validateLegacyAnnotations_def
        sample_annotations_valid Let_def)
  then show ?thesis
    using assms by (simp add: settled_def validateRule_def validateResourceTypes_def ValidateResourceTypes_def
        supportedTypes_def validateConflictResolution_def validateTemplateVariables_def
        validateScheduleConfig_def validateDatetimeSchedule_def dated_schedule_def check_that_def
        and_then_def Let_def)
qed

lemma dated_accepted:
  "start < 100 * time_hour \<Longrightarrow> ValidateSchedule cron (dated_schedule start) = Inr ()"
  unfolding ValidateSchedule_ok_iff dated_schedule_def
  by (intro disjI1 exI[of _ start] exI[of _ "Some (100 * time_hour)"]) (simp add: after_start_def)

lemma dated_next:
  "start < 100 * time_hour \<Longrightarrow> CalculateNextExecution cron now (dated_schedule start) prev =
     Ret (Inr (if prev = None \<and> now < start then Some start
               else if prev = Some start \<and> now < 100 * time_hour then Some (100 * time_hour) else None))"
  by (simp add: CalculateNextExecution_def dated_accepted)
     (simp add: dated_schedule_def ScheduleTypeDateTime_def calculateDateTimeNextExecution_def)

text \<open>The rule that starts in ten hours has what a pass needs.\<close>

lemma dated_schedulable:
  fixes r defines "r \<equiv> dated_rule (20 * time_hour) None"
  shows "ValidateSchedule (env_cron rule_env) (spec_Schedule (rule_Spec r)) = Inr ()"
    and "CalculateNextExecution (env_cron rule_env) (env_now rule_env w) (spec_Schedule (rule_Spec r))
      (st_LastExecutionTime (rule_Status r)) = Ret (Inr (Some (20 * time_hour)))"
    and "GetExecutionAction (spec_Schedule (rule_Spec r)) (st_LastExecutionTime (rule_Status r)) = Ret (Inr ''apply'')"
    and "\<exists>y w'. api_updateStatus (env_api rule_env) x r = (Inr y, w')"
    and "rm_Validator (ct_ResourceManager ct) = NewAnnotationValidator \<Longrightarrow>
      settled rule_env (main_reconciler NewAnnotationValidator) ct r v"
  using dated_accepted[of "20 * time_hour" every_minute] dated_next[of "20 * time_hour"]
    dated_settled[of "20 * time_hour" ct None v]
  by (simp_all add: r_def time_consts GetExecutionAction_def getDateTimeAction_def ScheduleTypeDateTime_def
      dated_schedule_def)

theorem reconcile_schedules_the_rule_witness:
  "\<exists>w'. Reconcile rule_env (main_reconciler NewAnnotationValidator) (''ns'', ''r'')
       (main_controller counting_bucket, dated_rule (20 * time_hour) None) =
     (Ret (requeue_after (10 * time_minute), None),
      (main_controller counting_bucket)\<lparr>ct_Scheduler := NewTimeScheduler
         \<lparr>ts_tasks := mput ''ns/r'' (mk_task (dated_rule (20 * time_hour) None) ''apply'' (20 * time_hour)) []\<rparr>\<rparr>, w')"
  using reconcile_schedules_the_rule[OF dated_fetched dated_schedulable(5)[OF main_controller_validator]
      dated_schedulable(1-4)]
  by (auto simp: main_controller_def NewTimeScheduler_def)

text \<open>
  C35: a valid rule that has nothing more to do is never reported as completed: the scheduler has
  forgotten it by the time it is asked for the next execution, so the pass ends with an error and
  writes no status.  It is so for every rule with a start and an end whose recorded execution is
  not exactly the start time, and the annotations are then never removed.
\<close>

theorem completed_rule_fails:
  assumes "fetched env req r w w1" and "settled env (main_reconciler sv) ct r w1"
    and "ValidateSchedule (env_cron env) (spec_Schedule (rule_Spec r)) = Inr ()"
    and "CalculateNextExecution (env_cron env) (env_now env w1) (spec_Schedule (rule_Spec r))
           (st_LastExecutionTime (rule_Status r)) = Ret (Inr None)"
  shows "Reconcile env (main_reconciler sv) req (ct, w) =
    (Ret (no_requeue, Some (Errorf (''rule '' @ getRuleID r @ '' not found in scheduler''))),
     ct\<lparr>ct_Scheduler := (ct_Scheduler ct)\<lparr>ts_tasks := mdel (getRuleID r) (ts_tasks (ct_Scheduler ct))\<rparr>\<rparr>, w1)"
proof -
  let ?now = "env_now env w1"
  let ?s = "(ct_Scheduler ct)\<lparr>ts_tasks := mdel (getRuleID r) (ts_tasks (ct_Scheduler ct))\<rparr>"
  let ?r3 = "scheduled ?now (validated ?now r)"
  have "ScheduleRule (env_cron env) ?now r (ct_Scheduler ct) = (Ret (Inr ()), ?s)"
    using assms(3,4) by (simp add: ScheduleRule_def Let_def)
  note begun = begin_scheduled[OF assms(1,2) this]
  obtain x where next_time: "processNextExecutionTime env (ct\<lparr>ct_Scheduler := ?s\<rparr>) ?r3 w1 =
      ((x, no_requeue, Some (Errorf (''rule '' @ getRuleID r @ '' not found in scheduler''))), w1)"
    by (simp add: processNextExecutionTime_def GetNextExecutionTime_def Let_def)
  show ?thesis
    unfolding Reconcile_halves begun prod.case sum.case reconcile_finish_def next_time by simp
qed

theorem completed_rule_fails_witness:
  "let r = dated_rule time_hour (Some (time_hour + 5)) in
   Reconcile rule_env (main_reconciler NewAnnotationValidator) (''ns'', ''r'') (main_controller counting_bucket, r) =
     (Ret (no_requeue, Some (Errorf ''rule ns/r not found in scheduler'')), main_controller counting_bucket, r)"
proof -
  let ?r = "dated_rule time_hour (Some (time_hour + 5))"
  have "time_hour \<le> 100 * time_hour" "time_hour < 100 * time_hour" by (simp_all add: time_consts)
  note facts = dated_settled[OF this(1) main_controller_validator] dated_accepted[OF this(2)]
  have "CalculateNextExecution every_minute (10 * time_hour) (spec_Schedule (rule_Spec ?r)) (Some (time_hour + 5)) =
      Ret (Inr None)"
    using dated_next[of time_hour] by (simp add: time_consts)
  then show ?thesis
    using completed_rule_fails[OF dated_fetched facts(1)] facts(2)
    by (simp add: main_controller_def NewTimeScheduler_def mdel_def)
qed

text \<open>
  C36: a pass for a rule that no longer exists takes its task out of the scheduler and then
  dereferences the nil rule: with a recovery manager the panic becomes an error and another pass
  in five minutes, without one it goes up.
\<close>

theorem missing_rule_panics:
  assumes "api_getRule (env_api env) req w = (Inl e, w1)" and "is_reason NotFound e"
  shows "Reconcile env (main_reconciler sv) req (ct, w) =
      (Ret (requeue_after (5 * time_minute), Some (Errorf (''panic in reconcile: '' @ nil_deref))),
       unschedule (nsname_string req) ct, w1) \<and>
    Reconcile env ((main_reconciler sv)\<lparr>rec_RecoveryManager := None\<rparr>) req (ct, w) =
      (Panic nil_deref, unschedule (nsname_string req) ct, w1)"
proof -
  have "get_rule env req (None, w) = (Inl e, None, w1)" using assms(1) by (simp add: get_rule_def)
  note run = retried_permanent[where op = "get_rule env req" and s = "(None, w)",
      OF this not_found_permanent[OF assms(2)]]
  have fetch: "fetchRule env rc req (ct, w) = ((None, no_requeue, None), unschedule (nsname_string req) ct, w1)"
    if "rec_ErrorHandler rc = Some DefaultRetryConfig" for rc
    using assms(2) by (simp add: fetchRule_def that run)
  show ?thesis
    by (simp add: Reconcile_def safeReconcile_def doReconcile_def fetch)
qed

theorem missing_rule_panics_witness:
  "Reconcile rule_env (main_reconciler NewAnnotationValidator) (''ns'', ''gone'')
     (main_controller counting_bucket, sample_rule None) =
   (Ret (requeue_after (5 * time_minute), Some (Errorf (''panic in reconcile: '' @ nil_deref))),
    main_controller counting_bucket, sample_rule None)"
proof -
  have "api_getRule (env_api rule_env) (''ns'', ''gone'') (sample_rule None) =
      (Inl (ApiError NotFound ''not found''), sample_rule None)"
    by (simp add: rule_env_def rule_api_def sample_rule_def)
  then show ?thesis
    using missing_rule_panics[where env = rule_env and req = "(''ns'', ''gone'')" and w = "sample_rule None"]
    by (simp add: unschedule_def UnscheduleRule_def main_controller_def NewTimeScheduler_def mdel_def)
qed

text \<open>
  C11: the deletion of a rule takes its task out of the scheduler first, then the plain annotations
  of the rule off the matching resources, and gives up the finalizer only if that succeeded.  A
  rule of annotation groups loses its finalizer without a look at the resources: what its groups
  have written stays.
\<close>

theorem deletion_order:
  assumes "AnnotationScheduleRuleFinalizer \<in> set (rule_Finalizers r)"
    and "handleDeletion env (main_reconciler sv) r (ct, w) = ((result, err), ct', w')"
  shows "ct_Scheduler ct' = snd (UnscheduleRule (getRuleID r) (ct_Scheduler ct)) \<and>
    (let w1 = LogRuleDeletion (env_api env) (getRuleID r) (rule_Name r) (rule_Namespace r)
                (spec_Annotations (rule_Spec r)) w;
         without = r\<lparr>rule_Finalizers := filter (\<lambda>f. f \<noteq> AnnotationScheduleRuleFinalizer) (rule_Finalizers r)\<rparr>;
         removal = RemoveAnnotations (env_deps env) (spec_Selector (rule_Spec r))
           (mkeys (spec_Annotations (rule_Spec r))) (spec_TargetResources (rule_Spec r)) (rule_Namespace r)
           (getRuleID r) (ct_ResourceManager ct, w1)
     in if spec_Annotations (rule_Spec r) = []
        then ct_ResourceManager ct' = ct_ResourceManager ct \<and> w' = snd (api_updateRule (env_api env) without w1)
        else case removal of
          (Inl e, rm, w2) \<Rightarrow> err = Some e \<and> result = requeue_after time_minute \<and> w' = w2
        | (Inr _, rm, w2) \<Rightarrow> ct_ResourceManager ct' = rm \<and> w' = snd (api_updateRule (env_api env) without w2))"
proof -
  let ?w1 = "LogRuleDeletion (env_api env) (getRuleID r) (rule_Name r) (rule_Namespace r)
    (spec_Annotations (rule_Spec r)) w"
  let ?without = "r\<lparr>rule_Finalizers := filter (\<lambda>f. f \<noteq> AnnotationScheduleRuleFinalizer) (rule_Finalizers r)\<rparr>"
  have keys: "mkeys (spec_Annotations (rule_Spec r)) = [] \<longleftrightarrow> spec_Annotations (rule_Spec r) = []"
    by (simp add: mkeys_def)
  obtain res ct2 w2 where clean: "cleanupRuleAnnotations env r (unschedule (getRuleID r) ct, ?w1) = (res, ct2, w2)"
    using prod_cases3 by blast
  have table: "ct_Scheduler ct2 = snd (UnscheduleRule (getRuleID r) (ct_Scheduler ct))"
    using clean by (auto simp: cleanupRuleAnnotations_def unschedule_def Let_def split: if_splits prod.splits)
  show ?thesis
  proof (cases res)
    case (Inl e)
    then have "err = Some e" "result = requeue_after time_minute" "ct' = ct2" "w' = w2"
      using assms clean by (simp_all add: handleDeletion_def Let_def)
    then show ?thesis
      using Inl clean table keys by (auto simp: cleanupRuleAnnotations_def unschedule_def Let_def split: if_splits prod.splits)
  next
    case (Inr u)
    obtain x w3 where upd: "api_updateRule (env_api env) ?without w2 = (x, w3)" by fastforce
    have "ct' = ct2" "w' = snd (api_updateRule (env_api env) ?without w2)"
      using assms clean Inr upd by (cases x; simp add: handleDeletion_def update_rule_def Let_def)+
    then show ?thesis
      using Inr clean table keys by (auto simp: cleanupRuleAnnotations_def unschedule_def Let_def split: if_splits prod.splits)
  qed
qed

definition grouped_rule :: rule where
  "grouped_rule = (let r = dated_rule time_hour None in r\<lparr>rule_DeletionTimestamp := Some 0,
     rule_Spec := (rule_Spec r)\<lparr>spec_Annotations := []\<rparr>\<rparr>)"

theorem deletion_order_witness:
  "rule_Finalizers (snd (snd (handleDeletion rule_env (main_reconciler NewAnnotationValidator) grouped_rule
     (main_controller counting_bucket, grouped_rule)))) = []"
proof -
  obtain result err ct' w' where h: "handleDeletion rule_env (main_reconciler NewAnnotationValidator) grouped_rule
      (main_controller counting_bucket, grouped_rule) = ((result, err), ct', w')"
    by (metis prod.exhaust)
  have f: "rule_Finalizers grouped_rule = [AnnotationScheduleRuleFinalizer]"
    "spec_Annotations (rule_Spec grouped_rule) = []"
    by (simp_all add: grouped_rule_def Let_def)
  then have "w' = snd (api_updateRule (env_api rule_env) (grouped_rule\<lparr>rule_Finalizers := []\<rparr>) grouped_rule)"
    using deletion_order[OF _ h] by (simp add: Let_def rule_env_def rule_api_def LogRuleDeletion_def logEvent_def)
  then show ?thesis using h by (simp add: rule_env_def rule_api_def)
qed

text \<open>A scheduler that was not started and has no task in its queue.\<close>

definition scheduler_idle :: "time_scheduler \<Rightarrow> bool" where
  "scheduler_idle s \<longleftrightarrow> \<not> ts_started s \<and> ts_taskQueue s = []"

interpretation idle: pass_invariant cron sv "\<lambda>_. True" "\<lambda>_. True" "\<lambda>_. True" scheduler_idle for cron sv
  by unfold_locales (simp_all add: scheduler_idle_def ScheduleRule_frame UnscheduleRule_def)

text \<open>
  C29: the process that \<open>main\<close> puts together never starts its scheduler: \<open>SetupWithManager\<close> starts
  the loop, the metrics and the recovery of the state only if it made the scheduler itself, and
  \<open>main\<close> gives it one.  Whatever rules are reconciled, the scheduler is not started and no task
  is ever queued, and the readiness check passes all the same.
\<close>

theorem main_never_starts_the_scheduler:
  "set (main_routines lib sv) \<inter> {SchedulerStart, MetricsLogging, StateRecovery} = {} \<and>
   {SchedulerStart, MetricsLogging, StateRecovery} \<subseteq>
     set (snd (SetupWithManager lib ((main_fields lib sv)\<lparr>rf_Scheduler := None\<rparr>))) \<and>
   readinessCheck (fst (SetupWithManager lib (main_fields lib sv))) = Inr () \<and>
   (let ct = fst (fold (\<lambda>req st. snd (Reconcile env (main_reconciler sv) req st)) reqs (main_controller lib, w))
    in \<not> ts_started (ct_Scheduler ct) \<and> ts_taskQueue (ct_Scheduler ct) = [])"
proof -
  let ?I = "\<lambda>_. True"
  have server: "rule_server (\<lambda>_. True) (\<lambda>_. True) ?I env" by (simp add: rule_server_def calm_def)
  have "scheduler_idle (ct_Scheduler (fst (fold (\<lambda>req st. snd (Reconcile env (main_reconciler sv) req st)) reqs st)))"
    if "scheduler_idle (ct_Scheduler (fst st))" for st
    using that
  proof (induction reqs arbitrary: st)
    case (Cons req reqs)
    obtain ct w where st: "st = (ct, w)" by fastforce
    obtain r ct1 w1 where run: "Reconcile env (main_reconciler sv) req (ct, w) = (r, ct1, w1)" using prod_cases3 by blast
    have "scheduler_idle (ct_Scheduler ct1)"
      using idle.reconcile_keeps[OF server refl refl _ run] Cons.prems st by simp
    then show ?case using Cons.IH[of "(ct1, w1)"] st run by simp
  qed simp
  from this[of "(main_controller lib, w)"] show ?thesis
    by (simp add: main_routines_def main_setup StartPerformanceOptimizations_def main_fields_def
        readinessCheck_def SetupWithManager_def or_default_def main_controller_def NewTimeScheduler_def
        check_that_def and_then_def Let_def scheduler_idle_def split: option.split)
qed

text \<open>
  C13: an execution of a task is counted once, however often it was retried: the total goes up by
  one, and the successes or the failures with it, according to the result; the task table is
  left as it is.
\<close>

theorem executions_are_counted_once:
  assumes "ct_Metrics ct = Some m" and "ExecuteTask env (main_executor sv) task (ct, w) = (r, ct', w')"
  shows "\<exists>m'. ct_Metrics ct' = Some m' \<and> ct_Scheduler ct' = ct_Scheduler ct \<and>
    em_TotalExecutions m' = em_TotalExecutions m + 1 \<and>
    em_SuccessfulExecutions m' = em_SuccessfulExecutions m + (if r = Inr () then 1 else 0) \<and>
    em_FailedExecutions m' = em_FailedExecutions m + (if r = Inr () then 0 else 1)"
proof -
  let ?name = "''execute-task-'' @ task_RuleID task @ ''-'' @ task_Action task"
  let ?I = "\<lambda>s. same_but_manager ct (snd (fst s))"
  obtain r1 n ct1 w1 where run: "retried env (te_errorHandler (main_executor sv)) ?name
      (execute_action env (main_executor sv) task) ((0, ct), w) = (r1, (n, ct1), w1)"
    by (metis prod.exhaust)
  have "?I (snd (retried env (te_errorHandler (main_executor sv)) ?name
      (execute_action env (main_executor sv) task) ((0, ct), w)))"
    by (intro retried_inv[where I = ?I] execute_action_same) simp_all
  then have same: "same_but_manager ct ct1" using run by simp
  then show ?thesis
    using assms run by (auto simp: ExecuteTask_def Let_def same_but_manager_def RecordExecution_def)
qed

theorem executions_are_counted_once_witness:
  "\<exists>m r ct' w'. ExecuteTask rule_env (main_executor NewAnnotationValidator)
      (mk_task (dated_rule time_hour None) ''apply'' time_hour)
      (main_controller counting_bucket, dated_rule time_hour None) = (r, ct', w') \<and>
    ct_Metrics ct' = Some m \<and> em_TotalExecutions m = 1"
proof -
  obtain r ct' w' where run: "ExecuteTask rule_env (main_executor NewAnnotationValidator)
      (mk_task (dated_rule time_hour None) ''apply'' time_hour)
      (main_controller counting_bucket, dated_rule time_hour None) = (r, ct', w')"
    using prod_cases3 by blast
  have "ct_Metrics (main_controller counting_bucket) = Some no_executions" by (simp add: main_controller_def)
  from executions_are_counted_once[OF this run] run show ?thesis by (auto simp: no_executions_def)
qed

end
