(* ===== verification/Execution_Properties.thy ===== *)
theory Execution_Properties
  imports Controller_Properties
begin

text \<open>
  The way of a task from the executor to the API server: an \<open>apply\<close> task annotates every matching
  resource and nothing else.
\<close>

section \<open>All matching resources\<close>

text \<open>What is neither an update nor a read of a resource leaves the stored resources alone.\<close>

definition resources_framed :: "('w \<Rightarrow> object_key \<Rightarrow> resource option) \<Rightarrow> ('w, 'l) env \<Rightarrow> bool" where
  "resources_framed objs env \<longleftrightarrow>
     (\<forall>e w. objs (api_log (env_api env) e w) = objs w) \<and>
     (\<forall>n w. objs (snd (api_getRule (env_api env) n w)) = objs w) \<and>
     (\<forall>r w. objs (snd (api_updateStatus (env_api env) r w)) = objs w) \<and>
     (\<forall>d w. objs (snd (env_pause env d w)) = objs w)"

lemma framed_log: "resources_framed objs env \<Longrightarrow> objs (api_log (env_api env) e w) = objs w"
  by (simp add: resources_framed_def)

lemma framed_audit:
  assumes "resources_framed objs env"
  shows "objs (LogAnnotationApply (env_api env) i n ns r a b e w) = objs w"
    and "objs (audit_all (\<lambda>r. LogAnnotationApply (env_api env) i n ns r a b e) rs w) = objs w"
proof -
  show *: "objs (LogAnnotationApply (env_api env) i n ns r a b e w) = objs w" for r w
    by (simp add: LogAnnotationApply_def logEvent_def framed_log[OF assms])
  have "objs (fold (\<lambda>r. LogAnnotationApply (env_api env) i n ns r a b e) rs w) = objs w"
    by (induction rs arbitrary: w) (simp_all add: *)
  then show "objs (audit_all (\<lambda>r. LogAnnotationApply (env_api env) i n ns r a b e) rs w) = objs w"
    by (simp add: audit_all_def)
qed

text \<open>The resource that an application of annotations makes of the stored one.\<close>

definition annotated :: "(str, str) gomap \<Rightarrow> str \<Rightarrow> resource \<Rightarrow> resource" where
  "annotated annotations ruleID cur =
     set_annotations (write_annotations annotations ruleID (or_empty (res_Annotations cur))) cur"

definition same_but_version :: "resource \<Rightarrow> resource \<Rightarrow> bool" where
  "same_but_version a b \<longleftrightarrow> (\<exists>v. a = b\<lparr>res_ResourceVersion := v\<rparr>)"

text \<open>The store after the resources with the given keys were annotated.\<close>

definition store_annotated :: "(str, str) gomap \<Rightarrow> str \<Rightarrow> object_key set \<Rightarrow>
    (object_key \<Rightarrow> resource option) \<Rightarrow> (object_key \<Rightarrow> resource option) \<Rightarrow> bool" where
  "store_annotated annotations ruleID ks before after \<longleftrightarrow>
     (\<forall>k. if k \<in> ks
          then (\<exists>cur new. before k = Some cur \<and> after k = Some new \<and>
                 same_but_version new (annotated annotations ruleID cur))
          else after k = before k)"

lemma store_annotated_other:
  "store_annotated annotations ruleID ks before after \<Longrightarrow> k \<notin> ks \<Longrightarrow> after k = before k"
  unfolding store_annotated_def by metis

lemma store_annotated_at:
  assumes "store_annotated annotations ruleID ks before after" and "k \<in> ks"
  obtains cur new where "before k = Some cur" "after k = Some new"
    "same_but_version new (annotated annotations ruleID cur)"
  using assms unfolding store_annotated_def by metis

text \<open>
  The listed resources are different, stored (perhaps in a newer version), and the server accepts
  what is to be written into them.
\<close>

definition writable :: "((str, str) gomap \<Rightarrow> bool) \<Rightarrow> ('w \<Rightarrow> object_key \<Rightarrow> resource option) \<Rightarrow>
    (str, str) gomap \<Rightarrow> str \<Rightarrow> resource list \<Rightarrow> 'w \<Rightarrow> bool" where
  "writable accepts objs annotations ruleID rs w \<longleftrightarrow> distinct (map object_key rs) \<and>
     (\<forall>r\<in>set rs. \<exists>cur. objs w (object_key r) = Some cur \<and> read_from r cur \<and>
        accepts (write_annotations annotations ruleID (or_empty (res_Annotations cur))))"

lemma apply_all:
  assumes os: "optimistic_store accepts objs (env_api env)" and fr: "resources_framed objs env"
    and "writable accepts objs annotations ruleID rs w"
  shows "\<exists>w'. for_each (apply_and_audit (env_api env) annotations ns ruleID) rs w =
      (map (\<lambda>_. Inr ()) rs, w') \<and>
    store_annotated annotations ruleID (object_key ` set rs) (objs w) (objs w')"
  using assms(3)
proof (induction rs arbitrary: w)
  case Nil
  then show ?case by (simp add: store_annotated_def)
next
  case (Cons r rs)
  obtain cur where cur: "objs w (object_key r) = Some cur" "read_from r cur"
    "accepts (write_annotations annotations ruleID (or_empty (res_Annotations cur)))"
    using Cons.prems by (auto simp: writable_def)
  obtain v w1 where app: "applyAnnotationsToResource (env_api env) r annotations ruleID w = (Inr (), w1)"
    "objs w1 = (objs w)(object_key r \<mapsto>
       (set_annotations (write_annotations annotations ruleID (or_empty (res_Annotations cur))) cur)
         \<lparr>res_ResourceVersion := v\<rparr>)"
    by (rule apply_stores[OF os cur])
  define w2 where "w2 = LogAnnotationApply (env_api env) ruleID [] ns r annotations True None w1"
  have step: "apply_and_audit (env_api env) annotations ns ruleID r w = (Inr (), w2)"
    by (simp add: apply_and_audit_def app(1) w2_def)
  have o2: "objs w2 = (objs w)(object_key r \<mapsto> (annotated annotations ruleID cur)\<lparr>res_ResourceVersion := v\<rparr>)"
    by (simp add: w2_def framed_audit[OF fr] app(2) annotated_def)
  have other: "object_key r \<notin> object_key ` set rs" using Cons.prems by (simp add: writable_def)
  have "writable accepts objs annotations ruleID rs w2"
    using Cons.prems other unfolding writable_def o2 by (auto simp: image_iff)
  then obtain w' where rest: "for_each (apply_and_audit (env_api env) annotations ns ruleID) rs w2 =
      (map (\<lambda>_. Inr ()) rs, w')"
    "store_annotated annotations ruleID (object_key ` set rs) (objs w2) (objs w')"
    using Cons.IH by blast
  have "store_annotated annotations ruleID (object_key ` set (r # rs)) (objs w) (objs w')"
    unfolding store_annotated_def
  proof
    fix k
    show "if k \<in> object_key ` set (r # rs)
      then (\<exists>c new. objs w k = Some c \<and> objs w' k = Some new \<and>
             same_but_version new (annotated annotations ruleID c))
      else objs w' k = objs w k"
    proof (cases "k = object_key r")
      case True
      then have "objs w' k = objs w2 k" using store_annotated_other[OF rest(2)] other by simp
      then have "objs w' k = Some ((annotated annotations ruleID cur)\<lparr>res_ResourceVersion := v\<rparr>)"
        using True o2 by simp
      then show ?thesis using True cur by (auto simp: same_but_version_def)
    next
      case False
      then have "objs w2 k = objs w k" using o2 by simp
      moreover have "k \<in> object_key ` set (r # rs) \<longleftrightarrow> k \<in> object_key ` set rs" using False by simp
      ultimately show ?thesis using rest(2) unfolding store_annotated_def by metis
    qed
  qed
  then show ?case using step rest(1) by (intro exI[of _ w']) simp
qed

lemma no_failures [simp]: "failures (map (\<lambda>_. Inr ()) rs) = 0"
  by (simp add: failures_def)

lemma apply_annotations_all:
  assumes os: "optimistic_store accepts objs (env_api env)" and fr: "resources_framed objs env"
    and "annotations \<noteq> []"
    and wait: "rate_wait (env_deps env) OperationTypeApply ns st = (Inr (), rm1, w1)"
    and "ValidateAnnotations (rm_Validator rm1) annotations = Inr ()"
    and query: "GetMatchingResources (env_deps env) selector types ns (rm1, w1) = (Inr rs, rm2, w2)"
    and known: "writable accepts objs annotations ruleID rs w2"
  obtains rm' w' where "ApplyAnnotations (env_deps env) selector annotations types ns ruleID st = (Inr (), rm', w')"
    "store_annotated annotations ruleID (object_key ` set rs) (objs w2) (objs w')"
proof (cases "rs = []")
  case True
  have "ApplyAnnotations (env_deps env) selector annotations types ns ruleID st = (Inr (), rm2, w2)"
    using assms(3,5) by (simp add: ApplyAnnotations_def wait query True)
  then show thesis using that True by (simp add: store_annotated_def)
next
  case False
  obtain w' where run: "for_each (apply_and_audit (env_api env) annotations ns ruleID) rs w2 = (map (\<lambda>_. Inr ()) rs, w')"
    "store_annotated annotations ruleID (object_key ` set rs) (objs w2) (objs w')"
    using apply_all[OF os fr known] by blast
  have "ApplyAnnotations (env_deps env) selector annotations types ns ruleID st = (Inr (), cache_invalidate ns rm2, w')"
    using assms(3,5) False by (simp add: ApplyAnnotations_def wait query run(1))
  then show thesis using that run(2) by blast
qed

section \<open>The executor\<close>

lemma retry_on_manager_ok:
  assumes "f (ct_ResourceManager ct, w) = (Inr x, rm, w1)"
  shows "retry_on_manager env (main_executor sv) name f nil (ct, w) =
    (Inr (), (x, ct\<lparr>ct_ResourceManager := rm\<rparr>), w1)"
proof -
  have "on_manager f nil ((nil, ct), w) = (Inr (), (x, ct\<lparr>ct_ResourceManager := rm\<rparr>), w1)"
    by (simp add: on_manager_def assms)
  note run = retried_ok[where op = "on_manager f nil" and s = "((nil, ct), w)", OF this]
  show ?thesis by (simp add: retry_on_manager_def run)
qed

lemma status_update_framed:
  assumes fr: "resources_framed objs env"
  shows "objs (updateRuleStatusAfterExecution env te task e n t w) = objs w"
proof (cases "task_rule task")
  case None
  then show ?thesis by (simp add: updateRuleStatusAfterExecution_def)
next
  case (Some name)
  let ?I = "\<lambda>s. objs (snd s) = objs w"
  have "?I (snd (updateOperation (env_api env) task e n t name s))" if I: "?I s" for s
  proof -
    obtain u v where s: "s = (u, v)" by (metis prod.exhaust)
    obtain g v1 where g: "api_getRule (env_api env) name v = (g, v1)" by fastforce
    have o1: "objs v1 = objs w" using fr g I s by (metis resources_framed_def snd_conv)
    show ?thesis
    proof (cases g)
      case (Inl err)
      then show ?thesis using s g o1 by (simp add: updateOperation_def)
    next
      case (Inr r)
      obtain x v2 where x: "api_updateStatus (env_api env)
          (executed_status (api_now (env_api env) v1) task e n t r) v1 = (x, v2)" by fastforce
      have "objs v2 = objs w" using fr x o1 by (metis resources_framed_def snd_conv)
      then show ?thesis using s g Inr x by (cases x) (simp_all add: updateOperation_def)
    qed
  qed
  moreover have "?I (u, snd (env_pause env d v))" if "?I (u, v)" for d u v
    using that fr by (simp add: resources_framed_def)
  ultimately have "?I (snd (retried env (te_errorHandler te) (''update-rule-status-'' @ task_RuleID task)
      (updateOperation (env_api env) task e n t name) ((), w)))"
    by (intro retried_inv[where I = ?I]) auto
  then show ?thesis using Some by (simp add: updateRuleStatusAfterExecution_def)
qed


text \<open>A server that lists one pod, and a manager without cache and rate limiter.\<close>

definition pod_env :: "(mem_world, int) env" where
  "pod_env = \<lparr>env_deps = listing_deps [], env_cron = every_minute, env_pause = (\<lambda>d w. (None, w))\<rparr>"

definition plain_manager :: "int resource_manager" where
  "plain_manager = (NewResourceManager counting_bucket)\<lparr>rm_Cache := None, rm_RateLimiter := None\<rparr>"

lemma plain_pods:
  "rate_wait (listing_deps []) kind ns (plain_manager, w) = (Inr (), plain_manager, w)"
  "GetMatchingResources (listing_deps []) empty_selector [''pods''] ns (plain_manager, w) =
     (Inr [sample_resource []], plain_manager, w)"
  "rm_Validator plain_manager = NewAnnotationValidator"
proof -
  show wait: "rate_wait (listing_deps []) kind ns (plain_manager, w) = (Inr (), plain_manager, w)" for kind
    by (simp add: rate_wait_def plain_manager_def)
  have look: "cache_lookup (listing_deps []) empty_selector [''pods''] ns (plain_manager, w) = (None, plain_manager, w)"
    "cache_fill (listing_deps []) empty_selector [''pods''] ns rs (plain_manager, w) = (plain_manager, w)" for rs
    by (simp_all add: cache_lookup_def cache_fill_def plain_manager_def)
  have conv: "sel_convert (dep_sel (listing_deps [])) empty_selector = Inr ''ok''"
    by (simp add: listing_deps_def sample_lib_def empty_selector_def)
  have "list_types (dep_api (listing_deps [])) empty_selector [''pods''] ns w = ([sample_resource []], w)"
    by (simp add: list_types_def getResourcesByType_alt supportedTypes_def listing_deps_def listing_api_def)
  then show "GetMatchingResources (listing_deps []) empty_selector [''pods''] ns (plain_manager, w) =
     (Inr [sample_resource []], plain_manager, w)"
    by (simp add: GetMatchingResources_def wait look conv)
  show "rm_Validator plain_manager = NewAnnotationValidator" by (simp add: plain_manager_def)
qed


section \<open>The key of the tracking entry\<close>

definition slashes :: "str \<Rightarrow> nat" where "slashes k = length (filter (\<lambda>c. c = CHR ''/'') k)"

lemma slashes_append [simp]: "slashes (a @ b) = slashes a + slashes b"
  by (simp add: slashes_def)

lemma slashes_none: "CHR ''/'' \<notin> set k \<Longrightarrow> slashes k = 0"
  by (auto simp: slashes_def filter_empty_conv)

lemma tracking_slashes: "2 \<le> slashes (trackingKey (getRuleID r))"
proof -
  have "slashes ''scheduler.k8s.io/rule-'' = 1" "slashes ''/'' = 1" by (simp_all add: slashes_def)
  moreover have "trackingKey (getRuleID r) =
      ''scheduler.k8s.io/rule-'' @ rule_Namespace r @ ''/'' @ rule_Name r @ ''-annotations''"
    by (simp add: trackingKey_def getRuleID_def nsname_string_def)
  ultimately show ?thesis by (simp only: slashes_append)
qed

lemma dns_key_slashes:
  assumes "dns_key k" shows "slashes k \<le> 1"
proof -
  have "slashes ''/'' = 1" by (simp add: slashes_def)
  then show ?thesis
    using assms dns_label_no_slash slashes_none unfolding dns_key_def
    by (metis (no_types, lifting) add_0 add_0_right eq_imp_le slashes_append zero_le_one)
qed

lemma tracking_key_invalid: "\<not> is_ok (ValidateAnnotationKey av (trackingKey (getRuleID r)))"
proof
  assume "is_ok (ValidateAnnotationKey av (trackingKey (getRuleID r)))"
  then have "ValidateAnnotationKey av (trackingKey (getRuleID r)) = Inr ()"
    by (cases "ValidateAnnotationKey av (trackingKey (getRuleID r))") auto
  then have "dns_key (trackingKey (getRuleID r))" by (simp add: ValidateAnnotationKey_ok)
  then show False using dns_key_slashes tracking_slashes[of r] by fastforce
qed

lemma written_keys: "annotations \<noteq> [] \<Longrightarrow> trackingKey ruleID \<in> set (mkeys (write_annotations annotations ruleID m))"
  by (simp add: write_annotations_def Let_def) (simp add: mkeys_def)

lemma apply_refused:
  assumes os: "optimistic_store accepts objs api" and cur: "objs w (object_key r) = Some cur"
    and no: "\<And>m. \<not> accepts (write_annotations annotations ruleID m)"
  obtains e w' where "applyAnnotationsToResource api r annotations ruleID w = (Inl e, w')" "objs w' = objs w"
proof -
  let ?wr = "\<lambda>c. set_annotations (write_annotations annotations ruleID (or_empty (res_Annotations c))) c"
  let ?fail = "Wrapf ''failed to update resource annotations: ''"
  have app: "applyAnnotationsToResource api r annotations ruleID w =
      update_loop api ?wr ?fail (Inr ()) (object_key r) (Suc (Suc (Suc 0))) (?wr r) w"
    by (simp only: applyAnnotationsToResource_def Let_def maxUpdateRetries_def numeral_3_eq_3)
  have "objs w (object_key (?wr r)) = Some cur" "\<not> accepts (or_empty (res_Annotations (?wr r)))"
    using cur no by simp_all
  then obtain e w1 where u: "api_update api (?wr r) w = (Inl e, w1)" "objs w1 = objs w"
    "is_reason Conflict e \<longleftrightarrow> res_ResourceVersion (?wr r) \<noteq> res_ResourceVersion cur"
    by (rule os_refused[OF os])
  show thesis
  proof (cases "is_reason Conflict e")
    case False
    then show thesis using that[of "?fail e" w1] app u by simp
  next
    case True
    have "objs w1 (object_key r) = Some cur" using cur u(2) by simp
    then obtain w2 where g: "api_get api (object_key r) w1 = (Inr cur, w2)" "objs w2 = objs w1"
      by (rule os_get[OF os])
    define w3 where "w3 = api_sleep api (int (maxUpdateRetries - Suc (Suc 0)) * 100 * time_millisecond) w2"
    have o3: "objs w3 = objs w" using os_sleep[OF os] g(2) u(2) by (simp add: w3_def)
    have "objs w3 (object_key (?wr cur)) = Some cur" "\<not> accepts (or_empty (res_Annotations (?wr cur)))"
      using cur no os_key[OF os cur] o3 by simp_all
    then obtain e2 w4 where u2: "api_update api (?wr cur) w3 = (Inl e2, w4)" "objs w4 = objs w3"
      "is_reason Conflict e2 \<longleftrightarrow> res_ResourceVersion (?wr cur) \<noteq> res_ResourceVersion cur"
      by (rule os_refused[OF os])
    then have "applyAnnotationsToResource api r annotations ruleID w = (Inl (?fail e2), w4)"
      using True u(1) g(1) unfolding app by (simp add: w3_def[symmetric])
    then show thesis using that u2(2) o3 by simp
  qed
qed

lemma apply_all_refused:
  assumes os: "optimistic_store accepts objs (env_api env)" and fr: "resources_framed objs env"
    and no: "\<And>m. \<not> accepts (write_annotations annotations ruleID m)"
    and "\<forall>r\<in>set rs. objs w (object_key r) \<noteq> None"
  shows "\<exists>ys w'. for_each (apply_and_audit (env_api env) annotations ns ruleID) rs w = (ys, w') \<and>
    failures ys = length rs \<and> objs w' = objs w"
  using assms(4)
proof (induction rs arbitrary: w)
  case Nil
  then show ?case by (simp add: failures_def)
next
  case (Cons r rs)
  obtain cur where "objs w (object_key r) = Some cur" using Cons.prems by auto
  then obtain e w1 where app: "applyAnnotationsToResource (env_api env) r annotations ruleID w = (Inl e, w1)"
    "objs w1 = objs w"
    by (rule apply_refused[OF os _ no])
  define w2 where "w2 = LogAnnotationApply (env_api env) ruleID [] ns r annotations False (Some e) w1"
  have step: "apply_and_audit (env_api env) annotations ns ruleID r w = (Inl e, w2)"
    by (simp add: apply_and_audit_def app(1) w2_def)
  have o2: "objs w2 = objs w" by (simp add: w2_def framed_audit[OF fr] app(2))
  obtain ys w' where "for_each (apply_and_audit (env_api env) annotations ns ruleID) rs w2 = (ys, w')"
    "failures ys = length rs" "objs w' = objs w2"
    using Cons.IH[of w2] Cons.prems o2 by auto
  then show ?case using step o2 by (simp add: failures_def)
qed

text \<open>
  C16: on a server that refuses annotation keys with more than one slash, as the Kubernetes API
  server does, no application of annotations succeeds: the ID of a rule holds a slash, so the key
  of its tracking entry holds two, and every update is refused.  The validator of the controller
  itself would refuse that key, whatever its configuration.
\<close>

theorem tracking_key_is_refused:
  assumes "optimistic_store accepts objs (env_api env)" and "resources_framed objs env"
    and "\<forall>m. accepts m \<longrightarrow> (\<forall>k\<in>set (mkeys m). slashes k \<le> 1)"
    and "annotations \<noteq> []"
    and "rate_wait (env_deps env) OperationTypeApply ns st = (Inr (), rm1, w1)"
    and "ValidateAnnotations (rm_Validator rm1) annotations = Inr ()"
    and "GetMatchingResources (env_deps env) selector types ns (rm1, w1) = (Inr rs, rm2, w2)" and "rs \<noteq> []"
    and "\<forall>r\<in>set rs. objs w2 (object_key r) \<noteq> None"
  shows "\<not> is_ok (ValidateAnnotationKey av (trackingKey (getRuleID rule))) \<and>
    (\<exists>rm' w'. ApplyAnnotations (env_deps env) selector annotations types ns (getRuleID rule) st =
       (Inl (Errorf (''failed to apply annotations to '' @ show_nat (length rs) @ '' out of '' @
          show_nat (length rs) @ '' resources'')), rm', w') \<and> objs w' = objs w2)"
proof -
  have "\<not> accepts (write_annotations annotations (getRuleID rule) m)" for m
    using assms(3) written_keys[OF assms(4)] tracking_slashes[of rule] by fastforce
  then obtain ys w' where run: "for_each (apply_and_audit (env_api env) annotations ns (getRuleID rule)) rs w2 = (ys, w')"
    "failures ys = length rs" "objs w' = objs w2"
    using apply_all_refused[OF assms(1,2) _ assms(9)] by metis
  then show ?thesis
    using assms(4,6,8) tracking_key_invalid[of av rule]
    by (simp add: ApplyAnnotations_def assms(5,7))
qed

text \<open>The server of the sample, with the check of the keys.\<close>

definition plain_keys :: "(str, str) gomap \<Rightarrow> bool" where
  "plain_keys m \<longleftrightarrow> (\<forall>k\<in>set (mkeys m). slashes k \<le> 1)"

definition checked_objs :: "mem_world \<Rightarrow> object_key \<Rightarrow> resource option" where
  "checked_objs w k = (case mem_objs w k of None \<Rightarrow> None
     | Some r \<Rightarrow> if plain_keys (or_empty (res_Annotations r)) then Some r else None)"

definition checked_update :: "resource \<Rightarrow> mem_world \<Rightarrow> (goerr + resource) \<times> mem_world" where
  "checked_update r w = (case mem_objs w (object_key r) of
     None \<Rightarrow> (Inl (ApiError NotFound ''not found''), w)
   | Some cur \<Rightarrow>
       if res_ResourceVersion r \<noteq> res_ResourceVersion cur then mem_update r w
       else if plain_keys (or_empty (res_Annotations r)) then mem_update r w
       else (Inl (Errorf ''metadata.annotations: Invalid value''), w))"

definition checked_env :: "(mem_world, int) env" where
  "checked_env = \<lparr>env_deps = \<lparr>dep_api = (listing_api [])\<lparr>api_update := checked_update\<rparr>,
       dep_lim = counting_bucket, dep_sel = sample_lib, dep_sort = (\<lambda>f xs. xs)\<rparr>,
     env_cron = every_minute, env_pause = (\<lambda>d w. (None, w))\<rparr>"

lemma checked_objs_Some:
  "checked_objs w k = Some r \<longleftrightarrow> mem_objs w k = Some r \<and> plain_keys (or_empty (res_Annotations r))"
  by (auto simp: checked_objs_def split: option.splits)

lemma checked_store: "optimistic_store plain_keys checked_objs (env_api checked_env)"
proof -
  have api: "api_sleep (env_api checked_env) d w = w"
    "api_get (env_api checked_env) k w = api_get mem_api k w"
    "api_update (env_api checked_env) = checked_update" for d w k
    by (simp_all add: checked_env_def listing_api_def) (simp add: mem_api_def)
  have get: "api_get mem_api k w = (Inr r, w)" if "mem_objs w k = Some r" for k w r
    using that by (simp add: mem_api_def)
  have key: "object_key r = k" if "mem_objs w k = Some r" for w k r
    using that by (simp add: mem_objs_def split: option.splits if_splits)
  have put: "checked_objs (w(object_key r \<mapsto> r\<lparr>res_ResourceVersion := v\<rparr>)) =
      (checked_objs w)(object_key r \<mapsto> r\<lparr>res_ResourceVersion := v\<rparr>)"
    if "plain_keys (or_empty (res_Annotations r))" for w r v
    using that by (auto simp: checked_objs_def mem_objs_def fun_eq_iff object_key_def)
  have up: "updates (\<lambda>r. plain_keys (or_empty (res_Annotations r))) checked_objs (env_api checked_env) r cur w"
    if "mem_objs w (object_key r) = Some cur" for w r cur
    using that put by (auto simp: updates_def api checked_update_def mem_update_def Let_def
        intro!: exI[of _ "''x'' @ _"])
  show ?thesis
    unfolding optimistic_store_def api
    using get key up by (auto simp: checked_objs_Some)
qed

theorem tracking_key_is_refused_witness:
  "\<exists>rm' w'. ApplyAnnotations (env_deps checked_env) empty_selector [(''scheduler.k8s.io/managed-a'', ''v'')]
      [''pods''] ''ns'' (getRuleID (dated_rule time_hour None)) (plain_manager, sample_world []) =
    (Inl (Errorf ''failed to apply annotations to 1 out of 1 resources''), rm', w')"
proof -
  have wait: "rate_wait (env_deps checked_env) kind ns (plain_manager, w) = (Inr (), plain_manager, w)" for kind ns w
    by (simp add: rate_wait_def plain_manager_def)
  have query: "GetMatchingResources (env_deps checked_env) empty_selector [''pods''] ''ns''
      (plain_manager, sample_world []) = (Inr [sample_resource []], plain_manager, sample_world [])"
  proof -
    have look: "cache_lookup (env_deps checked_env) empty_selector [''pods''] ''ns'' (plain_manager, w) = (None, plain_manager, w)"
      "cache_fill (env_deps checked_env) empty_selector [''pods''] ''ns'' rs (plain_manager, w) = (plain_manager, w)" for rs w
      by (simp_all add: cache_lookup_def cache_fill_def plain_manager_def)
    have conv: "sel_convert (dep_sel (env_deps checked_env)) empty_selector = Inr ''ok''"
      by (simp add: checked_env_def sample_lib_def empty_selector_def)
    have "list_types (env_api checked_env) empty_selector [''pods''] ''ns'' w = ([sample_resource []], w)" for w
      by (simp add: list_types_def getResourcesByType_alt supportedTypes_def checked_env_def listing_api_def)
    then show ?thesis by (simp add: GetMatchingResources_def wait look conv)
  qed
  have framed: "resources_framed checked_objs checked_env"
    by (simp add: resources_framed_def checked_env_def listing_api_def mem_api_def)
  have stored: "\<forall>r\<in>set [sample_resource []]. checked_objs (sample_world []) (object_key r) \<noteq> None"
    using sample_world_get[of "[]"] by (simp add: checked_objs_def plain_keys_def mkeys_def sample_resource_def)
  have valid: "ValidateAnnotations (rm_Validator plain_manager) [(''scheduler.k8s.io/managed-a'', ''v'')] = Inr ()"
    using sample_annotations_valid by (simp add: plain_pods(3))
  have one: "show_nat (Suc 0) = ''1''" by code_simp
  have keys: "\<forall>m. plain_keys m \<longrightarrow> (\<forall>k\<in>set (mkeys m). slashes k \<le> 1)"
    by (simp add: plain_keys_def)
  show ?thesis
    using tracking_key_is_refused[where objs = checked_objs and env = checked_env and av = NewAnnotationValidator
        and rule = "dated_rule time_hour None" and ?w2.0 = "sample_world []",
        OF checked_store framed keys _ wait valid query _ stored]
    by (auto simp: one)
qed

end
