(* ===== verification/Status_Invariant.thy ===== *)
theory Status_Invariant
  imports Controller_Properties
begin

text \<open>
  Every status that the controller writes is well-formed: an invariant of the stored rules under
  all operations of the process that reach the API server.
\<close>

section \<open>Well-formed rules\<close>

text \<open>
  At most one condition of each type, a phase that the code has a name for (or none yet), and
  counters that add up.
\<close>

definition rule_ok :: "rule \<Rightarrow> bool" where
  "rule_ok r \<longleftrightarrow> conditions_ok r \<and>
     st_Phase (rule_Status r) \<in> {[], PhasePending, controller_PhaseActive, PhaseCompleted, PhaseFailed} \<and>
     st_ExecutionCount (rule_Status r) =
       st_SuccessfulExecutions (rule_Status r) + st_FailedExecutions (rule_Status r)"

lemma counters_setCondition [simp]:
  "st_ExecutionCount (rule_Status (setCondition now t s rsn msg r)) = st_ExecutionCount (rule_Status r)"
  "st_SuccessfulExecutions (rule_Status (setCondition now t s rsn msg r)) = st_SuccessfulExecutions (rule_Status r)"
  "st_FailedExecutions (rule_Status (setCondition now t s rsn msg r)) = st_FailedExecutions (rule_Status r)"
  by (simp_all add: setCondition_def)

lemma rule_ok_setCondition [simp]: "rule_ok r \<Longrightarrow> rule_ok (setCondition now t s rsn msg r)"
  by (simp add: rule_ok_def)

lemma rule_ok_updateRuleStatus [simp]:
  "rule_ok r \<Longrightarrow> p \<in> {PhasePending, controller_PhaseActive, PhaseCompleted, PhaseFailed} \<Longrightarrow>
   rule_ok (updateRuleStatus now p msg r)"
  by (auto simp: updateRuleStatus_def prod.case_eq_if rule_ok_def conditions_ok_def setCondition_def
      put_condition_types)

lemma rule_ok_finalizers [simp]: "rule_ok (r\<lparr>rule_Finalizers := fs\<rparr>) = rule_ok r"
  by (simp add: rule_ok_def conditions_ok_def)

lemma rule_ok_next [simp]: "rule_ok (upd_status (\<lambda>st. st\<lparr>st_NextExecutionTime := x\<rparr>) r) = rule_ok r"
  by (simp add: rule_ok_def conditions_ok_def)

lemma rule_ok_executed [simp]:
  assumes "rule_ok r" shows "rule_ok (executed_status now task e n t r)"
  using assms
  by (cases e) (simp_all add: executed_status_def Let_def rule_ok_def conditions_ok_def setCondition_def
      put_condition_types)

lemma replace_condition_types:
  "map cond_Type (replace_condition c cs) =
     (if cond_Type c \<in> set (map cond_Type cs) then map cond_Type cs else map cond_Type cs @ [cond_Type c])"
  by (induction cs) auto

lemma rule_ok_with_condition [simp]: "rule_ok r \<Longrightarrow> rule_ok (with_condition c r)"
  by (simp add: rule_ok_def conditions_ok_def with_condition_def replace_condition_types)

interpretation statuses: pass_invariant cron sv rule_ok "\<lambda>_. True" "\<lambda>_. True" "\<lambda>_. True" for cron sv
  by unfold_locales simp_all

section \<open>The process\<close>

text \<open>What the process does, one thing after the other, in any order.\<close>

datatype activity = Reconciling nsname | Executing scheduled_task | Recovering | CleaningUp

fun perform :: "('w, 'l) env \<Rightarrow> annotation_validator \<Rightarrow> activity \<Rightarrow> 'l controller \<times> 'w \<Rightarrow> 'l controller \<times> 'w" where
  "perform env sv (Reconciling req) st = snd (Reconcile env (main_reconciler sv) req st)"
| "perform env sv (Executing task) st = snd (ExecuteTask env (main_executor sv) task st)"
| "perform env sv Recovering (ct, w) = (ct, snd (RecoverControllerState (recovery_of env) DefaultRetryConfig w))"
| "perform env sv CleaningUp (ct, w) =
     (case CleanupOrphanedAnnotations (env_api env) NewOrphanedAnnotationCleanup w of
        None \<Rightarrow> (ct, w) | Some (_, w1) \<Rightarrow> (ct, w1))"

lemma perform_keeps:
  assumes server: "rule_server rule_ok (\<lambda>_. True) I env" and "I (snd st)"
  shows "I (snd (perform env sv a st))"
proof -
  obtain ct w where st: "st = (ct, w)" by fastforce
  then have w: "I w" using assms(2) by simp
  then have ok: "pass_ok I (\<lambda>_. True) (\<lambda>_. True) ct w" by simp
  show ?thesis
  proof (cases a)
    case (Reconciling req)
    obtain r ct1 w1 where run: "Reconcile env (main_reconciler sv) req (ct, w) = (r, ct1, w1)" using prod_cases3 by blast
    show ?thesis using Reconciling st run statuses.reconcile_keeps[OF server refl refl ok run] by simp
  next
    case (Executing task)
    obtain r ct1 w1 where run: "ExecuteTask env (main_executor sv) task (ct, w) = (r, ct1, w1)" using prod_cases3 by blast
    show ?thesis using Executing st run statuses.execute_keeps[OF server ok run] by simp
  next
    case Recovering
    then show ?thesis using st statuses.recovery_keeps[OF server w] by simp
  next
    case CleaningUp
    have "0 < oac_batchSize NewOrphanedAnnotationCleanup" by (simp add: NewOrphanedAnnotationCleanup_def)
    note keep = statuses.cleanup_keeps[OF server w this]
    show ?thesis using CleaningUp st w by (auto split: option.split dest: keep)
  qed
qed

text \<open>
  C7: the statuses of the stored rules stay well-formed, whatever rules are reconciled, tasks
  executed, states recovered and annotations cleaned up, in any order and with any errors and
  retries: one condition of each type, a phase the code knows, and as many executions as
  successes and failures.  It is so on every server that stores the rules it is given.
\<close>

theorem stored_statuses_well_formed:
  assumes "rule_server rule_ok (\<lambda>_. True) I env" and "I w"
  shows "I (snd (fold (perform env sv) activities (ct, w)))"
proof -
  have "I (snd (fold (perform env sv) activities st))" if "I (snd st)" for st
    using that
  proof (induction activities arbitrary: st)
    case (Cons a as)
    then show ?case using perform_keeps[OF assms(1) Cons.prems] by simp
  qed simp
  then show ?thesis using assms(2) by simp
qed

theorem stored_statuses_well_formed_witness:
  "rule_ok (snd (fold (perform rule_env NewAnnotationValidator)
     [Recovering, Reconciling (''ns'', ''r''), Executing (mk_task (dated_rule time_hour None) ''apply'' 0),
      CleaningUp, Reconciling (''ns'', ''r'')]
     (main_controller counting_bucket, dated_rule time_hour None)))"
proof -
  have "rule_server rule_ok (\<lambda>_. True) rule_ok rule_env"
    by (simp add: rule_server_def calm_def rule_env_def rule_api_def)
  moreover have "rule_ok (dated_rule time_hour None)"
    by (simp add: rule_ok_def conditions_ok_def dated_rule_def sample_rule_def Let_def)
  ultimately show ?thesis by (rule stored_statuses_well_formed)
qed

end
