(* ===== verification/Process_Steps.thy ===== *)
theory Process_Steps
  imports Controller_Properties
begin

text \<open>
  The process that \<open>SetupWithManager\<close> starts when it is given no scheduler: the goroutines of the
  scheduler, passes of \<open>Reconcile\<close>, executions by the workers, the cleanup routines and the
  recovery, interleaved in any order with each other and with changes of the cluster by others.
  A pass is two steps, for it takes the mutex of the scheduler twice, and an execution is one.  The
  process refines the steps of the scheduler alone, only validated rules get to the workers, and a
  rule whose start has passed gets no task any more.
\<close>

section \<open>State\<close>

record ('w, 'l) controller_process =
  pr_sys :: sched_sys
  pr_manager :: "'l resource_manager"
  pr_metrics :: "execution_metrics option"
  pr_world :: 'w
  pr_pass :: "rule option"
  pr_result :: "outcome may_panic option"

text \<open>
  The reconciler and the executor have pointers to the scheduler and the resource manager: a
  call sees their state, and what it makes of them is the state after the call.  \<open>pr_pass\<close> is the
  rule of a pass that is half done (passes are made one after the other), \<open>pr_result\<close> what the last
  pass gave to the work queue.
\<close>

definition process_controller :: "('w, 'l) controller_process \<Rightarrow> 'l controller" where
  "process_controller p = \<lparr>ct_Scheduler = sys_sched (pr_sys p), ct_ResourceManager = pr_manager p,
     ct_Metrics = pr_metrics p\<rparr>"

definition after_call :: "'l controller \<Rightarrow> 'w \<Rightarrow> ('w, 'l) controller_process \<Rightarrow> ('w, 'l) controller_process" where
  "after_call ct w p = p\<lparr>pr_sys := upd_sched (\<lambda>_. ct_Scheduler ct) (pr_sys p),
     pr_manager := ct_ResourceManager ct, pr_metrics := ct_Metrics ct, pr_world := w\<rparr>"

definition start_process :: "'l limiter_lib \<Rightarrow> 'w \<Rightarrow> ('w, 'l) controller_process" where
  "start_process lib w = \<lparr>pr_sys = started_sys, pr_manager = NewResourceManager lib,
     pr_metrics = Some no_executions, pr_world = w, pr_pass = None, pr_result = None\<rparr>"

text \<open>What the two cleanup routines of the resource manager do when their tickers fire.\<close>

definition cache_tick :: "gotime \<Rightarrow> 'l resource_manager \<Rightarrow> 'l resource_manager" where
  "cache_tick now rm = rm\<lparr>rm_Cache := map_option (InvalidateExpiredEntries now) (rm_Cache rm)\<rparr>"

definition limiter_tick :: "gotime \<Rightarrow> duration \<Rightarrow> 'l resource_manager \<Rightarrow> 'l resource_manager" where
  "limiter_tick now maxAge rm =
     rm\<lparr>rm_RateLimiter := map_option (CleanupUnusedNamespaceLimiters now maxAge) (rm_RateLimiter rm)\<rparr>"

text \<open>After the first half: the pass has ended, or the rest is to be done.\<close>

definition pass_half :: "reconciler \<Rightarrow> outcome may_panic + rule \<Rightarrow> ('w, 'l) controller_process \<Rightarrow>
    ('w, 'l) controller_process" where
  "pass_half rc x p = (case x of
     Inl y \<Rightarrow> p\<lparr>pr_pass := None, pr_result := Some (pass_outcome rc y)\<rparr>
   | Inr r \<Rightarrow> p\<lparr>pr_pass := Some r, pr_result := None\<rparr>)"

section \<open>Steps\<close>

text \<open>
  \<open>rc\<close> is the reconciler, \<open>outside\<close> what others may do to the cluster and the clock.  The first
  half of a pass may go without the mutex of the scheduler only if it leaves the scheduler alone.
\<close>

inductive proc_step :: "('w, 'l) env \<Rightarrow> reconciler \<Rightarrow> ('w \<Rightarrow> 'w \<Rightarrow> bool) \<Rightarrow>
    ('w, 'l) controller_process \<Rightarrow> ('w, 'l) controller_process \<Rightarrow> bool" for env rc outside where
  pass_begins: "pr_pass p = None \<Longrightarrow>
    reconcile_begin env rc req (process_controller p, pr_world p) = (x, ct, w) \<Longrightarrow>
    mutex_free (pr_sys p) \<or> ct_Scheduler ct = sys_sched (pr_sys p) \<Longrightarrow>
    proc_step env rc outside p (pass_half rc x (after_call ct w p))"
| pass_ends: "pr_pass p = Some r \<Longrightarrow> mutex_free (pr_sys p) \<Longrightarrow>
    reconcile_finish env rc (process_controller p) r (pr_world p) = (res, w) \<Longrightarrow>
    proc_step env rc outside p (p\<lparr>pr_world := w, pr_pass := None, pr_result := Some (Ret res)\<rparr>)"
| task_execution: "sys_workers (pr_sys p) i = WorkerExec task \<Longrightarrow>
    ExecuteTask env (SetReconciler rc (NewTaskExecutor None)) task (process_controller p, pr_world p) =
      (res, ct, w) \<Longrightarrow> q = after_call ct w p \<Longrightarrow>
    proc_step env rc outside p (q\<lparr>pr_sys := set_worker i (WorkerDelete task) (pr_sys q)\<rparr>)"
| scheduler_routine: "routine_step (pr_sys p) y \<Longrightarrow> proc_step env rc outside p (p\<lparr>pr_sys := y\<rparr>)"
| cache_routine: "proc_step env rc outside p
    (p\<lparr>pr_manager := cache_tick (env_now env (pr_world p)) (pr_manager p)\<rparr>)"
| limiter_routine: "proc_step env rc outside p
    (p\<lparr>pr_manager := limiter_tick (env_now env (pr_world p)) (1 * time_hour) (pr_manager p)\<rparr>)"
| orphan_routine:
    "CleanupOrphanedAnnotations (env_api env) NewOrphanedAnnotationCleanup (pr_world p) = Some (res, w) \<Longrightarrow>
    proc_step env rc outside p (p\<lparr>pr_world := w\<rparr>)"
| state_recovery: "rec_RecoveryManager rc = Some eh \<Longrightarrow>
    RecoverControllerState (recovery_of env) eh (pr_world p) = (res, w) \<Longrightarrow>
    proc_step env rc outside p (p\<lparr>pr_world := w\<rparr>)"
| cluster_change: "outside (pr_world p) w \<Longrightarrow> proc_step env rc outside p (p\<lparr>pr_world := w\<rparr>)"

inductive proc_reach :: "('w, 'l) env \<Rightarrow> reconciler \<Rightarrow> ('w \<Rightarrow> 'w \<Rightarrow> bool) \<Rightarrow>
    ('w, 'l) controller_process \<Rightarrow> ('w, 'l) controller_process \<Rightarrow> bool" for env rc outside where
  proc_refl: "proc_reach env rc outside p p"
| proc_next: "proc_reach env rc outside p q \<Longrightarrow> proc_step env rc outside q r \<Longrightarrow>
    proc_reach env rc outside p r"

lemma proc_reach_trans:
  "proc_reach env rc outside q r \<Longrightarrow> proc_reach env rc outside p q \<Longrightarrow> proc_reach env rc outside p r"
  by (induction rule: proc_reach.induct) (auto intro: proc_next)

lemma process_simps [simp]:
  "ct_Scheduler (process_controller p) = sys_sched (pr_sys p)"
  "ct_ResourceManager (process_controller p) = pr_manager p"
  "pr_world (after_call ct w p) = w" "pr_manager (after_call ct w p) = ct_ResourceManager ct"
  "pr_sys (after_call ct w p) = upd_sched (\<lambda>_. ct_Scheduler ct) (pr_sys p)"
  "pr_pass (after_call ct w p) = pr_pass p"
  "pr_world (pass_half rc x p) = pr_world p" "pr_manager (pass_half rc x p) = pr_manager p"
  "pr_sys (pass_half rc x p) = pr_sys p"
  "pr_pass (pass_half rc x p) = (case x of Inl y \<Rightarrow> None | Inr r \<Rightarrow> Some r)"
  by (simp_all add: process_controller_def after_call_def pass_half_def split: sum.split)

lemma tick_policy [simp]: "same_policy rm (cache_tick now rm)" "same_policy rm (limiter_tick now a rm)"
  by (simp_all add: cache_tick_def limiter_tick_def)

lemma ExecuteTask_scheduler:
  assumes "ExecuteTask env te task (ct, w) = (res, ct', w')"
  shows "ct_Scheduler ct' = ct_Scheduler ct"
proof -
  let ?name = "''execute-task-'' @ task_RuleID task @ ''-'' @ task_Action task"
  let ?I = "\<lambda>s. same_but_manager ct (snd (fst s))"
  obtain r1 n ct1 w1 where run: "retried env (te_errorHandler te) ?name (execute_action env te task) ((0, ct), w) =
      (r1, (n, ct1), w1)" by (metis prod.exhaust)
  have "?I (snd (retried env (te_errorHandler te) ?name (execute_action env te task) ((0, ct), w)))"
    by (intro retried_inv[where I = ?I] execute_action_same) simp_all
  then show ?thesis using assms run by (auto simp: ExecuteTask_def Let_def same_but_manager_def)
qed

section \<open>Invariants of the process\<close>

abbreviation proc_ok :: "(rule \<Rightarrow> bool) \<Rightarrow> ('w \<Rightarrow> bool) \<Rightarrow> ('l resource_manager \<Rightarrow> bool) \<Rightarrow> (sched_sys \<Rightarrow> bool) \<Rightarrow>
    ('w, 'l) controller_process \<Rightarrow> bool" where
  "proc_ok ok I V S p \<equiv> I (pr_world p) \<and> V (pr_manager p) \<and> S (pr_sys p) \<and> (\<forall>r. pr_pass p = Some r \<longrightarrow> ok r)"

text \<open>
  \<open>S\<close> is a property of the whole scheduler system.  Beside the laws of a pass it is kept by the
  goroutines, and by a pass that has the mutex.
\<close>

locale process_invariant = pass_invariant cron sv ok T V "\<lambda>_. True"
  for cron sv ok T and V :: "'l resource_manager \<Rightarrow> bool" +
  fixes S :: "sched_sys \<Rightarrow> bool"
  assumes S_schedule: "S y \<Longrightarrow> mutex_free y \<Longrightarrow> T now \<Longrightarrow> ok r \<Longrightarrow> V rm \<Longrightarrow> spec_admitted sv rm (rule_Spec r) \<Longrightarrow>
      S (upd_sched (\<lambda>s. snd (ScheduleRule cron now r s)) y)"
    and S_unschedule: "S y \<Longrightarrow> mutex_free y \<Longrightarrow> S (upd_sched (\<lambda>s. snd (UnscheduleRule ruleID s)) y)"
    and S_routine: "S y \<Longrightarrow> routine_step y z \<Longrightarrow> S z"
    and S_executed: "S y \<Longrightarrow> sys_workers y i = WorkerExec task \<Longrightarrow> S (set_worker i (WorkerDelete task) y)"
begin

lemma pass_of:
  assumes "mutex_free y"
  shows "pass_invariant cron sv ok T V (\<lambda>s. S (upd_sched (\<lambda>_. s) y))"
proof unfold_locales
  fix s now r rm i
  show "S (upd_sched (\<lambda>_. s) y) \<Longrightarrow> T now \<Longrightarrow> ok r \<Longrightarrow> V rm \<Longrightarrow> spec_admitted sv rm (rule_Spec r) \<Longrightarrow>
      S (upd_sched (\<lambda>_. snd (ScheduleRule cron now r s)) y)"
    using S_schedule[of "upd_sched (\<lambda>_. s) y" now r rm] assms by (simp add: mutex_free_def)
  show "S (upd_sched (\<lambda>_. s) y) \<Longrightarrow> S (upd_sched (\<lambda>_. snd (UnscheduleRule i s)) y)"
    using S_unschedule[of "upd_sched (\<lambda>_. s) y" i] assms by (simp add: mutex_free_def)
qed (fact ok_laws V_policy)+

lemma process_step_keeps:
  assumes server: "rule_server ok T I env" and cron: "env_cron env = cron" and sv: "rec_SecurityValidator rc = sv"
    and outside: "\<And>w w'. I w \<Longrightarrow> outside w w' \<Longrightarrow> I w'"
    and p: "proc_ok ok I V S p" and step: "proc_step env rc outside p q"
  shows "proc_ok ok I V S q"
  using step
proof (cases rule: proc_step.cases)
  case (pass_begins req x ct w)
  have "pass_ok I V (\<lambda>_. True) (process_controller p) (pr_world p)" using p by simp
  from begin_keeps[OF server cron sv this pass_begins(3)]
  have keep: "I w \<and> V (ct_ResourceManager ct) \<and> (\<forall>r. x = Inr r \<longrightarrow> ok r)" by simp
  have "S (upd_sched (\<lambda>_. ct_Scheduler ct) (pr_sys p))"
  proof (cases "mutex_free (pr_sys p)")
    case True
    have "pass_ok I V (\<lambda>s. S (upd_sched (\<lambda>_. s) (pr_sys p))) (process_controller p) (pr_world p)"
      using p by simp
    from pass_invariant.begin_keeps[OF pass_of[OF True] server cron sv this pass_begins(3)]
    show ?thesis by simp
  next
    case False
    then show ?thesis using pass_begins(4) p by simp
  qed
  then show ?thesis using pass_begins(1) keep by (simp split: sum.split)
next
  case (pass_ends r res w)
  then show ?thesis using finish_keeps[OF server _ _ pass_ends(4)] p by simp
next
  case (task_execution i task res ct w r)
  have "pass_ok I V (\<lambda>_. True) (process_controller p) (pr_world p)" using p by simp
  from execute_keeps[OF server this task_execution(3)] have "I w \<and> V (ct_ResourceManager ct)" by simp
  moreover have "ct_Scheduler ct = sys_sched (pr_sys p)"
    using ExecuteTask_scheduler[OF task_execution(3)] by simp
  ultimately show ?thesis
    using S_executed[OF _ task_execution(2)] p task_execution(1,4) by simp
next
  case (scheduler_routine y)
  then show ?thesis using S_routine[OF _ scheduler_routine(2)] p by simp
next
  case cache_routine
  then show ?thesis using V_policy[OF tick_policy(1)] p by simp
next
  case limiter_routine
  then show ?thesis using V_policy[OF tick_policy(2)] p by simp
next
  case (orphan_routine res w)
  have "0 < oac_batchSize NewOrphanedAnnotationCleanup" by (simp add: NewOrphanedAnnotationCleanup_def)
  then show ?thesis using cleanup_keeps[OF server _ _ orphan_routine(2)] p orphan_routine(1) by simp
next
  case (state_recovery eh res w)
  then show ?thesis using recovery_keeps[OF server, of "pr_world p" eh] p by simp
next
  case (cluster_change w)
  then show ?thesis using outside[OF _ cluster_change(2)] p by simp
qed

lemma process_reach_keeps:
  assumes server: "rule_server ok T I env" and cron: "env_cron env = cron" and sv: "rec_SecurityValidator rc = sv"
    and outside: "\<And>w w'. I w \<Longrightarrow> outside w w' \<Longrightarrow> I w'"
    and reach: "proc_reach env rc outside p q" and p: "proc_ok ok I V S p"
  shows "proc_ok ok I V S q"
  using reach p
proof (induction rule: proc_reach.induct)
  case (proc_next p q r)
  show ?case
    by (rule process_step_keeps[OF server cron sv outside proc_next.IH[OF proc_next.prems] proc_next.hyps(2)])
qed

end

section \<open>A run\<close>

text \<open>The goroutines take a task of the table to a worker; the steps of the process are theirs.\<close>

lemma routine_reach:
  "rtranclp routine_step y z \<Longrightarrow> pr_sys p = y \<Longrightarrow> proc_reach env rc outside p (p\<lparr>pr_sys := z\<rparr>)"
proof (induction rule: rtranclp_induct)
  case base
  then have "p\<lparr>pr_sys := y\<rparr> = p" by simp
  then show ?case by (simp add: proc_refl)
next
  case (step u v)
  have "proc_step env rc outside (p\<lparr>pr_sys := u\<rparr>) ((p\<lparr>pr_sys := u\<rparr>)\<lparr>pr_sys := v\<rparr>)"
    using step.hyps(2) by (intro scheduler_routine) simp
  then show ?case using proc_next[OF step.IH[OF step.prems]] by simp
qed

lemma routine_runs_task:
  assumes "sys_loop y = LoopSelect" and "mutex_free y" and "sys_workers y 0 = WorkerSelect"
    and "ts_tasks (sys_sched y) = [(k, t)]" and "ts_taskQueue (sys_sched y) = []"
    and "ts_semaphore (sys_sched y) = 0" and "ts_maxConcurrency (sys_sched y) = 10"
  shows "\<exists>z. rtranclp routine_step y z \<and> mutex_free z \<and> sys_workers z 0 = WorkerExec t"
proof -
  let ?y1 = "y\<lparr>sys_loop := LoopTick\<rparr>"
  let ?y2 = "?y1\<lparr>sys_loop := LoopQueue (ready_tasks (task_ExecuteAt t) (sys_sched ?y1))\<rparr>"
  let ?y3 = "upd_sched (queue_task t) (?y2\<lparr>sys_loop := LoopQueue []\<rparr>)"
  let ?y4 = "set_worker 0 (WorkerAcquire t) (upd_sched (\<lambda>s. s\<lparr>ts_taskQueue := []\<rparr>) ?y3)"
  let ?y5 = "set_worker 0 (WorkerExec t) (upd_sched acquire_semaphore ?y4)"
  note defs = assms mutex_free_def ready_tasks_def queue_task_def queue_capacity_def semaphore_capacity_def
    acquire_semaphore_def time_consts
  have 1: "routine_step y ?y1" by (rule loop_tick) (simp add: defs)
  have 2: "routine_step ?y1 ?y2" using assms(2) by (intro loop_collect) (simp_all add: mutex_free_def)
  have 3: "routine_step ?y2 ?y3" by (rule loop_queue) (simp add: defs)
  have 4: "routine_step ?y3 ?y4" by (rule worker_take) (simp_all add: defs)
  have 5: "routine_step ?y4 ?y5" by (rule worker_acquire) (simp_all add: defs)
  note into = rtranclp.rtrancl_into_rtrancl[where r = routine_step]
  have "rtranclp routine_step y ?y5"
    by (rule into[OF into[OF into[OF into[OF into[OF rtranclp.rtrancl_refl 1] 2] 3] 4] 5])
  then show ?thesis using assms(2) by (intro exI[of _ ?y5]) (simp add: mutex_free_def)
qed

abbreviation dated_task :: scheduled_task where
  "dated_task \<equiv> mk_task (dated_rule (20 * time_hour) None) ''apply'' (20 * time_hour)"

abbreviation sample_start :: "(rule, int) controller_process" where
  "sample_start \<equiv> start_process counting_bucket (dated_rule (20 * time_hour) None)"

text \<open>A pass that nothing comes between is what \<open>Reconcile\<close> does.\<close>

lemma whole_pass:
  assumes "Reconcile env rc req (process_controller p, pr_world p) = (res, ct, w)"
    and "pr_pass p = None" and "mutex_free (pr_sys p)"
  shows "proc_reach env rc outside p (after_call ct w p\<lparr>pr_result := Some res\<rparr>)"
proof -
  obtain x ct1 w1 where b: "reconcile_begin env rc req (process_controller p, pr_world p) = (x, ct1, w1)"
    using prod_cases3 by blast
  let ?p1 = "pass_half rc x (after_call ct1 w1 p)"
  have one: "proc_reach env rc outside p ?p1"
    using proc_next[OF proc_refl pass_begins[OF assms(2) b]] assms(3) by simp
  show ?thesis
  proof (cases x)
    case (Inl y)
    then have "after_call ct w p\<lparr>pr_result := Some res\<rparr> = ?p1"
      using assms(1,2) b by (auto simp: Reconcile_halves pass_half_def after_call_def)
    then show ?thesis using one by simp
  next
    case (Inr r)
    obtain y w2 where f: "reconcile_finish env rc ct1 r w1 = (y, w2)" by fastforce
    have free: "mutex_free (pr_sys ?p1)" using assms(3) by (simp add: mutex_free_def)
    have "process_controller ?p1 = ct1"
      using Inr by (simp add: process_controller_def pass_half_def after_call_def)
    then have "proc_step env rc outside ?p1 (?p1\<lparr>pr_world := w2, pr_pass := None, pr_result := Some (Ret y)\<rparr>)"
      using Inr f free by (intro pass_ends[of _ r]) simp_all
    moreover have "?p1\<lparr>pr_world := w2, pr_pass := None, pr_result := Some (Ret y)\<rparr> =
        after_call ct w p\<lparr>pr_result := Some res\<rparr>"
      using assms(1,2) b Inr f by (auto simp: Reconcile_halves pass_half_def after_call_def)
    ultimately show ?thesis using proc_next[OF one] by simp
  qed
qed

text \<open>A pass that schedules the sample rule; before it goes on a worker has taken the task.\<close>

lemma dated_task_runs:
  "\<exists>p. proc_reach rule_env (main_reconciler NewAnnotationValidator) (\<lambda>_ _. False) sample_start p \<and>
     sys_workers (pr_sys p) 0 = WorkerExec dated_task \<and> mutex_free (pr_sys p) \<and>
     (\<exists>r. pr_pass p = Some r \<and> getRuleID r = ''ns/r'')"
proof -
  let ?rc = "main_reconciler NewAnnotationValidator"
  let ?ct = "process_controller sample_start"
  let ?r = "dated_rule (20 * time_hour) None"
  let ?now = "env_now rule_env ?r"
  let ?s = "(ct_Scheduler ?ct)\<lparr>ts_tasks := mput ''ns/r'' dated_task (ts_tasks (ct_Scheduler ?ct))\<rparr>"
  let ?half = "scheduled ?now (validated ?now ?r)"
  have "rm_Validator (ct_ResourceManager ?ct) = NewAnnotationValidator"
    by (simp add: start_process_def)
  note settled = dated_schedulable(5)[OF this]
  have "ScheduleRule (env_cron rule_env) ?now ?r (ct_Scheduler ?ct) = (Ret (Inr ()), ?s)"
    unfolding ScheduleRule_def Let_def dated_schedulable(1-3) by simp
  from begin_scheduled[OF dated_fetched settled this]
  have run: "reconcile_begin rule_env ?rc (''ns'', ''r'') (?ct, pr_world sample_start) =
      (Inr ?half, ?ct\<lparr>ct_Scheduler := ?s\<rparr>, ?r)"
    by (simp add: start_process_def)
  let ?p = "pass_half ?rc (Inr ?half) (after_call (?ct\<lparr>ct_Scheduler := ?s\<rparr>) ?r sample_start)"
  have reach: "proc_reach rule_env ?rc (\<lambda>_ _. False) sample_start ?p"
    using proc_next[OF proc_refl pass_begins[OF _ run]] by (simp add: start_process_def started_sys_def mutex_free_def)
  have "\<exists>z. rtranclp routine_step (pr_sys ?p) z \<and> mutex_free z \<and> sys_workers z 0 = WorkerExec dated_task"
    by (rule routine_runs_task[where k = "''ns/r''"])
      (simp_all add: start_process_def started_sys_def Start_def NewTimeScheduler_def mutex_free_def mput_def)
  then obtain z where z: "rtranclp routine_step (pr_sys ?p) z" "mutex_free z" "sys_workers z 0 = WorkerExec dated_task"
    by blast
  have "proc_reach rule_env ?rc (\<lambda>_ _. False) sample_start (?p\<lparr>pr_sys := z\<rparr>)"
    using routine_reach[OF z(1) refl, of rule_env ?rc "\<lambda>_ _. False"] reach
    by (rule proc_reach_trans)
  then show ?thesis using z(2,3) by (intro exI[of _ "?p\<lparr>pr_sys := z\<rparr>"]) simp
qed

text \<open>Then the task is executed, and the entry is about to be deleted.\<close>

lemma dated_task_executed:
  "\<exists>p. proc_reach rule_env (main_reconciler NewAnnotationValidator) (\<lambda>_ _. False) sample_start p \<and>
     sys_workers (pr_sys p) 0 = WorkerDelete dated_task \<and> mutex_free (pr_sys p) \<and>
     (\<exists>r. pr_pass p = Some r \<and> getRuleID r = ''ns/r'')"
proof -
  let ?rc = "main_reconciler NewAnnotationValidator"
  obtain p r where p: "proc_reach rule_env ?rc (\<lambda>_ _. False) sample_start p"
      "sys_workers (pr_sys p) 0 = WorkerExec dated_task" "mutex_free (pr_sys p)"
      "pr_pass p = Some r" "getRuleID r = ''ns/r''"
    using dated_task_runs by blast
  obtain res ct w where run: "ExecuteTask rule_env (SetReconciler ?rc (NewTaskExecutor None)) dated_task
      (process_controller p, pr_world p) = (res, ct, w)"
    using prod_cases3 by blast
  let ?q = "after_call ct w p"
  let ?q1 = "?q\<lparr>pr_sys := set_worker 0 (WorkerDelete dated_task) (pr_sys ?q)\<rparr>"
  have "proc_reach rule_env ?rc (\<lambda>_ _. False) sample_start ?q1"
    using proc_next[OF p(1) task_execution[OF p(2) run refl]] .
  then show ?thesis using p(3-5) by (intro exI[of _ ?q1]) (simp add: mutex_free_def)
qed

section \<open>A race\<close>

text \<open>
  C34: a pass can fail because a worker ends at the wrong moment: the pass has scheduled the rule and
  released the mutex; a worker that has executed a task of the rule deletes the entry; the pass
  then finds no next execution and fails without writing the status.
\<close>

theorem worker_fails_the_pass:
  assumes "pr_pass p = Some r" and "mutex_free (pr_sys p)"
    and "sys_workers (pr_sys p) i = WorkerDelete t" and "task_RuleID t = getRuleID r"
  shows "\<exists>q q'. proc_step env rc outside p q \<and> proc_step env rc outside q q' \<and> pr_pass q' = None \<and>
     pr_result q' = Some (Ret (no_requeue, Some (Errorf (''rule '' @ getRuleID r @ '' not found in scheduler'')))) \<and>
     pr_world q' = pr_world p"
proof -
  let ?q = "p\<lparr>pr_sys := set_worker i WorkerSelect (upd_sched (finish_task t) (pr_sys p))\<rparr>"
  let ?err = "Errorf (''rule '' @ getRuleID r @ '' not found in scheduler'')"
  have "proc_step env rc outside p ?q"
    using worker_delete[OF assms(3,2)] by (rule scheduler_routine)
  moreover have "GetNextExecutionTime (ct_Scheduler (process_controller ?q)) (getRuleID r) = Inl ?err"
    using assms(4) by (simp add: GetNextExecutionTime_def finish_task_def)
  then obtain r4 where "processNextExecutionTime env (process_controller ?q) r (pr_world ?q) =
      ((r4, no_requeue, Some ?err), pr_world ?q)"
    by (simp add: processNextExecutionTime_def Let_def)
  then have "reconcile_finish env rc (process_controller ?q) r (pr_world ?q) = ((no_requeue, Some ?err), pr_world ?q)"
    by (simp add: reconcile_finish_def)
  then have "proc_step env rc outside ?q (?q\<lparr>pr_world := pr_world ?q, pr_pass := None,
      pr_result := Some (Ret (no_requeue, Some ?err))\<rparr>)"
    using assms(1,2) by (intro pass_ends[of _ r]) (simp_all add: mutex_free_def)
  ultimately show ?thesis by (intro exI conjI) (assumption | simp)+
qed

theorem worker_fails_the_pass_witness:
  "\<exists>p. proc_reach rule_env (main_reconciler NewAnnotationValidator) (\<lambda>_ _. False) sample_start p \<and>
     pr_result p = Some (Ret (no_requeue, Some (Errorf ''rule ns/r not found in scheduler'')))"
proof -
  let ?rc = "main_reconciler NewAnnotationValidator"
  obtain p r where p: "proc_reach rule_env ?rc (\<lambda>_ _. False) sample_start p"
      "sys_workers (pr_sys p) 0 = WorkerDelete dated_task" "mutex_free (pr_sys p)"
      "pr_pass p = Some r" "getRuleID r = ''ns/r''"
    using dated_task_executed by blast
  have "task_RuleID dated_task = getRuleID r" using p(5) by simp
  from worker_fails_the_pass[OF p(4,3,2) this, of rule_env ?rc "\<lambda>_ _. False"]
  obtain q q' where q: "proc_step rule_env ?rc (\<lambda>_ _. False) p q" "proc_step rule_env ?rc (\<lambda>_ _. False) q q'"
      "pr_result q' = Some (Ret (no_requeue, Some (Errorf ''rule ns/r not found in scheduler'')))"
    by (auto simp: p(5))
  from proc_next[OF proc_next[OF p(1) q(1)] q(2)] q(3) show ?thesis by blast
qed

section \<open>Refinement\<close>

interpretation refined: process_invariant cron sv "\<lambda>_. True" "\<lambda>_. True" "\<lambda>_. True" "sched_reach cron y0"
  for cron sv y0
  by unfold_locales
    (auto intro: reach_step[OF _ client_schedule] reach_step[OF _ client_unschedule]
      reach_step[OF _ goroutine] reach_step[OF _ worker_executed])

lemma open_server: "rule_server (\<lambda>_. True) (\<lambda>_. True) (\<lambda>_. True) env"
  by (simp add: rule_server_def calm_def)

text \<open>
  C3: the whole process refines the system of the scheduler and abstract clients: whatever the
  server answers and whoever changes the cluster, all that a run of passes, executions, cleanups
  and goroutines does to the scheduler is a run of steps of \<open>sched_step\<close>.
\<close>

theorem process_refines_scheduler:
  assumes "proc_reach env rc outside p q"
  shows "sched_reach (env_cron env) (pr_sys p) (pr_sys q)"
proof -
  have "proc_ok (\<lambda>_. True) (\<lambda>_. True) (\<lambda>_. True) (sched_reach (env_cron env) (pr_sys p)) p" by (simp add: reach_refl)
  from refined.process_reach_keeps[OF open_server refl refl _ assms this] show ?thesis by simp
qed

theorem process_refines_scheduler_witness:
  "\<exists>p. sched_reach every_minute started_sys (pr_sys p) \<and>
     sys_workers (pr_sys (p :: (rule, int) controller_process)) 0 = WorkerExec dated_task"
proof -
  obtain p where p: "proc_reach rule_env (main_reconciler NewAnnotationValidator) (\<lambda>_ _. False) sample_start p"
      "sys_workers (pr_sys p) 0 = WorkerExec dated_task"
    using dated_task_runs by blast
  from process_refines_scheduler[OF p(1)] p(2) show ?thesis
    by (intro exI[of _ p]) (simp add: start_process_def)
qed

section \<open>Admission\<close>

definition task_admitted :: "annotation_validator option \<Rightarrow> 'l resource_manager \<Rightarrow> scheduled_task \<Rightarrow> bool" where
  "task_admitted sv rm t \<longleftrightarrow> task_Action t \<in> {''apply'', ''remove''} \<and>
     set (task_TargetResources t) \<subseteq> set supportedTypes \<and>
     annotations_admitted sv rm (task_Annotations t) (task_AnnotationGroups t) \<and>
     task_ConflictResolution t \<in> insert [] (set validStrategies)"

lemma annotations_admitted_policy:
  assumes "same_policy rm rm'"
  shows "annotations_admitted sv rm' = annotations_admitted sv rm"
proof -
  have "validateAnnotationOperation rm' = validateAnnotationOperation rm"
    using assms by (simp add: fun_eq_iff validateAnnotationOperation_def same_policy_def)
  then have "ValidateAnnotationGroups rm' = ValidateAnnotationGroups rm"
    by (simp add: fun_eq_iff ValidateAnnotationGroups_def validate_group_def[abs_def])
  then show ?thesis
    using assms by (simp add: fun_eq_iff annotations_admitted_def same_policy_def)
qed

lemma task_admitted_mk:
  assumes "spec_admitted sv rm (rule_Spec r)" and "a = ''apply'' \<or> a = ''remove''"
  shows "task_admitted sv rm (mk_task r a t)"
  using assms by (auto simp: task_admitted_def spec_admitted_def mk_task_def)

text \<open>Scheduling adds at most the task of the rule, unscheduling adds none.\<close>

lemma mput_values: "snd ` set (mput k v m) \<subseteq> insert v (snd ` set m)"
  by (induction m) (auto simp: mput_def)

lemma mdel_values: "snd ` set (mdel k m) \<subseteq> snd ` set m"
  by (intro image_mono) (auto simp: mdel_def AList.delete_eq)

lemma all_tasks_schedule:
  obtains "all_tasks (upd_sched (\<lambda>s. snd (ScheduleRule cron now r s)) y) \<subseteq> all_tasks y"
  | t a where "all_tasks (upd_sched (\<lambda>s. snd (ScheduleRule cron now r s)) y) \<subseteq> insert (mk_task r a t) (all_tasks y)"
      "a = ''apply'' \<or> a = ''remove''" "ValidateSchedule cron (spec_Schedule (rule_Spec r)) = Inr ()"
      "CalculateNextExecution cron now (spec_Schedule (rule_Spec r)) (st_LastExecutionTime (rule_Status r)) =
         Ret (Inr (Some t))"
proof (cases rule: ScheduleRule_cases[of cron r now "sys_sched y"])
  case (invalid e)
  then show thesis by (intro that(1)) (simp add: all_tasks_def)
next
  case none
  then show thesis
    using mdel_values[of "getRuleID r" "ts_tasks (sys_sched y)"] by (intro that(1)) (auto simp: all_tasks_def)
next
  case (some t a)
  then show thesis
    using mput_values[of "getRuleID r" "mk_task r a t" "ts_tasks (sys_sched y)"]
    by (intro that(2)[of a t]) (auto simp: all_tasks_def)
qed

lemma all_tasks_unschedule: "all_tasks (upd_sched (\<lambda>s. snd (UnscheduleRule i s)) y) \<subseteq> all_tasks y"
  using mdel_values[of i "ts_tasks (sys_sched y)"] by (auto simp: all_tasks_def UnscheduleRule_def)

lemma all_tasks_executed:
  assumes "sys_workers y i = WorkerExec t"
  shows "all_tasks (set_worker i (WorkerDelete t) y) \<subseteq> all_tasks y"
proof -
  have "t \<in> all_tasks y" using assms by (intro all_tasks_parts(3)[of _ i]) simp
  then show ?thesis by (auto simp: all_tasks_def split: if_splits)
qed

lemma all_tasks_within:
  "all_tasks y \<subseteq> G \<Longrightarrow> routine_step y z \<Longrightarrow> all_tasks z \<subseteq> G"
  "all_tasks y \<subseteq> G \<Longrightarrow> sys_workers y i = WorkerExec t \<Longrightarrow> all_tasks (set_worker i (WorkerDelete t) y) \<subseteq> G"
  "all_tasks y \<subseteq> G \<Longrightarrow> mutex_free y \<Longrightarrow> all_tasks (upd_sched (\<lambda>s. snd (UnscheduleRule ruleID s)) y) \<subseteq> G"
  using routine_step_tasks all_tasks_executed all_tasks_unschedule by (blast intro: subset_trans)+

interpretation admission: process_invariant cron sv "\<lambda>_. True" "\<lambda>_. True" "same_policy rm0"
    "\<lambda>y. all_tasks y \<subseteq> Collect (task_admitted sv rm0)" for cron sv rm0
proof unfold_locales
  fix y now rm and r :: rule
  assume y: "all_tasks y \<subseteq> Collect (task_admitted sv rm0)" and rm: "same_policy rm0 rm"
    and spec: "spec_admitted sv rm (rule_Spec r)"
  have spec0: "spec_admitted sv rm0 (rule_Spec r)"
    using spec annotations_admitted_policy[OF rm, of sv] by (simp add: spec_admitted_def)
  show "all_tasks (upd_sched (\<lambda>s. snd (ScheduleRule cron now r s)) y) \<subseteq> Collect (task_admitted sv rm0)"
  proof (cases rule: all_tasks_schedule[of cron now r y])
    case (2 t a)
    then show ?thesis using y task_admitted_mk[OF spec0 2(2)] by auto
  qed (use y in auto)
qed (erule (1) all_tasks_within | simp add: same_policy_def)+

text \<open>
  C4: only admitted tasks run: whatever rules are stored and whatever others do to the cluster, every
  task in the table, the queue, the loop or a worker names supported resource types and a known
  strategy, and carries either groups that the default validator accepts or plain annotations that
  both the default and the configured validator accept.
\<close>

theorem only_admitted_tasks_run:
  assumes "proc_reach env rc outside (start_process lib w) p" and "t \<in> all_tasks (pr_sys p)"
  shows "task_Action t \<in> {''apply'', ''remove''} \<and>
    set (task_TargetResources t) \<subseteq> {''pods'', ''deployments'', ''statefulsets'', ''daemonsets''} \<and>
    task_ConflictResolution t \<in> {[], ''priority'', ''timestamp'', ''skip''} \<and>
    (if task_Annotations t = []
     then task_AnnotationGroups t \<noteq> [] \<and>
       ValidateAnnotationGroups (NewResourceManager lib) (task_AnnotationGroups t) = Inr ()
     else task_AnnotationGroups t = [] \<and>
       ValidateAnnotations NewAnnotationValidator (task_Annotations t) = Inr () \<and>
       (case rec_SecurityValidator rc of None \<Rightarrow> True
        | Some sv \<Rightarrow> ValidateAnnotations sv (task_Annotations t) = Inr ()))"
proof -
  let ?rm = "NewResourceManager lib"
  have "all_tasks started_sys = {}"
    by (simp add: all_tasks_def started_sys_def Start_def NewTimeScheduler_def)
  then have "proc_ok (\<lambda>_. True) (\<lambda>_. True) (same_policy ?rm)
      (\<lambda>y. all_tasks y \<subseteq> Collect (task_admitted (rec_SecurityValidator rc) ?rm)) (start_process lib w)"
    by (simp add: start_process_def)
  from admission.process_reach_keeps[OF open_server refl refl _ assms(1) this]
  have "task_admitted (rec_SecurityValidator rc) ?rm t" using assms(2) by blast
  then show ?thesis
    by (simp add: task_admitted_def annotations_admitted_def supportedTypes_def validStrategies_def
        split: if_splits)
qed

theorem only_admitted_tasks_run_witness:
  "\<exists>p. proc_reach rule_env (main_reconciler NewAnnotationValidator) (\<lambda>_ _. False) sample_start p \<and>
     sys_workers (pr_sys p) 0 = WorkerExec dated_task \<and>
     ValidateAnnotations NewAnnotationValidator (task_Annotations dated_task) = Inr ()"
proof -
  obtain p where p: "proc_reach rule_env (main_reconciler NewAnnotationValidator) (\<lambda>_ _. False) sample_start p"
      "sys_workers (pr_sys p) 0 = WorkerExec dated_task"
    using dated_task_runs by blast
  have "dated_task \<in> all_tasks (pr_sys p)" using p(2) by (intro all_tasks_parts(3)[of _ 0]) simp
  moreover have "task_Annotations dated_task \<noteq> []" by (simp add: mk_task_def)
  ultimately show ?thesis using only_admitted_tasks_run[OF p(1)] p by metis
qed

section \<open>Rules whose start has passed\<close>

text \<open>
  A rule with the ID \<open>i\<close> that starts at \<open>start\<close>, and has no execution recorded at that very
  instant.
\<close>

definition past_rule :: "str \<Rightarrow> gotime \<Rightarrow> rule \<Rightarrow> bool" where
  "past_rule i start r \<longleftrightarrow> (getRuleID r = i \<longrightarrow>
     sc_Type (spec_Schedule (rule_Spec r)) = ''datetime'' \<and>
     sc_StartTime (spec_Schedule (rule_Spec r)) = Some start \<and>
     st_LastExecutionTime (rule_Status r) \<noteq> Some start)"

lemma past_rule_no_next:
  assumes "past_rule i start r" and "getRuleID r = i" and "start \<le> now"
    and "ValidateSchedule cron (spec_Schedule (rule_Spec r)) = Inr ()"
  shows "CalculateNextExecution cron now (spec_Schedule (rule_Spec r)) (st_LastExecutionTime (rule_Status r)) =
    Ret (Inr None)"
  using assms(4)
proof (cases rule: ValidateSchedule_cases)
  case (datetime t e)
  then have "t = start" "st_LastExecutionTime (rule_Status r) \<noteq> Some start"
    using assms(1,2) by (simp_all add: past_rule_def datetime_schedule_def)
  then show ?thesis
    using datetime assms(3) by (simp add: CalculateNextExecution_datetime split: option.split)
qed (use assms(1,2) in \<open>simp add: past_rule_def cron_schedule_def\<close>)

lemma past_rule_status [simp]:
  "past_rule i start (setCondition now c s rsn msg r) = past_rule i start r"
  "past_rule i start (upd_status (\<lambda>st. st\<lparr>st_NextExecutionTime := x\<rparr>) r) = past_rule i start r"
  "past_rule i start (upd_status (\<lambda>st. st\<lparr>st_Phase := p\<rparr>) r) = past_rule i start r"
  "past_rule i start (r\<lparr>rule_Finalizers := fs\<rparr>) = past_rule i start r"
  "past_rule i start (with_condition cnd r) = past_rule i start r"
  by (simp_all add: past_rule_def getRuleID_def with_condition_def)

lemma past_rule_executed:
  assumes "past_rule i start r" and "start < t"
  shows "past_rule i start (executed_status now task e n t r)"
  using assms by (cases e) (simp_all add: executed_status_def Let_def past_rule_def getRuleID_def)

text \<open>One second after the start, so that a server may cut the recorded time to seconds.\<close>

definition over :: "gotime \<Rightarrow> gotime \<Rightarrow> bool" where
  "over start t \<longleftrightarrow> start + time_second \<le> t"

interpretation past: process_invariant cron sv "past_rule i start" "over start" "\<lambda>_. True"
    "\<lambda>y. all_tasks y \<subseteq> {t. task_RuleID t = i \<longrightarrow> t \<in> X}" for cron sv i start X
proof unfold_locales
  fix y now and r :: rule
  assume y: "all_tasks y \<subseteq> {t. task_RuleID t = i \<longrightarrow> t \<in> X}" and r: "over start now" "past_rule i start r"
  have now: "start \<le> now" using r(1) by (simp add: over_def time_consts)
  show "all_tasks (upd_sched (\<lambda>s. snd (ScheduleRule cron now r s)) y) \<subseteq> {t. task_RuleID t = i \<longrightarrow> t \<in> X}"
  proof (cases rule: all_tasks_schedule[of cron now r y])
    case (2 t a)
    have "getRuleID r \<noteq> i" using past_rule_no_next[OF r(2) _ now 2(3)] 2(4) by auto
    then show ?thesis using y 2(1) by auto
  qed (use y in auto)
next
  fix r t now task e n
  assume "past_rule i start r" "over start t"
  then show "past_rule i start (executed_status now task e n t r)"
    by (intro past_rule_executed) (simp_all add: over_def time_consts)
next
  fix r p now msg
  assume "past_rule i start r"
  then show "past_rule i start (updateRuleStatus now p msg r)"
    by (simp add: updateRuleStatus_def prod.case_eq_if)
qed (erule (1) all_tasks_within | simp)+



section \<open>The configured policy\<close>

text \<open>
  C28: the configured validator decides on plain annotations only: a rule whose plain annotations it
  refuses is refused, but the verdict on a rule of annotation groups is the same whatever
  validator is configured.
\<close>

theorem groups_escape_configured_policy:
  assumes "rec_SecurityValidator rc = Some sv"
  shows "(if spec_Annotations (rule_Spec r) = []
     then fst (validateRule env rc ct r w) = fst (validateRule env (rc\<lparr>rec_SecurityValidator := x\<rparr>) ct r w)
     else is_ok (fst (validateRule env rc ct r w)) \<le> is_ok (ValidateAnnotations sv (spec_Annotations (rule_Spec r))))"
proof (cases "spec_Annotations (rule_Spec r) = []")
  case True
  then have config: "validateAnnotationsConfig env (rc\<lparr>rec_SecurityValidator := x\<rparr>) ct r w = validateAnnotationsConfig env rc ct r w"
    by (simp add: validateAnnotationsConfig_def Let_def)
  show ?thesis unfolding if_P[OF True] validateRule_def config ..
next
  case False
  show ?thesis
  proof (cases "is_ok (fst (validateRule env rc ct r w))")
    case True
    then have "fst (validateRule env rc ct r w) = Inr ()" by (cases "fst (validateRule env rc ct r w)") auto
    from validateRule_admitted[OF this] False assms show ?thesis
      by (simp add: spec_admitted_def annotations_admitted_def)
  qed (use False in simp)
qed

definition policy_rule :: rule where
  "policy_rule = (let r = dated_rule time_hour None in r\<lparr>rule_Spec := (rule_Spec r)
     \<lparr>spec_Annotations := [], spec_AnnotationGroups := [sample_group ''scheduler.k8s.io/managed-a'']\<rparr>\<rparr>)"

definition denying_validator :: annotation_validator where
  "denying_validator = NewAnnotationValidator\<lparr>DeniedPrefixes := [''scheduler.k8s.io/'']\<rparr>"

lemma policy_rule_sel [simp]:
  "spec_Annotations (rule_Spec policy_rule) = []"
  "spec_AnnotationGroups (rule_Spec policy_rule) = [sample_group ''scheduler.k8s.io/managed-a'']"
  "spec_TargetResources (rule_Spec policy_rule) = [''pods'']" "spec_TemplateVariables (rule_Spec policy_rule) = []"
  "spec_ConflictResolution (rule_Spec policy_rule) = []"
  "spec_Schedule (rule_Spec policy_rule) = dated_schedule time_hour"
  by (simp_all add: policy_rule_def Let_def)

lemma policy_rule_valid:
  "fst (validateRule rule_env (main_reconciler NewAnnotationValidator) (main_controller counting_bucket)
     policy_rule w) = Inr ()"
proof -
  have key: "ValidateAnnotationKey NewAnnotationValidator ''scheduler.k8s.io/managed-a'' = Inr ()" by code_simp
  let ?op = "\<lparr>op_Key = ''scheduler.k8s.io/managed-a'', op_Value = ''1'', op_Template = False, op_Action = [],
    op_Priority = 0\<rparr>"
  have "validateAnnotationOperation (ct_ResourceManager (main_controller counting_bucket)) ?op = Inr ()"
    by (simp add: validateAnnotationOperation_def key)
  then have groups: "ValidateAnnotationGroups (ct_ResourceManager (main_controller counting_bucket))
      [sample_group ''scheduler.k8s.io/managed-a''] = Inr ()"
    by (simp add: ValidateAnnotationGroups_def validate_group_def sample_group_def first_err_ok del: first_err.simps)
  have "validateAnnotationGroups (main_controller counting_bucket) policy_rule = Inr ()"
    using groups by (simp add: validateAnnotationGroups_def validate_group_templates_def sample_group_def Let_def)
  then show ?thesis
    by (simp add: validateRule_def validateResourceTypes_def ValidateResourceTypes_def supportedTypes_def
        validateAnnotationsConfig_def validateConflictResolution_def validateTemplateVariables_def
        validateScheduleConfig_def validateDatetimeSchedule_def dated_schedule_def datetime_schedule_def
        time_consts check_that_def and_then_def Let_def)
qed

theorem groups_escape_configured_policy_witness:
  "fst (validateRule rule_env (main_reconciler denying_validator) (main_controller counting_bucket) policy_rule
     policy_rule) = Inr () \<and>
   isl (ValidateAnnotationKey denying_validator ''scheduler.k8s.io/managed-a'')"
proof -
  have "rec_SecurityValidator (main_reconciler NewAnnotationValidator) = Some NewAnnotationValidator" by simp
  from groups_escape_configured_policy[OF this, where x = "Some denying_validator" and env = rule_env and
      ct = "main_controller counting_bucket" and r = policy_rule and w = policy_rule]
  have "fst (validateRule rule_env ((main_reconciler NewAnnotationValidator)\<lparr>rec_SecurityValidator :=
      Some denying_validator\<rparr>) (main_controller counting_bucket) policy_rule policy_rule) = Inr ()"
    by (simp add: policy_rule_valid)
  moreover have "(main_reconciler NewAnnotationValidator)\<lparr>rec_SecurityValidator := Some denying_validator\<rparr> =
      main_reconciler denying_validator"
    by (simp add: main_reconciler_def)
  moreover have "isl (ValidateAnnotationKey denying_validator ''scheduler.k8s.io/managed-a'')" by code_simp
  ultimately show ?thesis by simp
qed

end
