(* ===== verification/Process_Start.thy ===== *)
theory Process_Start
  imports Manager_Setup
begin

text \<open>
  \<open>main\<close> of \<open>cmd/main.go\<close>: from the values of the flags and the environment to the running
  manager.  The controller manager, the certificate watchers and the loading of the Kubernetes
  configuration are libraries: their calls are the record \<open>start_lib\<close>.  Every failed step ends the
  process with exit code 1.
\<close>

section \<open>Flags\<close>

record flags =
  fl_metricsAddr :: str
  fl_probeAddr :: str
  fl_enableLeaderElection :: bool
  fl_leaderElectionNamespace :: str
  fl_secureMetrics :: bool
  fl_webhookCertPath :: str
  fl_webhookCertName :: str
  fl_webhookCertKey :: str
  fl_metricsCertPath :: str
  fl_metricsCertName :: str
  fl_metricsCertKey :: str
  fl_enableHTTP2 :: bool

definition default_flags :: flags where
  "default_flags = \<lparr>fl_metricsAddr = ''0'', fl_probeAddr = '':8081'', fl_enableLeaderElection = False,
     fl_leaderElectionNamespace = [], fl_secureMetrics = True, fl_webhookCertPath = [],
     fl_webhookCertName = ''tls.crt'', fl_webhookCertKey = ''tls.key'', fl_metricsCertPath = [],
     fl_metricsCertName = ''tls.crt'', fl_metricsCertKey = ''tls.key'', fl_enableHTTP2 = False\<rparr>"

section \<open>Paths\<close>

text \<open>
  \<open>filepath.Clean\<close> and \<open>filepath.Join\<close> of the standard library.  The elements are kept in reverse
  order; \<open>..\<close> takes one away, is dropped at a root and kept at the start of a relative path.
\<close>

fun clean_elements :: "bool \<Rightarrow> str list \<Rightarrow> str list \<Rightarrow> str list" where
  "clean_elements rooted [] out = rev out"
| "clean_elements rooted (x # xs) out =
     (if x = [] \<or> x = ''.'' then clean_elements rooted xs out
      else if x = ''..'' then
        (case out of
           [] \<Rightarrow> clean_elements rooted xs (if rooted then [] else [''..''])
         | y # ys \<Rightarrow> if y = ''..'' then clean_elements rooted xs (''..'' # out) else clean_elements rooted xs ys)
      else clean_elements rooted xs (x # out))"

definition filepath_Clean :: "str \<Rightarrow> str" where
  "filepath_Clean p =
     (let rooted = has_prefix p ''/'';
          body = join_with ''/'' (clean_elements rooted (split_on (CHR ''/'') p) [])
      in if rooted then ''/'' @ body else if body = [] then ''.'' else body)"

fun filepath_Join :: "str list \<Rightarrow> str" where
  "filepath_Join [] = []"
| "filepath_Join (x # xs) = (if x = [] then filepath_Join xs else filepath_Clean (join_with ''/'' (x # xs)))"

section \<open>Options\<close>

text \<open>A certificate watcher is known by its two files.\<close>

type_synonym cert_watcher = "str \<times> str"

datatype tls_option = DisableHTTP2 | GetCertificateFrom cert_watcher

record metrics_options =
  mo_BindAddress :: str
  mo_SecureServing :: bool
  mo_TLSOpts :: "tls_option list"
  mo_WithAuthenticationAndAuthorization :: bool

record manager_options =
  mgo_Metrics :: metrics_options
  mgo_WebhookTLSOpts :: "tls_option list"
  mgo_HealthProbeBindAddress :: str
  mgo_LeaderElection :: bool
  mgo_LeaderElectionID :: str
  mgo_LeaderElectionNamespace :: str
  mgo_LeaderElectionReleaseOnCancel :: bool
  mgo_LeaseDuration :: duration
  mgo_RenewDeadline :: duration
  mgo_RetryPeriod :: duration

definition tlsOpts :: "flags \<Rightarrow> tls_option list" where
  "tlsOpts f = (if \<not> fl_enableHTTP2 f then [DisableHTTP2] else [])"

text \<open>The watchers that are made: none for an empty path.\<close>

definition webhookCertWatcher :: "flags \<Rightarrow> cert_watcher option" where
  "webhookCertWatcher f =
     (if length (fl_webhookCertPath f) > 0
      then Some (filepath_Join [fl_webhookCertPath f, fl_webhookCertName f],
                 filepath_Join [fl_webhookCertPath f, fl_webhookCertKey f])
      else None)"

definition metricsCertWatcher :: "flags \<Rightarrow> cert_watcher option" where
  "metricsCertWatcher f =
     (if length (fl_metricsCertPath f) > 0
      then Some (filepath_Join [fl_metricsCertPath f, fl_metricsCertName f],
                 filepath_Join [fl_metricsCertPath f, fl_metricsCertKey f])
      else None)"

definition watcher_options :: "cert_watcher option \<Rightarrow> tls_option list" where
  "watcher_options cw = (case cw of None \<Rightarrow> [] | Some x \<Rightarrow> [GetCertificateFrom x])"

text \<open>
  \<open>tlsOpts\<close> has at most the one element it was appended to, so an append to it copies it and the
  two lists share no memory.
\<close>

definition webhookTLSOpts :: "flags \<Rightarrow> tls_option list" where
  "webhookTLSOpts f = tlsOpts f @ watcher_options (webhookCertWatcher f)"

definition metricsServerOptions :: "flags \<Rightarrow> metrics_options" where
  "metricsServerOptions f = \<lparr>mo_BindAddress = fl_metricsAddr f, mo_SecureServing = fl_secureMetrics f,
     mo_TLSOpts = tlsOpts f @ watcher_options (metricsCertWatcher f),
     mo_WithAuthenticationAndAuthorization = fl_secureMetrics f\<rparr>"

definition managerOptions :: "flags \<Rightarrow> manager_options" where
  "managerOptions f = \<lparr>mgo_Metrics = metricsServerOptions f, mgo_WebhookTLSOpts = webhookTLSOpts f,
     mgo_HealthProbeBindAddress = fl_probeAddr f, mgo_LeaderElection = fl_enableLeaderElection f,
     mgo_LeaderElectionID = ''033b21d5.sandbox.davcgar.aws'',
     mgo_LeaderElectionNamespace =
       (if fl_leaderElectionNamespace f \<noteq> [] then fl_leaderElectionNamespace f else []),
     mgo_LeaderElectionReleaseOnCancel = True, mgo_LeaseDuration = 15 * time_second,
     mgo_RenewDeadline = 10 * time_second, mgo_RetryPeriod = 2 * time_second\<rparr>"

section \<open>The libraries\<close>

datatype setup_call = NewCertWatcher cert_watcher | NewManager manager_options | CompleteController
  | AddRunnable cert_watcher | AddHealthzCheck | AddReadyzCheck

text \<open>
  \<open>sl_config\<close>: whether \<open>ctrl.GetConfigOrDie\<close> finds a configuration; without one it ends the
  process with exit code 1.  \<open>sl_getConfigMap\<close>: the answers of the manager's client before the
  manager runs.  \<open>sl_signal\<close>: when the first termination signal comes, which cancels the context.
  \<open>sl_managerStart\<close>: the result of \<open>mgr.Start\<close> and when it returns, \<open>None\<close> for never.
\<close>

record 'w start_lib =
  sl_getenv :: "str \<Rightarrow> str"
  sl_config :: "'w \<Rightarrow> bool"
  sl_call :: "setup_call \<Rightarrow> 'w \<Rightarrow> (goerr + unit) \<times> 'w"
  sl_getConfigMap :: "'w \<Rightarrow> str \<Rightarrow> goerr + (str, str) gomap"
  sl_signal :: "gotime option"
  sl_managerStart :: "gotime option \<Rightarrow> 'w \<Rightarrow> ((goerr + unit) \<times> gotime) option"

definition GetConfigOrDie :: "'w start_lib \<Rightarrow> 'w \<Rightarrow> (goerr + unit) \<times> 'w" where
  "GetConfigOrDie lib w =
     (if sl_config lib w then Inr () else Inl (Errorf ''unable to get kubeconfig''), w)"

definition validateStartupConfiguration :: "'w start_lib \<Rightarrow> 'w \<Rightarrow> (goerr + unit) \<times> 'w" where
  "validateStartupConfiguration lib w =
     (if sl_getenv lib ''KUBERNETES_SERVICE_HOST'' = [] \<and> sl_getenv lib ''KUBECONFIG'' = []
      then (Inl (Errorf ''no Kubernetes configuration found: neither in-cluster config nor KUBECONFIG is available''), w)
      else GetConfigOrDie lib w)"

definition createHealthChecks :: "'w start_lib \<Rightarrow> 'w \<Rightarrow> (goerr + unit) \<times> 'w" where
  "createHealthChecks lib w =
     (case sl_call lib AddHealthzCheck w of
        (Inl e, w1) \<Rightarrow> (Inl (Wrapf ''unable to set up health check: '' e), w1)
      | (Inr _, w1) \<Rightarrow>
          (case sl_call lib AddReadyzCheck w1 of
             (Inl e, w2) \<Rightarrow> (Inl (Wrapf ''unable to set up ready check: '' e), w2)
           | (Inr _, w2) \<Rightarrow> (Inr (), w2)))"

text \<open>A call that is made only if there is a watcher.\<close>

definition watcher_call :: "'w start_lib \<Rightarrow> (cert_watcher \<Rightarrow> setup_call) \<Rightarrow> cert_watcher option \<Rightarrow> 'w \<Rightarrow>
    (goerr + unit) \<times> 'w" where
  "watcher_call lib c cw w = (case cw of None \<Rightarrow> (Inr (), w) | Some x \<Rightarrow> sl_call lib (c x) w)"

section \<open>The end of the process\<close>

datatype process_end = Exited int | Returned | Running

text \<open>The signal handler forces the exit five seconds after the first signal.\<close>

definition setupSignalHandler :: "gotime option \<Rightarrow> gotime option" where
  "setupSignalHandler signal = map_option (\<lambda>s. s + 5 * time_second) signal"

definition run_manager :: "'w start_lib \<Rightarrow> 'w \<Rightarrow> process_end" where
  "run_manager lib w =
     (case (sl_managerStart lib (sl_signal lib) w, setupSignalHandler (sl_signal lib)) of
        (None, None) \<Rightarrow> Running
      | (None, Some forced) \<Rightarrow> Exited 1
      | (Some (r, t), None) \<Rightarrow> (case r of Inl e \<Rightarrow> Exited 1 | Inr _ \<Rightarrow> Returned)
      | (Some (r, t), Some forced) \<Rightarrow>
          if t < forced then (case r of Inl e \<Rightarrow> Exited 1 | Inr _ \<Rightarrow> Returned) else Exited 1)"

section \<open>main\<close>

definition exit_on_error :: "(goerr + unit) \<times> 'w \<Rightarrow> ('w \<Rightarrow> process_end \<times> 'a option \<times> 'w) \<Rightarrow>
    process_end \<times> 'a option \<times> 'w" where
  "exit_on_error r k = (case r of (Inl e, w) \<Rightarrow> (Exited 1, None, w) | (Inr _, w) \<Rightarrow> k w)"

text \<open>
  The end of the process, the reconciler with the routines that run when the manager is started
  (\<open>None\<close> if it is not), and the world.  \<open>lims\<close> is the library of the rate limiter.
\<close>

definition main :: "'w start_lib \<Rightarrow> 'l limiter_lib \<Rightarrow> flags \<Rightarrow> 'w \<Rightarrow>
    process_end \<times> ('l reconciler_fields \<times> routine list) option \<times> 'w" where
  "main lib lims f w =
     exit_on_error (validateStartupConfiguration lib w) (\<lambda>w.
     exit_on_error (watcher_call lib NewCertWatcher (webhookCertWatcher f) w) (\<lambda>w.
     exit_on_error (watcher_call lib NewCertWatcher (metricsCertWatcher f) w) (\<lambda>w.
     exit_on_error (GetConfigOrDie lib w) (\<lambda>w.
     exit_on_error (sl_call lib (NewManager (managerOptions f)) w) (\<lambda>w.
     let securityValidator = startup_validator (sl_getConfigMap lib w);
         (reconciler, started) = SetupWithManager lims (main_fields lims securityValidator) in
     exit_on_error (sl_call lib CompleteController w) (\<lambda>w.
     let routines = started @ StartPerformanceOptimizations reconciler in
     exit_on_error (watcher_call lib AddRunnable (metricsCertWatcher f) w) (\<lambda>w.
     exit_on_error (watcher_call lib AddRunnable (webhookCertWatcher f) w) (\<lambda>w.
     exit_on_error (createHealthChecks lib w) (\<lambda>w.
       (run_manager lib w, Some (reconciler, routines), w))))))))))"

section \<open>The order of the calls\<close>

text \<open>The library calls of a start, in order, and a sequence of calls up to the first that fails.\<close>

definition watcher_calls :: "(cert_watcher \<Rightarrow> setup_call) \<Rightarrow> cert_watcher option \<Rightarrow> setup_call list" where
  "watcher_calls c cw = (case cw of None \<Rightarrow> [] | Some x \<Rightarrow> [c x])"

definition setup_calls :: "flags \<Rightarrow> setup_call list" where
  "setup_calls f = watcher_calls NewCertWatcher (webhookCertWatcher f) @
     watcher_calls NewCertWatcher (metricsCertWatcher f) @ [NewManager (managerOptions f), CompleteController] @
     watcher_calls AddRunnable (metricsCertWatcher f) @ watcher_calls AddRunnable (webhookCertWatcher f) @
     [AddHealthzCheck, AddReadyzCheck]"

fun run_setup :: "'w start_lib \<Rightarrow> setup_call list \<Rightarrow> 'w \<Rightarrow> (goerr + unit) \<times> 'w" where
  "run_setup lib [] w = (Inr (), w)"
| "run_setup lib (c # cs) w = (case sl_call lib c w of (Inl e, w1) \<Rightarrow> (Inl e, w1) | (Inr _, w1) \<Rightarrow> run_setup lib cs w1)"

lemma exit_run_append:
  "exit_on_error (run_setup lib (cs @ ds) w) k =
     exit_on_error (run_setup lib cs w) (\<lambda>w. exit_on_error (run_setup lib ds w) k)"
proof (induction cs arbitrary: w)
  case (Cons c cs)
  obtain r w1 where "sl_call lib c w = (r, w1)" by fastforce
  then show ?case using Cons.IH[of w1] by (cases r) (simp_all add: exit_on_error_def)
qed (simp add: exit_on_error_def)

lemma exit_run_simps:
  "exit_on_error (watcher_call lib c cw w) k = exit_on_error (run_setup lib (watcher_calls c cw) w) k"
  "exit_on_error (sl_call lib d w) k = exit_on_error (run_setup lib [d] w) k"
  "exit_on_error (createHealthChecks lib w) k = exit_on_error (run_setup lib [AddHealthzCheck, AddReadyzCheck] w) k"
  by (simp_all add: exit_on_error_def watcher_call_def watcher_calls_def createHealthChecks_def
      split: prod.split sum.split option.split)

lemma exit_ok: "exit_on_error (Inr (), w) k = k w"
  by (simp add: exit_on_error_def)

text \<open>With a configuration at hand the start is the run of its calls; what it leaves is made by \<open>SetupWithManager\<close>.\<close>

lemma main_runs_setup:
  assumes "\<forall>w. sl_config lib w" and "sl_getenv lib ''KUBECONFIG'' \<noteq> []"
  obtains "main lib lims f w = (Exited 1, None, snd (run_setup lib (setup_calls f) w))"
      "isl (fst (run_setup lib (setup_calls f) w))"
  | v where "main lib lims f w = (run_manager lib (snd (run_setup lib (setup_calls f) w)),
        Some (main_fields lims (startup_validator (sl_getConfigMap lib v)),
          main_routines lims (startup_validator (sl_getConfigMap lib v))), snd (run_setup lib (setup_calls f) w))"
      "fst (run_setup lib (setup_calls f) w) = Inr ()"
proof -
  let ?pre = "watcher_calls NewCertWatcher (webhookCertWatcher f) @ watcher_calls NewCertWatcher (metricsCertWatcher f) @
    [NewManager (managerOptions f)]"
  let ?post = "[CompleteController] @ watcher_calls AddRunnable (metricsCertWatcher f) @
    watcher_calls AddRunnable (webhookCertWatcher f) @ [AddHealthzCheck, AddReadyzCheck]"
  have config: "GetConfigOrDie lib w = (Inr (), w)" "validateStartupConfiguration lib w = (Inr (), w)" for w
    using assms by (simp_all add: GetConfigOrDie_def validateStartupConfiguration_def)
  have calls: "setup_calls f = ?pre @ ?post" by (simp add: setup_calls_def)
  let ?k = "\<lambda>v w. (run_manager lib w, Some (main_fields lims (startup_validator (sl_getConfigMap lib v)),
    main_routines lims (startup_validator (sl_getConfigMap lib v))), w)"
  have main: "main lib lims f w =
      exit_on_error (run_setup lib ?pre w) (\<lambda>v. exit_on_error (run_setup lib ?post v) (?k v))"
    unfolding main_def config exit_ok exit_run_simps Let_def main_setup prod.case main_routines_def append_Nil
    by (simp only: exit_run_append)
  obtain r v where pre: "run_setup lib ?pre w = (r, v)" by fastforce
  have whole: "exit_on_error (run_setup lib (setup_calls f) w) k =
      exit_on_error (run_setup lib ?pre w) (\<lambda>w. exit_on_error (run_setup lib ?post w) k)"
    for k :: "'a \<Rightarrow> process_end \<times> ('b reconciler_fields \<times> routine list) option \<times> 'a"
    unfolding calls by (rule exit_run_append)
  obtain x w1 where all: "run_setup lib (setup_calls f) w = (x, w1)" by fastforce
  have "main lib lims f w = exit_on_error (run_setup lib (setup_calls f) w) (?k v)"
    unfolding main whole pre by (cases r) (simp_all add: exit_on_error_def)
  then show thesis
    using that all by (cases x) (simp_all add: exit_on_error_def)
qed

lemma run_setup_logged:
  assumes "\<forall>c w. sl_call lib c w = (answer c, w @ [c])"
  shows "snd (run_setup lib cs w) = w @ takeWhile (\<lambda>c. is_ok (answer c)) cs @
      take 1 (dropWhile (\<lambda>c. is_ok (answer c)) cs)"
    and "is_ok (fst (run_setup lib cs w)) \<longleftrightarrow> list_all (\<lambda>c. is_ok (answer c)) cs"
  using assms by (induction cs arbitrary: w) (auto split: sum.split)


text \<open>A library that answers as it is told, logs its calls, and has a manager whose cache cannot be read yet.\<close>

definition scripted_lib :: "(setup_call \<Rightarrow> goerr + unit) \<Rightarrow> setup_call list start_lib" where
  "scripted_lib answer = \<lparr>sl_getenv = (\<lambda>name. if name = ''KUBECONFIG'' then ''/root/.kube/config'' else []),
     sl_config = (\<lambda>w. True), sl_call = (\<lambda>c w. (answer c, w @ [c])),
     sl_getConfigMap = (\<lambda>w name. Inl (Errorf ''the cache is not started, can not read objects'')),
     sl_signal = Some 0, sl_managerStart = (\<lambda>signal w. Some (Inr (), 1 * time_second))\<rparr>"

lemma scripted_lib_sel [simp]:
  "sl_call (scripted_lib answer) c w = (answer c, w @ [c])" "sl_config (scripted_lib answer) w"
  "sl_getenv (scripted_lib answer) ''KUBECONFIG'' \<noteq> []" "isl (sl_getConfigMap (scripted_lib answer) w name)"
  by (simp_all add: scripted_lib_def)


text \<open>
  C30: the configured policy is never used: the configuration is read with the client of a manager that
  is not started yet, whose reads fail (the client reads from a cache), so the process always
  starts with the default validator, and is ready all the same.
\<close>

theorem main_starts_with_default_policy:
  assumes "\<forall>w name. isl (sl_getConfigMap lib w name)"
    and "\<forall>w. sl_config lib w" and "sl_getenv lib ''KUBECONFIG'' \<noteq> []"
    and "main lib lims f w = (e, Some (reconciler, routines), w')"
  shows "rf_SecurityValidator reconciler = Some NewAnnotationValidator \<and> readinessCheck reconciler = Inr () \<and>
    fields_reconciler reconciler = main_reconciler NewAnnotationValidator \<and>
    routines = [CacheCleanup (10 * time_minute), LimiterCleanup (15 * time_minute) (1 * time_hour), OrphanCleanup]"
proof (cases rule: main_runs_setup[OF assms(2,3), of lims f w])
  case (2 v)
  have "isl (sl_getConfigMap lib v ''annotation-scheduler-security-config'')" using assms(1) by blast
  then have "startup_validator (sl_getConfigMap lib v) = NewAnnotationValidator"
    by (auto simp: startup_validator_def CreateValidatorFromConfig_def LoadSecurityConfig_def
        split: sum.split)
  then have "reconciler = main_fields lims NewAnnotationValidator"
      "routines = main_routines lims NewAnnotationValidator"
    using 2(1) assms(4) by simp_all
  then show ?thesis
    by (simp add: main_fields_reconciler main_routines_def main_setup StartPerformanceOptimizations_def)
       (simp add: main_fields_def readinessCheck_def NewResourceManager_def Let_def)
qed (use assms(4) in simp)

theorem main_starts_with_default_policy_witness:
  "\<exists>reconciler routines w'. main (scripted_lib (\<lambda>c. Inr ())) counting_bucket default_flags [] =
       (Returned, Some (reconciler, routines), w') \<and>
     rf_SecurityValidator reconciler = Some NewAnnotationValidator"
proof -
  let ?lib = "scripted_lib (\<lambda>c. Inr ())"
  have laws: "\<forall>w name. isl (sl_getConfigMap ?lib w name)" "\<forall>w. sl_config ?lib w" "sl_getenv ?lib ''KUBECONFIG'' \<noteq> []"
    by simp_all
  have returned: "run_manager ?lib w = Returned" for w
    by (simp add: run_manager_def setupSignalHandler_def scripted_lib_def time_consts)
  show ?thesis
  proof (cases rule: main_runs_setup[OF laws(2,3), of counting_bucket default_flags "[]"])
    case 1
    then show ?thesis
      using run_setup_logged(2)[of ?lib "\<lambda>c. Inr ()" "setup_calls default_flags" "[]"] by (simp add: list_all_iff)
  next
    case (2 v)
    note run = 2(1)[unfolded returned]
    from main_starts_with_default_policy[OF laws run] run show ?thesis by blast
  qed
qed

section \<open>Options and shutdown\<close>

text \<open>
  HTTP/2 is off on both servers unless it is asked for, each server takes certificates from its
  own watcher only, secure metrics are filtered, and the leader election leaves room for retries.
\<close>

theorem manager_options_safe:
  "(DisableHTTP2 \<in> set (mgo_WebhookTLSOpts (managerOptions f))) = (\<not> fl_enableHTTP2 f) \<and>
   (DisableHTTP2 \<in> set (mo_TLSOpts (mgo_Metrics (managerOptions f)))) = (\<not> fl_enableHTTP2 f) \<and>
   (GetCertificateFrom cw \<in> set (mgo_WebhookTLSOpts (managerOptions f))) = (webhookCertWatcher f = Some cw) \<and>
   (GetCertificateFrom cw \<in> set (mo_TLSOpts (mgo_Metrics (managerOptions f)))) = (metricsCertWatcher f = Some cw) \<and>
   mo_WithAuthenticationAndAuthorization (mgo_Metrics (managerOptions f)) = mo_SecureServing (mgo_Metrics (managerOptions f)) \<and>
   5 * mgo_RetryPeriod (managerOptions f) \<le> mgo_RenewDeadline (managerOptions f) \<and>
   mgo_RenewDeadline (managerOptions f) < mgo_LeaseDuration (managerOptions f)"
  by (cases cw)
    (auto simp: managerOptions_def metricsServerOptions_def webhookTLSOpts_def tlsOpts_def watcher_options_def
      time_consts split: option.splits)

lemma cert_path_example:
  "webhookCertWatcher (default_flags\<lparr>fl_webhookCertPath := ''/certs//x/../''\<rparr>) = Some (''/certs/tls.crt'', ''/certs/tls.key'')"
  by code_simp

text \<open>
  After a termination signal the process ends: normally if and only if the manager returns
  without an error within five seconds, else with exit code 1.
\<close>

theorem shutdown_within_grace:
  assumes "sl_signal lib = Some s"
  shows "run_manager lib w \<in> {Returned, Exited 1} \<and>
    (run_manager lib w = Returned \<longleftrightarrow>
      (\<exists>t < s + 5 * time_second. sl_managerStart lib (Some s) w = Some (Inr (), t)))"
  using assms by (auto simp: run_manager_def setupSignalHandler_def split: option.splits sum.splits)

theorem shutdown_within_grace_witness:
  "run_manager (scripted_lib (\<lambda>c. Inr ())) [] = Returned"
proof -
  have "sl_signal (scripted_lib (\<lambda>c. Inr ())) = Some 0" by (simp add: scripted_lib_def)
  from shutdown_within_grace[OF this, of "[]"] show ?thesis by (simp add: scripted_lib_def time_consts)
qed

end
